theory Spec2Isabelle
  imports Complex_Main "HOL-Library.Monad_Syntax"
begin

section \<open>Strings\<close>

text \<open>
  A JavaScript string is modelled as a \<^typ>\<open>string\<close>. The characters of the model are
  ASCII: the classes below (\<open>\d\<close>, \<open>\s\<close>, letters) and \<open>toLowerCase\<close> are those of
  JavaScript restricted to code units below 128; a character above that range stands for
  itself and belongs to no class.
\<close>

definition isDigit :: "char \<Rightarrow> bool" where
  "isDigit c = (c \<in> set ''0123456789'')"

definition isSpace :: "char \<Rightarrow> bool" where
  "isSpace c = (c \<in> set [CHR 0x09, CHR 0x0A, CHR 0x0B, CHR 0x0C, CHR 0x0D, CHR 0x20])"

definition isLetter :: "char \<Rightarrow> bool" where
  "isLetter c = (c \<in> set ''ABCDEFGHIJKLMNOPQRSTUVWXYZabcdefghijklmnopqrstuvwxyz'')"

definition lowerChar :: "char \<Rightarrow> char" where
  "lowerChar c =
     (case map_of (zip ''ABCDEFGHIJKLMNOPQRSTUVWXYZ'' ''abcdefghijklmnopqrstuvwxyz'') c of
        Some d \<Rightarrow> d | None \<Rightarrow> c)"

definition upperChar :: "char \<Rightarrow> char" where
  "upperChar c =
     (case map_of (zip ''abcdefghijklmnopqrstuvwxyz'' ''ABCDEFGHIJKLMNOPQRSTUVWXYZ'') c of
        Some d \<Rightarrow> d | None \<Rightarrow> c)"

definition toLowerCase :: "string \<Rightarrow> string" where
  "toLowerCase s = map lowerChar s"

definition toUpperCase :: "string \<Rightarrow> string" where
  "toUpperCase s = map upperChar s"

definition trimStart :: "string \<Rightarrow> string" where
  "trimStart s = dropWhile isSpace s"

definition trimEnd :: "string \<Rightarrow> string" where
  "trimEnd s = rev (dropWhile isSpace (rev s))"

definition trim :: "string \<Rightarrow> string" where
  "trim s = trimEnd (trimStart s)"

text \<open>\<open>s.startsWith(p)\<close>, \<open>s.endsWith(p)\<close> and \<open>s.includes(p)\<close>.\<close>

fun startsWith :: "string \<Rightarrow> string \<Rightarrow> bool" where
  "startsWith s [] = True"
| "startsWith [] (p # ps) = False"
| "startsWith (c # cs) (p # ps) = (c = p \<and> startsWith cs ps)"

definition endsWith :: "string \<Rightarrow> string \<Rightarrow> bool" where
  "endsWith s p = startsWith (rev s) (rev p)"

fun includesStr :: "string \<Rightarrow> string \<Rightarrow> bool" where
  "includesStr [] p = (p = [])"
| "includesStr (c # cs) p = (startsWith (c # cs) p \<or> includesStr cs p)"

text \<open>\<open>s.match(/\d+/)\<close>: the first maximal run of digits, \<open>null\<close> when there is none.\<close>

definition matchDigits :: "string \<Rightarrow> string option" where
  "matchDigits s =
     (let r = dropWhile (\<lambda>c. \<not> isDigit c) s
      in if r = [] then None else Some (takeWhile isDigit r))"

section \<open>Numbers\<close>

text \<open>
  A JavaScript number is \<open>NaN\<close>, an infinity or a finite binary64 value, which is
  carried as the rational number it denotes; \<open>-0\<close> is identified with \<open>0\<close>. Every
  arithmetic result and every numeric literal is the exact mathematical value rounded to
  the nearest binary64 value, ties to the even significand (\<open>toDouble\<close> below): a
  magnitude that lies in \<open>[2^e, 2^(e+1))\<close> is rounded to a multiple of \<open>2^(e-52)\<close>, one
  below \<open>2^-1022\<close> to a multiple of \<open>2^-1074\<close> (so it may become \<open>0\<close>), and a result
  that rounds to \<open>2^1024\<close> is an infinity.
\<close>

datatype jsnum = NaN | PosInf | NegInf | Num rat

definition pow2 :: "int \<Rightarrow> rat" where
  "pow2 k = (if 0 \<le> k then 2 ^ nat k else 1 / 2 ^ nat (- k))"

text \<open>The number of binary digits of a natural number.\<close>

function bitLength :: "nat \<Rightarrow> nat" where
  "bitLength n = (if n = 0 then 0 else Suc (bitLength (n div 2)))"
  by pat_completeness auto
termination by (relation "measure id") auto

declare bitLength.simps [simp del]

text \<open>The binary exponent of a positive number \<open>x\<close>: the \<open>e\<close> with \<open>2^e \<le> x < 2^(e+1)\<close>.\<close>

definition ilog2 :: "rat \<Rightarrow> int" where
  "ilog2 x =
     (if 1 \<le> x then int (bitLength (nat \<lfloor>x\<rfloor>)) - 1
      else - int (bitLength (nat (if of_int \<lfloor>1 / x\<rfloor> = 1 / x then \<lfloor>1 / x\<rfloor> - 1
                                  else \<lfloor>1 / x\<rfloor>))))"

definition roundHalfEven :: "rat \<Rightarrow> int" where
  "roundHalfEven r =
     (let f = \<lfloor>r\<rfloor>; d = r - of_int f
      in if d < 1 / 2 then f else if 1 / 2 < d then f + 1 else if even f then f else f + 1)"

text \<open>A positive magnitude rounded to 53 significant bits, exponents from \<open>-1022\<close> up.\<close>

definition roundMagnitude :: "rat \<Rightarrow> rat" where
  "roundMagnitude a =
     (let q = pow2 (max (ilog2 a) (- 1022) - 52)
      in of_int (roundHalfEven (a / q)) * q)"

definition toDouble :: "rat \<Rightarrow> jsnum" where
  "toDouble x =
     (if x = 0 then Num 0
      else let y = roundMagnitude \<bar>x\<bar>
           in if 2 ^ 1024 \<le> y then (if x < 0 then NegInf else PosInf)
              else Num (if x < 0 then - y else y))"

definition isFinite :: "jsnum \<Rightarrow> bool" where
  "isFinite n = (case n of Num _ \<Rightarrow> True | _ \<Rightarrow> False)"

text \<open>The value of a finite number (and \<open>0\<close> for the others), to state sums of money.\<close>

definition numVal :: "jsnum \<Rightarrow> rat" where
  "numVal n = (case n of Num r \<Rightarrow> r | _ \<Rightarrow> 0)"

definition js_neg :: "jsnum \<Rightarrow> jsnum" where
  "js_neg n = (case n of NaN \<Rightarrow> NaN | PosInf \<Rightarrow> NegInf | NegInf \<Rightarrow> PosInf | Num r \<Rightarrow> Num (- r))"

text \<open>\<open>a >= b\<close> on numbers: false whenever an operand is \<open>NaN\<close>.\<close>

fun js_ge :: "jsnum \<Rightarrow> jsnum \<Rightarrow> bool" where
  "js_ge NaN b = False"
| "js_ge a NaN = False"
| "js_ge PosInf b = True"
| "js_ge a NegInf = True"
| "js_ge NegInf b = False"
| "js_ge a PosInf = False"
| "js_ge (Num a) (Num b) = (b \<le> a)"

fun js_add :: "jsnum \<Rightarrow> jsnum \<Rightarrow> jsnum" where
  "js_add NaN b = NaN"
| "js_add a NaN = NaN"
| "js_add PosInf NegInf = NaN"
| "js_add NegInf PosInf = NaN"
| "js_add PosInf b = PosInf"
| "js_add a PosInf = PosInf"
| "js_add NegInf b = NegInf"
| "js_add a NegInf = NegInf"
| "js_add (Num a) (Num b) = toDouble (a + b)"

definition signedInf :: "bool \<Rightarrow> jsnum" where
  "signedInf negative = (if negative then NegInf else PosInf)"

fun js_mul :: "jsnum \<Rightarrow> jsnum \<Rightarrow> jsnum" where
  "js_mul NaN b = NaN"
| "js_mul a NaN = NaN"
| "js_mul (Num a) (Num b) = toDouble (a * b)"
| "js_mul (Num a) b = (if a = 0 then NaN else signedInf ((a < 0) \<noteq> (b = NegInf)))"
| "js_mul a (Num b) = (if b = 0 then NaN else signedInf ((b < 0) \<noteq> (a = NegInf)))"
| "js_mul a b = signedInf ((a = NegInf) \<noteq> (b = NegInf))"

fun js_div :: "jsnum \<Rightarrow> jsnum \<Rightarrow> jsnum" where
  "js_div NaN b = NaN"
| "js_div a NaN = NaN"
| "js_div (Num a) (Num b) =
     (if b = 0 then (if a = 0 then NaN else signedInf (a < 0)) else toDouble (a / b))"
| "js_div (Num a) b = Num 0"
| "js_div a (Num b) = signedInf ((b < 0) \<noteq> (a = NegInf))"
| "js_div a b = NaN"

subsection \<open>\<open>Number(string)\<close>\<close>

definition digitVal :: "char \<Rightarrow> nat" where
  "digitVal c =
     (case map_of (zip ''0123456789abcdefABCDEF''
                       [0, 1, 2, 3, 4, 5, 6, 7, 8, 9, 10, 11, 12, 13, 14, 15, 10, 11, 12, 13, 14, 15]) c of
        Some n \<Rightarrow> n | None \<Rightarrow> 0)"

definition digitsValue :: "nat \<Rightarrow> string \<Rightarrow> nat" where
  "digitsValue base ds = foldl (\<lambda>acc c. base * acc + digitVal c) 0 ds"

definition pow10 :: "int \<Rightarrow> rat" where
  "pow10 e = (if 0 \<le> e then 10 ^ nat e else 1 / 10 ^ nat (- e))"

text \<open>
  The exponent part of a decimal literal: \<open>e\<close> or \<open>E\<close>, an optional sign and at least
  one digit; the empty string is the absent exponent.
\<close>

definition exponentPart :: "string \<Rightarrow> int option" where
  "exponentPart s =
     (case s of
        [] \<Rightarrow> Some 0
      | c # r \<Rightarrow>
          if c = CHR ''e'' \<or> c = CHR ''E'' then
            (let negative = (r \<noteq> [] \<and> hd r = CHR ''-'');
                 ds = (if r \<noteq> [] \<and> (hd r = CHR ''-'' \<or> hd r = CHR ''+'') then tl r else r)
             in if ds \<noteq> [] \<and> list_all isDigit ds
                then Some (if negative then - int (digitsValue 10 ds) else int (digitsValue 10 ds))
                else None)
          else None)"

text \<open>
  \<open>StrUnsignedDecimalLiteral\<close>: \<open>Infinity\<close>, or digits with an optional fraction and an
  optional exponent, with a digit on at least one side of the dot.
\<close>

definition unsignedDecimal :: "string \<Rightarrow> jsnum" where
  "unsignedDecimal s =
     (if s = ''Infinity'' then PosInf
      else
        let ip = takeWhile isDigit s;
            r1 = dropWhile isDigit s;
            hasDot = (r1 \<noteq> [] \<and> hd r1 = CHR ''.'');
            fp = (if hasDot then takeWhile isDigit (tl r1) else []);
            r2 = (if hasDot then dropWhile isDigit (tl r1) else r1)
        in if ip = [] \<and> fp = [] then NaN
           else (case exponentPart r2 of
                   None \<Rightarrow> NaN
                 | Some e \<Rightarrow>
                     toDouble ((of_nat (digitsValue 10 ip)
                                + of_nat (digitsValue 10 fp) / 10 ^ length fp) * pow10 e)))"

text \<open>\<open>NonDecimalIntegerLiteral\<close>: \<open>0x\<close>, \<open>0o\<close> or \<open>0b\<close> and at least one digit of the base.\<close>

definition nonDecimal :: "string \<Rightarrow> jsnum option" where
  "nonDecimal s =
     (case s of
        z # p # ds \<Rightarrow>
          if z \<noteq> CHR ''0'' then None
          else if p = CHR ''x'' \<or> p = CHR ''X'' then
            Some (if ds \<noteq> [] \<and> list_all (\<lambda>c. c \<in> set ''0123456789abcdefABCDEF'') ds
                  then toDouble (of_nat (digitsValue 16 ds)) else NaN)
          else if p = CHR ''o'' \<or> p = CHR ''O'' then
            Some (if ds \<noteq> [] \<and> list_all (\<lambda>c. c \<in> set ''01234567'') ds
                  then toDouble (of_nat (digitsValue 8 ds)) else NaN)
          else if p = CHR ''b'' \<or> p = CHR ''B'' then
            Some (if ds \<noteq> [] \<and> list_all (\<lambda>c. c \<in> set ''01'') ds
                  then toDouble (of_nat (digitsValue 2 ds)) else NaN)
          else None
      | _ \<Rightarrow> None)"

text \<open>
  \<open>Number(s)\<close> for a string: surrounding white space is dropped, the empty string is
  \<open>0\<close>, and anything that is not a numeric literal is \<open>NaN\<close>.
\<close>

definition toNumber :: "string \<Rightarrow> jsnum" where
  "toNumber s =
     (let t = trim s
      in if t = [] then Num 0
         else (case nonDecimal t of
                 Some n \<Rightarrow> n
               | None \<Rightarrow>
                   if hd t = CHR ''-'' then js_neg (unsignedDecimal (tl t))
                   else if hd t = CHR ''+'' then unsignedDecimal (tl t)
                   else unsignedDecimal t))"

section \<open>Leads\<close>

datatype ReplyTimeCategory = Cat_7_00_3_30 | Cat_3_00_6_00 | After_6 | Weekend

datatype YesNo = Yes | No

text \<open>
  \<open>LeadInput\<close> is \<open>Omit<Lead, 'id'>\<close>; the optional legacy field \<open>replyTime\<close> is
  \<open>None\<close> when it is absent. Its text fields are strings. The record of the fields
  is generic in the type \<open>'v\<close> of the text fields, because the import of a JSON file can
  put values that are not strings into them at run time (the cast of the parsed array to
  \<open>Record<string, string>[]\<close> checks nothing); everywhere else \<open>'v\<close> is \<open>string\<close>.
\<close>

record 'v LeadRecord =
  date :: 'v
  customer :: 'v
  leadSource :: 'v
  jobType :: 'v
  leadCost :: 'v
  jobWon :: YesNo
  comments :: 'v
  replyTimeCategory :: ReplyTimeCategory
  replyTimeMinutes :: 'v
  booked :: YesNo
  sold :: YesNo
  cancelled :: YesNo
  soldAmount :: 'v
  revenue :: 'v
  replyTime :: "'v option"

type_synonym LeadInput = "string LeadRecord"

type_synonym 'z LeadInput_scheme = "(string, 'z) LeadRecord_scheme"

record Lead = "string LeadRecord" +
  lead_id :: string

definition defaultReplyCategory :: ReplyTimeCategory where
  "defaultReplyCategory = Cat_7_00_3_30"

definition emptyLead :: LeadInput where
  "emptyLead = \<lparr> date = '''', customer = '''', leadSource = '''', jobType = '''', leadCost = '''',
     jobWon = No, comments = '''', replyTimeCategory = defaultReplyCategory,
     replyTimeMinutes = '''', booked = No, sold = No, cancelled = No, soldAmount = '''',
     revenue = '''', replyTime = None \<rparr>"

definition parseMoney :: "string \<Rightarrow> jsnum" where
  "parseMoney v =
     (let num = toNumber (filter (\<lambda>c. isDigit c \<or> c = CHR ''.'' \<or> c = CHR ''-'') v)
      in if isFinite num then num else Num 0)"

text \<open>\<open>null\<close> is \<open>None\<close>. The test \<open>if (lead.replyTime)\<close> holds for a present, non-empty string.\<close>

definition getReplyMinutes :: "'a LeadInput_scheme \<Rightarrow> jsnum option" where
  "getReplyMinutes lead =
     (let fromNew = toNumber (replyTimeMinutes lead)
      in if isFinite fromNew \<and> js_ge fromNew (Num 0) then Some fromNew
         else (case replyTime lead of
                 None \<Rightarrow> None
               | Some rt \<Rightarrow>
                   if rt = [] then None
                   else (case matchDigits rt of
                           None \<Rightarrow> None
                         | Some found \<Rightarrow> Some (toNumber found))))"

section \<open>Global KPIs\<close>

text \<open>
  The view model of \<open>stats\<close>. Counts are array lengths, kept as natural numbers. The
  three breakdown tables of the source (\<open>bySource\<close>, \<open>byJobType\<close>,
  \<open>avgReplyByCategory\<close>) are not part of this development.
\<close>

record Stats =
  totalLeads :: nat
  wonLeads :: nat
  totalCost :: jsnum
  winRate :: jsnum
  avgReplyTime :: jsnum

text \<open>A count or an index as a number: an array is shorter than \<open>2^32\<close>, so this is exact.\<close>

definition numOfNat :: "nat \<Rightarrow> jsnum" where
  "numOfNat n = Num (of_nat n)"

text \<open>\<open>xs.reduce((a, b) => a + b, 0)\<close>.\<close>

definition sumNumbers :: "jsnum list \<Rightarrow> jsnum" where
  "sumNumbers xs = foldl js_add (Num 0) xs"

text \<open>The reply minutes of the leads that have some, in order, and their mean (\<open>0\<close> if none).\<close>

definition replyTimesOf :: "'a LeadInput_scheme list \<Rightarrow> jsnum list" where
  "replyTimesOf leads = List.map_filter getReplyMinutes leads"

definition averageOf :: "jsnum list \<Rightarrow> jsnum" where
  "averageOf xs = (if 0 < length xs then js_div (sumNumbers xs) (numOfNat (length xs)) else Num 0)"

definition stats :: "'a LeadInput_scheme list \<Rightarrow> Stats" where
  "stats leads =
     (let total = length leads;
          won = length (filter (\<lambda>l. jobWon l = Yes) leads);
          cost = foldl (\<lambda>sum l. js_add sum (parseMoney (leadCost l))) (Num 0) leads;
          rate = (if 0 < total then js_mul (js_div (numOfNat won) (numOfNat total)) (Num 100)
                  else Num 0)
      in \<lparr> totalLeads = total, wonLeads = won, totalCost = cost, winRate = rate,
           avgReplyTime = averageOf (replyTimesOf leads) \<rparr>)"

section \<open>The weeks of a month\<close>

text \<open>\<open>String(n)\<close> for a non-negative integer.\<close>

definition digitChar :: "nat \<Rightarrow> char" where
  "digitChar n = ''0123456789'' ! n"

function showNat :: "nat \<Rightarrow> string" where
  "showNat n = (if n < 10 then [digitChar n] else showNat (n div 10) @ [digitChar (n mod 10)])"
  by pat_completeness auto
termination
  by (relation "measure id") auto

declare showNat.simps [simp del]

text \<open>\<open>s.padStart(2, '0')\<close>.\<close>

definition padStart2 :: "string \<Rightarrow> string" where
  "padStart2 s = replicate (2 - length s) (CHR ''0'') @ s"

text \<open>
  \<open>toMonthValue\<close>, the value of the month selector, from the year and the month (from
  1) of a date.
\<close>

definition toMonthValue :: "nat \<Rightarrow> nat \<Rightarrow> string" where
  "toMonthValue year month = showNat year @ ''-'' @ padStart2 (showNat month)"

definition weekLabel :: "nat \<Rightarrow> nat \<Rightarrow> string" where
  "weekLabel startDay endDay = showNat startDay @ ''-'' @ showNat endDay"

text \<open>\<open>s.split(d)\<close> for a one-character separator: never an empty array.\<close>

fun splitOn :: "char \<Rightarrow> string \<Rightarrow> string list" where
  "splitOn d [] = [[]]"
| "splitOn d (c # cs) =
     (if c = d then [] # splitOn d cs
      else (case splitOn d cs of w # ws \<Rightarrow> (c # w) # ws | [] \<Rightarrow> [[c]]))"

text \<open>
  \<open>new Date(year, month, 0).getDate()\<close> for non-negative finite arguments: the
  arguments are truncated to integers, a year from 0 to 99 means 1900 plus that year, the
  month index runs over into the following years, and day 0 is the last day of the month
  before. The result is \<open>None\<close> (the source's \<open>NaN\<close>) for an argument that is not
  finite and for a date after the last one a \<open>Date\<close> can hold (13 September 275760).
  The source only reaches this with arguments parsed from strings without a minus sign.
\<close>

definition isLeapYear :: "nat \<Rightarrow> bool" where
  "isLeapYear y = (y mod 4 = 0 \<and> (y mod 100 \<noteq> 0 \<or> y mod 400 = 0))"

definition daysInMonth :: "nat \<Rightarrow> nat \<Rightarrow> nat" where
  "daysInMonth y m =
     (if m = 2 then (if isLeapYear y then 29 else 28)
      else if m = 4 \<or> m = 6 \<or> m = 9 \<or> m = 11 then 30 else 31)"

definition lastDayOfMonth :: "jsnum \<Rightarrow> jsnum \<Rightarrow> nat option" where
  "lastDayOfMonth year month =
     (case (year, month) of
        (Num y, Num m) \<Rightarrow>
          (let yi = nat \<lfloor>y\<rfloor>;
               mi = nat \<lfloor>m\<rfloor>;
               yr = (if yi \<le> 99 then 1900 + yi else yi);
               k = yr * 12 + mi - 1
           in if k \<le> 275760 * 12 + 7 then Some (daysInMonth (k div 12) (k mod 12 + 1))
              else None)
      | _ \<Rightarrow> None)"

text \<open>The loop \<open>for (let start = 1; start <= lastDay; start += 7)\<close>.\<close>

function weeksLoop :: "nat \<Rightarrow> nat \<Rightarrow> string list" where
  "weeksLoop start lastDay =
     (if start \<le> lastDay
      then weekLabel start (min (start + 6) lastDay) # weeksLoop (start + 7) lastDay
      else [])"
  by pat_completeness auto
termination
  by (relation "measure (\<lambda>(start, lastDay). Suc lastDay - start)") auto

declare weeksLoop.simps [simp del]

text \<open>
  The ranges of days that the loop of \<open>monthWeeks\<close> labels, as pairs of first and last
  day; the properties of the month partition are stated on them.
\<close>

function weekRanges :: "nat \<Rightarrow> nat \<Rightarrow> (nat \<times> nat) list" where
  "weekRanges start lastDay =
     (if start \<le> lastDay
      then (start, min (start + 6) lastDay) # weekRanges (start + 7) lastDay
      else [])"
  by pat_completeness auto
termination
  by (relation "measure (\<lambda>(start, lastDay). Suc lastDay - start)") auto

declare weekRanges.simps [simp del]

text \<open>\<open>!n\<close> for a number: \<open>NaN\<close> and \<open>0\<close> are falsy.\<close>

definition falsy :: "jsnum \<Rightarrow> bool" where
  "falsy n = (n = NaN \<or> n = Num 0)"

text \<open>\<open>Number(parts[i])\<close>, where a missing element is \<open>undefined\<close> and gives \<open>NaN\<close>.\<close>

definition numberAt :: "string list \<Rightarrow> nat \<Rightarrow> jsnum" where
  "numberAt parts i = (if i < length parts then toNumber (parts ! i) else NaN)"

definition monthWeeksOf :: "jsnum \<Rightarrow> jsnum \<Rightarrow> string list" where
  "monthWeeksOf year month =
     (if falsy year \<or> falsy month then [''1-7'', ''8-14'', ''15-21'', ''22-28'']
      else (case lastDayOfMonth year month of
              None \<Rightarrow> []
            | Some lastDay \<Rightarrow> weeksLoop 1 lastDay))"

definition monthWeeks :: "string \<Rightarrow> string list" where
  "monthWeeks selectedMonth =
     (let parts = splitOn (CHR ''-'') selectedMonth
      in monthWeeksOf (numberAt parts 0) (numberAt parts 1))"

section \<open>Tabular reader\<close>

abbreviation TAB :: char where "TAB \<equiv> CHR 0x09"
abbreviation LF :: char where "LF \<equiv> CHR 0x0A"
abbreviation CR :: char where "CR \<equiv> CHR 0x0D"
abbreviation DQUOTE :: char where "DQUOTE \<equiv> CHR 0x22"

text \<open>Puts a character in front of the first piece of a split.\<close>

definition consHead :: "char \<Rightarrow> string list \<Rightarrow> string list" where
  "consHead c ws = (case ws of [] \<Rightarrow> [[c]] | w # r \<Rightarrow> (c # w) # r)"

text \<open>\<open>text.split(/\r?\n/)\<close>: a line ends at a line feed, with the carriage return before it.\<close>

fun splitLines :: "string \<Rightarrow> string list" where
  "splitLines [] = [[]]"
| "splitLines [c] = (if c = LF then [[], []] else [[c]])"
| "splitLines (c # d # cs) =
     (if c = LF then [] # splitLines (d # cs)
      else if c = CR \<and> d = LF then [] # splitLines cs
      else consHead c (splitLines (d # cs)))"

text \<open>The kept lines: \<open>.map((l) => l.trimEnd()).filter(Boolean)\<close>.\<close>

definition csvLines :: "string \<Rightarrow> string list" where
  "csvLines text = filter (\<lambda>l. l \<noteq> []) (map trimEnd (splitLines text))"

text \<open>
  The comma branch of \<open>parseLine\<close>: the loop over the characters of the line, with the
  cells finished so far, the current cell and the \<open>inQuotes\<close> flag. A quote followed by
  a quote inside quotes takes both characters (\<open>i += 1\<close>).
\<close>

fun commaLoop :: "string list \<Rightarrow> string \<Rightarrow> bool \<Rightarrow> string \<Rightarrow> string list" where
  "commaLoop vals current inQuotes [] = vals @ [trim current]"
| "commaLoop vals current inQuotes [ch] =
     (if ch = DQUOTE then commaLoop vals current (\<not> inQuotes) []
      else if ch = CHR '','' \<and> \<not> inQuotes then commaLoop (vals @ [trim current]) [] inQuotes []
      else commaLoop vals (current @ [ch]) inQuotes [])"
| "commaLoop vals current inQuotes (ch # nxt # rest) =
     (if ch = DQUOTE then
        (if inQuotes \<and> nxt = DQUOTE then commaLoop vals (current @ [DQUOTE]) inQuotes rest
         else commaLoop vals current (\<not> inQuotes) (nxt # rest))
      else if ch = CHR '','' \<and> \<not> inQuotes
        then commaLoop (vals @ [trim current]) [] inQuotes (nxt # rest)
      else commaLoop vals (current @ [ch]) inQuotes (nxt # rest))"

definition parseLine :: "char \<Rightarrow> string \<Rightarrow> string list" where
  "parseLine delimiter line =
     (if delimiter = TAB then map trim (splitOn TAB line)
      else commaLoop [] [] False line)"

definition csvToMatrix :: "string \<Rightarrow> string list list" where
  "csvToMatrix text =
     (let lines = csvLines text
      in if length lines = 0 then []
         else (let delimiter = (if TAB \<in> set (lines ! 0) then TAB else CHR '','')
               in map (parseLine delimiter) lines))"

section \<open>Header normalizer and header-keyed rows\<close>

text \<open>\<open>.replace(/[\s_]+/g, ' ')\<close>: every maximal run of white space and underscores becomes one space.\<close>

definition isGap :: "char \<Rightarrow> bool" where
  "isGap c = (isSpace c \<or> c = CHR ''_'')"

function collapseGaps :: "string \<Rightarrow> string" where
  "collapseGaps [] = []"
| "collapseGaps (c # cs) =
     (if isGap c then CHR '' '' # collapseGaps (dropWhile isGap cs) else c # collapseGaps cs)"
  by pat_completeness auto
termination
  by (relation "measure length") (auto simp: length_dropWhile_le less_Suc_eq_le)

text \<open>
  The byte-order mark that the source strips first (the first \<open>replace\<close> of
  \<open>normalizeHeader\<close>) is not a character of the model, so that step leaves every string
  of the model as it is.
\<close>

definition normalizeHeader :: "string \<Rightarrow> string" where
  "normalizeHeader v = collapseGaps (toLowerCase (trim v))"

subsection \<open>JSON values\<close>

text \<open>
  The values that \<open>JSON.parse\<close> gives. An object is the list of its entries, in which
  the last of equal keys counts.
\<close>

datatype json = JNull | JBool bool | JNumber jsnum | JString string
  | JArray "json list" | JObject "(string \<times> json) list"

text \<open>Truthiness, the test of \<open>!v\<close> and of \<open>v || d\<close>.\<close>

definition truthy :: "json \<Rightarrow> bool" where
  "truthy v =
     (case v of
        JNull \<Rightarrow> False
      | JBool b \<Rightarrow> b
      | JNumber n \<Rightarrow> \<not> falsy n
      | JString s \<Rightarrow> s \<noteq> []
      | JArray xs \<Rightarrow> True
      | JObject entries \<Rightarrow> True)"

text \<open>
  \<open>v[key]\<close> for a value \<open>v\<close> that is not \<open>null\<close> and a key that is neither an array
  index nor the name of a property of \<open>Object.prototype\<close>, of arrays, of strings, numbers
  or booleans (such as \<open>length\<close> and \<open>constructor\<close>): the own property of an object,
  and \<open>undefined\<close> (\<open>None\<close>) otherwise. The keys that the row mapper reads are of
  this kind.
\<close>

definition property :: "json \<Rightarrow> string \<Rightarrow> json option" where
  "property v key = (case v of JObject entries \<Rightarrow> map_of (rev entries) key | _ \<Rightarrow> None)"

subsection \<open>Rows\<close>

text \<open>
  A header-keyed record, \<open>Record<string, string>\<close> by its declared type. The rows of a
  delimited file and of a spreadsheet are objects with string values; those of a JSON
  file are whatever the elements of the parsed array are.
\<close>

type_synonym row = json

text \<open>\<open>cols[idx] ?? ''\<close>, and \<open>row[idx] || ''\<close>, which agree on strings.\<close>

definition cellAt :: "string list \<Rightarrow> nat \<Rightarrow> string" where
  "cellAt cols idx = (if idx < length cols then cols ! idx else [])"

definition rowOf :: "string list \<Rightarrow> string list \<Rightarrow> row" where
  "rowOf headers cols =
     JObject (foldl (\<lambda>acc (idx, h). acc @ [(h, JString (trim (cellAt cols idx)))]) []
                (enumerate 0 headers))"

definition csvToRows :: "string \<Rightarrow> row list" where
  "csvToRows text =
     (let matrix = csvToMatrix text
      in if length matrix < 2 then []
         else (let headers = map normalizeHeader (matrix ! 0)
               in map (rowOf headers) (drop 1 matrix)))"

section \<open>Scorecard transformer\<close>

text \<open>
  The two week-column patterns, both case-insensitive and unanchored:
  \<open>/[A-Z]{3}:\s*\d+/i\<close> (tested) and \<open>/([A-Z]{3}):\s*(\d{1,2})/i\<close> (matched, for the
  month letters and the first one or two digits of the day). \<open>weekPrefix\<close> and
  \<open>weekGroups\<close> are the matches that begin at the first character; the leftmost
  match is the first suffix that has one.
\<close>

definition weekPrefix :: "string \<Rightarrow> bool" where
  "weekPrefix s =
     (case s of
        a # b # c # d # rest \<Rightarrow>
          isLetter a \<and> isLetter b \<and> isLetter c \<and> d = CHR '':''
          \<and> (let r = dropWhile isSpace rest in r \<noteq> [] \<and> isDigit (hd r))
      | _ \<Rightarrow> False)"

fun testWeek :: "string \<Rightarrow> bool" where
  "testWeek [] = False"
| "testWeek (c # cs) = (weekPrefix (c # cs) \<or> testWeek cs)"

definition weekGroups :: "string \<Rightarrow> (string \<times> string) option" where
  "weekGroups s =
     (case s of
        a # b # c # d # rest \<Rightarrow>
          if isLetter a \<and> isLetter b \<and> isLetter c \<and> d = CHR '':'' then
            (let ds = take 2 (takeWhile isDigit (dropWhile isSpace rest))
             in if ds \<noteq> [] then Some ([a, b, c], ds) else None)
          else None
      | _ \<Rightarrow> None)"

fun matchWeek :: "string \<Rightarrow> (string \<times> string) option" where
  "matchWeek [] = None"
| "matchWeek (c # cs) =
     (case weekGroups (c # cs) of Some g \<Rightarrow> Some g | None \<Rightarrow> matchWeek cs)"

text \<open>\<open>/goal|actual/i.test(source)\<close>.\<close>

definition isMetaRow :: "string \<Rightarrow> bool" where
  "isMetaRow source =
     (includesStr (toLowerCase source) ''goal'' \<or> includesStr (toLowerCase source) ''actual'')"

text \<open>\<open>xs.findIndex((x, idx) => P(idx, x))\<close>, with \<open>None\<close> for \<open>-1\<close>.\<close>

fun findIndexFrom :: "nat \<Rightarrow> (nat \<Rightarrow> 'a \<Rightarrow> bool) \<Rightarrow> 'a list \<Rightarrow> nat option" where
  "findIndexFrom i P [] = None"
| "findIndexFrom i P (x # xs) = (if P i x then Some i else findIndexFrom (Suc i) P xs)"

definition findIndex :: "(nat \<Rightarrow> 'a \<Rightarrow> bool) \<Rightarrow> 'a list \<Rightarrow> nat option" where
  "findIndex P xs = findIndexFrom 0 P xs"

text \<open>\<open>xs.slice(a, b)\<close> for indices that are not negative.\<close>

definition slice :: "'a list \<Rightarrow> nat \<Rightarrow> nat \<Rightarrow> 'a list" where
  "slice xs a b = drop a (take b xs)"

definition monthMap :: "(string \<times> nat) list" where
  "monthMap = [(''JAN'', 1), (''FEB'', 2), (''MAR'', 3), (''APR'', 4), (''MAY'', 5), (''JUN'', 6),
               (''JUL'', 7), (''AUG'', 8), (''SEP'', 9), (''OCT'', 10), (''NOV'', 11), (''DEC'', 12)]"

text \<open>
  The date of a week column; \<open>year\<close> is \<open>new Date().getFullYear()\<close>, a parameter of the
  model. A month that is not in \<open>monthMap\<close> is month 1.
\<close>

definition scorecardDate :: "nat \<Rightarrow> string \<Rightarrow> string" where
  "scorecardDate year weekValue =
     (let weekMatch = matchWeek weekValue;
          mon = (case weekMatch of
                   Some (m, d) \<Rightarrow> map_of monthMap (toUpperCase m)
                 | None \<Rightarrow> None);
          day = (case weekMatch of Some (m, d) \<Rightarrow> digitsValue 10 d | None \<Rightarrow> 1)
      in showNat year @ ''-'' @ padStart2 (showNat (case mon of Some k \<Rightarrow> k | None \<Rightarrow> 1))
         @ ''-'' @ padStart2 (showNat day))"

definition scorecardLead :: "string \<Rightarrow> string \<Rightarrow> string \<Rightarrow> nat \<Rightarrow> LeadInput" where
  "scorecardLead dateStr source weekValue i =
     \<lparr> date = dateStr,
       customer = ''Imported '' @ source @ '' Lead '' @ showNat i,
       leadSource = source,
       jobType = ''Imported'',
       leadCost = ''$0'',
       jobWon = No,
       comments = ''Imported from marketing scorecard ('' @ weekValue @ '')'',
       replyTimeCategory = defaultReplyCategory,
       replyTimeMinutes = [],
       booked = No,
       sold = No,
       cancelled = No,
       soldAmount = ''$0'',
       revenue = ''$0'',
       replyTime = None \<rparr>"

text \<open>
  \<open>Number((raw.match(/\d+/) || ['0'])[0])\<close>, the lead count of a cell, as a natural
  number. (Beyond 308 digits the source's number is \<open>Infinity\<close> and its loop over the
  count does not end; the model takes the count for what the digits say.)
\<close>

definition cellCount :: "string \<Rightarrow> nat" where
  "cellCount raw = (case matchDigits raw of Some ds \<Rightarrow> digitsValue 10 ds | None \<Rightarrow> 0)"

text \<open>The body of the loop over the week columns, and of the loop over the channel rows.\<close>

definition weekLeads :: "nat \<Rightarrow> string \<Rightarrow> string list \<Rightarrow> nat \<times> string \<Rightarrow> LeadInput list" where
  "weekLeads year source row week =
     (let count = cellCount (cellAt row (fst week))
      in if count < 1 then []
         else map (scorecardLead (scorecardDate year (snd week)) source (snd week))
                [1 ..< Suc count])"

definition rowLeads :: "nat \<Rightarrow> (nat \<times> string) list \<Rightarrow> string list \<Rightarrow> LeadInput list" where
  "rowLeads year weekColumns row =
     (let source = trim (cellAt row 0)
      in if source = [] \<or> isMetaRow source then []
         else concat (map (weekLeads year source row) weekColumns))"

definition firstCellHas :: "string \<Rightarrow> string list \<Rightarrow> bool" where
  "firstCellHas phrase row = (row \<noteq> [] \<and> includesStr (toLowerCase (row ! 0)) phrase)"

definition parseScorecardToLeads :: "nat \<Rightarrow> string \<Rightarrow> LeadInput list" where
  "parseScorecardToLeads year text =
     (let matrix = csvToMatrix text
      in if length matrix = 0 then []
         else (case (find (\<lambda>row. list_ex testWeek row) matrix,
                     findIndex (\<lambda>idx row. firstCellHas ''channel performance'' row) matrix) of
                 (Some headerRow, Some channelStart) \<Rightarrow>
                   (let weekColumns =
                          filter (\<lambda>x. testWeek (snd x)) (enumerate 0 (map trim headerRow))
                    in if length weekColumns = 0 then []
                       else (let end = findIndex (\<lambda>idx row. channelStart < idx
                                           \<and> firstCellHas ''brand & reputation'' row) matrix;
                                 channelRows =
                                   slice matrix (channelStart + 1)
                                     (case end of None \<Rightarrow> channelStart + 8 | Some e \<Rightarrow> e)
                             in concat (map (rowLeads year weekColumns) channelRows)))
               | _ \<Rightarrow> []))"

section \<open>Row mapper\<close>

text \<open>
  The result \<open>None\<close> of \<open>yesNo\<close>, of \<open>pick\<close> and of \<open>normalizeImportedLead\<close> stands
  for a \<open>TypeError\<close> that is thrown.

  \<open>value?.toLowerCase() === 'yes' ? 'Yes' : 'No'\<close>. The argument is typed as a string;
  at run time \<open>null\<close> gives \<open>'No'\<close>, and any other value that is not a string has no
  \<open>toLowerCase\<close> to call, which throws.
\<close>

definition yesNo :: "json \<Rightarrow> YesNo option" where
  "yesNo v =
     (case v of
        JString s \<Rightarrow> Some (if toLowerCase s = ''yes'' then Yes else No)
      | JNull \<Rightarrow> Some No
      | _ \<Rightarrow> None)"

text \<open>
  \<open>pick(...keys)\<close>: the value of the first key that the row has with a value other than
  \<open>undefined\<close> and \<open>''\<close>, and \<open>''\<close> when there is none. Reading a key of a row that is
  \<open>null\<close> throws.
\<close>

fun pick :: "row \<Rightarrow> string list \<Rightarrow> json option" where
  "pick r [] = Some (JString [])"
| "pick r (key # keys) =
     (if r = JNull then None
      else (case property r (normalizeHeader key) of
              Some v \<Rightarrow> if v \<noteq> JString [] then Some v else pick r keys
            | None \<Rightarrow> pick r keys))"

text \<open>\<open>a || b\<close>, on strings and on values.\<close>

definition orElse :: "string \<Rightarrow> string \<Rightarrow> string" where
  "orElse a b = (if a = [] then b else a)"

definition orValue :: "json \<Rightarrow> json \<Rightarrow> json" where
  "orValue a b = (if truthy a then a else b)"

definition categoryOf :: "json \<Rightarrow> ReplyTimeCategory" where
  "categoryOf rawCategory =
     (if rawCategory = JString ''7:00-3:30'' then Cat_7_00_3_30
      else if rawCategory = JString ''3:00-6:00'' then Cat_3_00_6_00
      else if rawCategory = JString ''After 6'' then After_6
      else if rawCategory = JString ''Weekend'' then Weekend
      else defaultReplyCategory)"

definition normalizeImportedLead :: "row \<Rightarrow> json LeadRecord option" where
  "normalizeImportedLead r =
     do {
       rawCategory \<leftarrow> pick r [''reply time category''];
       dateValue \<leftarrow> pick r [''date''];
       customerValue \<leftarrow> pick r [''customer'', ''name''];
       leadSourceValue \<leftarrow> pick r [''lead source'', ''source''];
       jobTypeValue \<leftarrow> pick r [''job type''];
       leadCostValue \<leftarrow> pick r [''lead cost'', ''cost''];
       jobWonRaw \<leftarrow> pick r [''job won'', ''sold''];
       jobWonValue \<leftarrow> yesNo (orValue jobWonRaw (JString ''No''));
       commentsValue \<leftarrow> pick r [''comments''];
       replyTimeMinutesValue \<leftarrow> pick r [''reply time minutes''];
       bookedRaw \<leftarrow> pick r [''booked''];
       bookedValue \<leftarrow> yesNo (orValue bookedRaw (JString ''No''));
       soldRaw \<leftarrow> pick r [''sold'', ''job won''];
       soldValue \<leftarrow> yesNo (orValue soldRaw (JString ''No''));
       cancelledRaw \<leftarrow> pick r [''cancelled'', ''canceled''];
       cancelledValue \<leftarrow> yesNo (orValue cancelledRaw (JString ''No''));
       soldAmountValue \<leftarrow> pick r [''sold amount''];
       revenueValue \<leftarrow> pick r [''revenue''];
       Some \<lparr> date = dateValue,
              customer = customerValue,
              leadSource = leadSourceValue,
              jobType = jobTypeValue,
              leadCost = orValue leadCostValue (JString ''$0''),
              jobWon = jobWonValue,
              comments = commentsValue,
              replyTimeCategory = categoryOf rawCategory,
              replyTimeMinutes = replyTimeMinutesValue,
              booked = bookedValue,
              sold = soldValue,
              cancelled = cancelledValue,
              soldAmount = orValue soldAmountValue (JString ''$0''),
              revenue = orValue revenueValue (JString ''$0''),
              replyTime = None \<rparr>
     }"

text \<open>
  The mapping of a row returns (it does not throw); the leads of those rows of a list
  whose mapping returns; and a row that is an object with string values only, as the
  tabular reader and the spreadsheet branch make them.
\<close>

definition returns :: "row \<Rightarrow> bool" where
  "returns r = (normalizeImportedLead r \<noteq> None)"

definition mappedLeads :: "row list \<Rightarrow> json LeadRecord list" where
  "mappedLeads rows = List.map_filter normalizeImportedLead rows"

definition stringValued :: "row \<Rightarrow> bool" where
  "stringValued r =
     (case r of
        JObject entries \<Rightarrow> list_all (\<lambda>(k, v). case v of JString s \<Rightarrow> True | _ \<Rightarrow> False) entries
      | _ \<Rightarrow> False)"

section \<open>Import and manual save\<close>

text \<open>
  The document store is an external collaborator; what the code sends to it is kept as
  the list of the documents passed to \<open>addDoc\<close>, in order, without the two server
  timestamps. A write is taken to succeed.

  \<open>JSON.parse\<close> and the spreadsheet reader are external too; their result on the file
  is a parameter: a failure (an exception), the value that \<open>JSON.parse\<close> gives, or the
  rows of \<open>sheet_to_json\<close>, each as the list of its entries, with the keys and the
  values as \<open>String(key)\<close> and \<open>String(value ?? '')\<close> give them. The result of the
  reader that the file name does not select stands for a failure.
\<close>

datatype parsed = ParseFails | Json json | Sheet "(string \<times> string) list list"

datatype ImportStatus = NoRowsFound | ImportedNothing | Imported nat string | ImportFailed

record ImportResult =
  writes :: "json LeadRecord list"
  importStatus :: ImportStatus
  scorecardAttempted :: bool

text \<open>A spreadsheet row: keys through \<open>normalizeHeader\<close>, values trimmed.\<close>

definition sheetRow :: "(string \<times> string) list \<Rightarrow> row" where
  "sheetRow entries =
     JObject (foldl (\<lambda>normalized (key, v). normalized @ [(normalizeHeader key, JString (trim v))])
                [] entries)"

text \<open>
  The rows of the file by its extension; \<open>None\<close> when reading it throws. The elements
  of a parsed JSON array are taken as they are.
\<close>

definition fileRows :: "parsed \<Rightarrow> string \<Rightarrow> string \<Rightarrow> row list option" where
  "fileRows external lowerName text =
     (if endsWith lowerName ''.json'' then
        (case external of
           Json (JArray rs) \<Rightarrow> Some rs
         | Json other \<Rightarrow> Some []
         | _ \<Rightarrow> None)
      else if endsWith lowerName ''.xlsx'' \<or> endsWith lowerName ''.xls'' then
        (case external of
           Sheet rs \<Rightarrow> Some (map sheetRow rs)
         | _ \<Rightarrow> None)
      else Some (csvToRows text))"

text \<open>What \<open>addDoc\<close> receives for a lead: \<open>{...lead, jobWon: lead.sold}\<close>.\<close>

definition written :: "'v LeadRecord \<Rightarrow> 'v LeadRecord" where
  "written lead = lead\<lparr>jobWon := sold lead\<rparr>"

text \<open>A typed lead as the document that holds its strings.\<close>

definition document :: "LeadInput \<Rightarrow> json LeadRecord" where
  "document lead =
     \<lparr> date = JString (date lead),
       customer = JString (customer lead),
       leadSource = JString (leadSource lead),
       jobType = JString (jobType lead),
       leadCost = JString (leadCost lead),
       jobWon = jobWon lead,
       comments = JString (comments lead),
       replyTimeCategory = replyTimeCategory lead,
       replyTimeMinutes = JString (replyTimeMinutes lead),
       booked = booked lead,
       sold = sold lead,
       cancelled = cancelled lead,
       soldAmount = JString (soldAmount lead),
       revenue = JString (revenue lead),
       replyTime = map_option JString (replyTime lead) \<rparr>"

text \<open>
  A mapped row is accepted when the test of the import loop,
  \<open>!lead.date || !lead.customer\<close>, fails.
\<close>

definition accepted :: "json LeadRecord \<Rightarrow> bool" where
  "accepted lead = (truthy (date lead) \<and> truthy (customer lead))"

text \<open>
  The loop over the rows, with the documents written so far and \<open>importedCount\<close>. A
  row whose mapping throws ends the loop: the count is \<open>None\<close> then, and the documents
  written before stay written.
\<close>

fun importLoop ::
  "row list \<Rightarrow> json LeadRecord list \<Rightarrow> nat \<Rightarrow> json LeadRecord list \<times> nat option" where
  "importLoop [] docs importedCount = (docs, Some importedCount)"
| "importLoop (r # rows) docs importedCount =
     (case normalizeImportedLead r of
        None \<Rightarrow> (docs, None)
      | Some lead \<Rightarrow>
          if \<not> truthy (date lead) \<or> \<not> truthy (customer lead)
          then importLoop rows docs importedCount
          else importLoop rows (docs @ [written lead]) (importedCount + 1))"

text \<open>
  \<open>handleFileImport\<close> for a signed-in user and a chosen file with the given name and
  text. \<open>scorecardAttempted\<close> records whether the call of \<open>parseScorecardToLeads\<close> is
  reached. An exception of the reader or of the row loop ends in the \<open>catch\<close>, which
  reports \<open>Import failed\<close>.
\<close>

definition handleFileImport :: "nat \<Rightarrow> parsed \<Rightarrow> string \<Rightarrow> string \<Rightarrow> ImportResult" where
  "handleFileImport year external name text =
     (let lowerName = toLowerCase name
      in case fileRows external lowerName text of
           None \<Rightarrow> \<lparr> writes = [], importStatus = ImportFailed, scorecardAttempted = False \<rparr>
         | Some rows \<Rightarrow>
             if length rows = 0
             then \<lparr> writes = [], importStatus = NoRowsFound, scorecardAttempted = False \<rparr>
             else (case importLoop rows [] 0 of
                     (docs, None) \<Rightarrow>
                       \<lparr> writes = docs, importStatus = ImportFailed, scorecardAttempted = False \<rparr>
                   | (docs, Some importedCount) \<Rightarrow>
                       (let fallback = (importedCount = 0
                                        \<and> (endsWith lowerName ''.csv'' \<or> endsWith lowerName ''.tsv''));
                            scorecardLeads = (if fallback then parseScorecardToLeads year text else []);
                            docs2 = docs @ map written (map document scorecardLeads);
                            importedCount2 = importedCount + length scorecardLeads
                        in \<lparr> writes = docs2,
                             importStatus = (if importedCount2 = 0 then ImportedNothing
                                             else Imported importedCount2 name),
                             scorecardAttempted = fallback \<rparr>)))"

text \<open>
  \<open>saveLead\<close>: nothing without a user; otherwise the form with \<open>jobWon\<close> set to its
  \<open>sold\<close> goes to \<open>updateDoc\<close> when a lead is being edited and to \<open>addDoc\<close> when not.
\<close>

datatype writeOp = AddDoc LeadInput | UpdateDoc string LeadInput

fun payload :: "writeOp \<Rightarrow> LeadInput" where
  "payload (AddDoc d) = d"
| "payload (UpdateDoc i d) = d"

definition saveLead :: "bool \<Rightarrow> LeadInput \<Rightarrow> string option \<Rightarrow> writeOp option" where
  "saveLead signedIn form editingId =
     (if \<not> signedIn then None
      else (let normalizedForm = form\<lparr>jobWon := sold form\<rparr>
            in case editingId of
                 None \<Rightarrow> Some (AddDoc normalizedForm)
               | Some i \<Rightarrow>
                   if i = [] then Some (AddDoc normalizedForm)
                   else Some (UpdateDoc i normalizedForm)))"

section \<open>Weekly source performance\<close>

text \<open>
  The sums kept for one lead source, which are also the numeric fields of the totals
  row. The counts are kept as natural numbers. (The fields \<open>leads\<close>, \<open>booked\<close>,
  \<open>sold\<close>, \<open>cancelled\<close>, \<open>soldAmount\<close> and \<open>revenue\<close> of the source carry the
  suffix \<open>_n\<close> here, since a lead has fields of the same names.)
\<close>

record Sums =
  spend :: jsnum
  leads_n :: nat
  booked_n :: nat
  sold_n :: nat
  cancelled_n :: nat
  soldAmount_n :: jsnum
  revenue_n :: jsnum

record SourceRow = Sums +
  source :: string
  cpl :: jsnum
  fiveXReturn :: jsnum

record Totals = Sums +
  avgReplyMins :: jsnum

record Weekly =
  rows :: "SourceRow list"
  totals :: Totals

definition zeroSums :: Sums where
  "zeroSums = \<lparr> spend = Num 0, leads_n = 0, booked_n = 0, sold_n = 0, cancelled_n = 0,
     soldAmount_n = Num 0, revenue_n = Num 0 \<rparr>"

definition zeroTotals :: Totals where
  "zeroTotals = \<lparr> spend = Num 0, leads_n = 0, booked_n = 0, sold_n = 0, cancelled_n = 0,
     soldAmount_n = Num 0, revenue_n = Num 0, avgReplyMins = Num 0 \<rparr>"

text \<open>
  The date of a lead, \<open>new Date(`${lead.date}T00:00:00`)\<close> read through
  \<open>getFullYear()\<close>, \<open>getMonth() + 1\<close> and \<open>getDate()\<close>, is a parameter
  \<open>parseDate\<close> of the model, with \<open>None\<close> for an invalid date: what the constructor
  accepts beyond the ISO format is left to the engine. \<open>isoDate\<close> is that parameter for
  an engine that accepts the calendar dates written \<open>YYYY-MM-DD\<close> and nothing else.
\<close>

definition isoDate :: "string \<Rightarrow> (nat \<times> nat \<times> nat) option" where
  "isoDate s =
     (case s of
        [y1, y2, y3, y4, d1, m1, m2, d2, t1, t2] \<Rightarrow>
          if list_all isDigit [y1, y2, y3, y4, m1, m2, t1, t2] \<and> d1 = CHR ''-'' \<and> d2 = CHR ''-''
          then (let y = digitsValue 10 [y1, y2, y3, y4];
                    m = digitsValue 10 [m1, m2];
                    d = digitsValue 10 [t1, t2]
                in if 1 \<le> m \<and> m \<le> 12 \<and> 1 \<le> d \<and> d \<le> daysInMonth y m then Some (y, m, d)
                   else None)
          else None
      | _ \<Rightarrow> None)"

text \<open>The filter of \<open>weekly\<close>: the lead's date is valid and lies in the selected window.\<close>

definition inWindow ::
  "(string \<Rightarrow> (nat \<times> nat \<times> nat) option) \<Rightarrow> jsnum \<Rightarrow> jsnum \<Rightarrow> jsnum \<Rightarrow> jsnum
     \<Rightarrow> 'a LeadInput_scheme \<Rightarrow> bool" where
  "inWindow parseDate year month startDay endDay lead =
     (case parseDate (date lead) of
        None \<Rightarrow> False
      | Some (y, m, day) \<Rightarrow>
          numOfNat y = year \<and> numOfNat m = month
          \<and> js_ge (numOfNat day) startDay \<and> js_ge endDay (numOfNat day))"

text \<open>
  The accumulator of the grouping is an object literal \<open>{}\<close>: its own properties, in
  insertion order, are the association list of the model. A key that is not an own
  property is still found on \<open>Object.prototype\<close> when it is one of the names below, and
  what is found there is truthy; then the test \<open>if (!acc[key])\<close> fails, no own property
  is made, and the sums of the lead are added to properties of the inherited object.
\<close>

definition objectPrototypeKeys :: "string list" where
  "objectPrototypeKeys =
     [''constructor'', ''hasOwnProperty'', ''isPrototypeOf'', ''propertyIsEnumerable'',
      ''toLocaleString'', ''toString'', ''valueOf'', ''__proto__'', ''__defineGetter__'',
      ''__defineSetter__'', ''__lookupGetter__'', ''__lookupSetter__'']"

definition addLead :: "Sums \<Rightarrow> 'a LeadInput_scheme \<Rightarrow> Sums" where
  "addLead g lead =
     \<lparr> spend = js_add (spend g) (parseMoney (leadCost lead)),
       leads_n = leads_n g + 1,
       booked_n = (if booked lead = Yes then booked_n g + 1 else booked_n g),
       sold_n = (if sold lead = Yes then sold_n g + 1 else sold_n g),
       cancelled_n = (if cancelled lead = Yes then cancelled_n g + 1 else cancelled_n g),
       soldAmount_n = js_add (soldAmount_n g) (parseMoney (soldAmount lead)),
       revenue_n = js_add (revenue_n g) (parseMoney (revenue lead)) \<rparr>"

definition groupStep :: "(string \<times> Sums) list \<Rightarrow> 'a LeadInput_scheme \<Rightarrow> (string \<times> Sums) list" where
  "groupStep acc lead =
     (let key = orElse (leadSource lead) ''Unknown''
      in case map_of acc key of
           Some g \<Rightarrow> map (\<lambda>(k, v). if k = key then (k, addLead v lead) else (k, v)) acc
         | None \<Rightarrow>
             if key \<in> set objectPrototypeKeys then acc
             else acc @ [(key, addLead zeroSums lead)])"

text \<open>
  \<open>Object.entries\<close>: the own properties whose keys are array indices first, in
  ascending order, then the others in insertion order.
\<close>

definition isArrayIndex :: "string \<Rightarrow> bool" where
  "isArrayIndex k =
     ((k = ''0'' \<or> (k \<noteq> [] \<and> list_all isDigit k \<and> hd k \<noteq> CHR ''0''))
      \<and> int (digitsValue 10 k) < 4294967295)"

definition entries :: "(string \<times> 'v) list \<Rightarrow> (string \<times> 'v) list" where
  "entries acc =
     sort_key (\<lambda>(k, v). digitsValue 10 k) (filter (\<lambda>(k, v). isArrayIndex k) acc)
     @ filter (\<lambda>(k, v). \<not> isArrayIndex k) acc"

definition sourceRow :: "string \<times> Sums \<Rightarrow> SourceRow" where
  "sourceRow e =
     (case e of (src, d) \<Rightarrow>
        \<lparr> spend = spend d, leads_n = leads_n d, booked_n = booked_n d, sold_n = sold_n d,
          cancelled_n = cancelled_n d, soldAmount_n = soldAmount_n d, revenue_n = revenue_n d,
          source = src,
          cpl = (if 0 < leads_n d then js_div (spend d) (numOfNat (leads_n d)) else Num 0),
          fiveXReturn = js_mul (spend d) (Num 5) \<rparr>)"

text \<open>
  \<open>.sort((a, b) => b.spend - a.spend)\<close>: a stable sort, descending by spend. A row goes
  after the rows before it whose spend is not smaller.
\<close>

definition js_gt :: "jsnum \<Rightarrow> jsnum \<Rightarrow> bool" where
  "js_gt a b = (js_ge a b \<and> a \<noteq> b)"

fun insertRow :: "SourceRow \<Rightarrow> SourceRow list \<Rightarrow> SourceRow list" where
  "insertRow r [] = [r]"
| "insertRow r (x # xs) = (if js_gt (spend r) (spend x) then r # x # xs else x # insertRow r xs)"

definition sortBySpend :: "SourceRow list \<Rightarrow> SourceRow list" where
  "sortBySpend xs = foldl (\<lambda>sorted r. insertRow r sorted) [] xs"

definition addRow :: "Totals \<Rightarrow> SourceRow \<Rightarrow> Totals" where
  "addRow acc r =
     acc\<lparr> spend := js_add (spend acc) (spend r),
          leads_n := leads_n acc + leads_n r,
          booked_n := booked_n acc + booked_n r,
          sold_n := sold_n acc + sold_n r,
          cancelled_n := cancelled_n acc + cancelled_n r,
          soldAmount_n := js_add (soldAmount_n acc) (soldAmount_n r),
          revenue_n := js_add (revenue_n acc) (revenue_n r) \<rparr>"

definition weekly ::
  "(string \<Rightarrow> (nat \<times> nat \<times> nat) option) \<Rightarrow> 'a LeadInput_scheme list \<Rightarrow> string \<Rightarrow> string
     \<Rightarrow> Weekly" where
  "weekly parseDate allLeads selectedMonth selectedWeek =
     (let monthParts = splitOn (CHR ''-'') selectedMonth;
          weekParts = splitOn (CHR ''-'') selectedWeek;
          year = numberAt monthParts 0;
          month = numberAt monthParts 1;
          startDay = numberAt weekParts 0;
          endDay = numberAt weekParts 1
      in if falsy year \<or> falsy month \<or> falsy startDay \<or> falsy endDay
         then \<lparr> rows = [], totals = zeroTotals \<rparr>
         else (let filtered = filter (inWindow parseDate year month startDay endDay) allLeads;
                   grouped = foldl groupStep [] filtered;
                   sorted = sortBySpend (map sourceRow (entries grouped));
                   summed = foldl addRow zeroTotals sorted
               in \<lparr> rows = sorted,
                    totals = summed\<lparr> avgReplyMins := averageOf (replyTimesOf filtered) \<rparr> \<rparr>))"

section \<open>Example inputs\<close>

text \<open>
  A scorecard file: the header row \<open>Channel, JAN: 6, JAN: 13\<close>, the section start
  \<open>Channel Performance\<close>, one channel row \<open>Yelp, 3, 0\<close> and the section end
  \<open>Brand & Reputation\<close>.
\<close>

definition scorecardText :: string where
  "scorecardText = ''Channel,JAN: 6,JAN: 13'' @ [LF] @ ''Channel Performance'' @ [LF]
      @ ''Yelp,3,0'' @ [LF] @ ''Brand & Reputation''"

text \<open>
  A file of three data rows under the headers \<open>Date, Name, Sold, Job Won\<close>: a complete
  row, whose \<open>Sold\<close> is \<open>no\<close> and whose \<open>Job Won\<close> is \<open>YES\<close>, a row without a date
  and a row without a customer.
\<close>

definition leadsText :: string where
  "leadsText = ''Date,Name,Sold,Job Won'' @ [LF] @ ''2024-01-02,Bob,no,YES'' @ [LF]
      @ '',Al,yes,yes'' @ [LF] @ ''2024-01-03,,yes,yes''"

text \<open>
  Three small files: one with quoted cells (a comma and a doubled quote inside quotes),
  one whose first line has a tab between quoted cells, and one whose first line has a tab
  only at its end.
\<close>

definition quotedText :: string where
  "quotedText = ''x,'' @ [DQUOTE] @ ''a, b'' @ [DQUOTE, DQUOTE] @ ''c'' @ [DQUOTE] @ [LF]
      @ [DQUOTE] @ ''1,2'' @ [DQUOTE]"

definition tabbedText :: string where
  "tabbedText =
     [CHR ''x'', TAB, DQUOTE, CHR ''a'', TAB, CHR ''b'', DQUOTE, LF, CHR ''1'', CHR '','', CHR ''2'']"

definition trailingTabText :: string where
  "trailingTabText = [CHR ''a'', TAB, LF, CHR ''b'', TAB, CHR ''c'']"

text \<open>
  A row of a JSON file with a date, a customer and a value for \<open>sold\<close>, and the
  document of a row that has a date, a customer and nothing else but what gives the two
  flags \<open>jobWon\<close> and \<open>sold\<close>.
\<close>

definition jsonLead :: "string \<Rightarrow> string \<Rightarrow> json \<Rightarrow> json" where
  "jsonLead d c s = JObject [(''date'', JString d), (''customer'', JString c), (''sold'', s)]"

definition importedDocument :: "string \<Rightarrow> string \<Rightarrow> YesNo \<Rightarrow> json LeadRecord" where
  "importedDocument d c s =
     \<lparr> date = JString d, customer = JString c, leadSource = JString [], jobType = JString [],
       leadCost = JString ''$0'', jobWon = s, comments = JString [],
       replyTimeCategory = Cat_7_00_3_30, replyTimeMinutes = JString [], booked = No, sold = s,
       cancelled = No, soldAmount = JString ''$0'', revenue = JString ''$0'', replyTime = None \<rparr>"

text \<open>
  A lead of 3 April 2024 that cost \<open>$50\<close> and was booked, whose lead source is the
  word \<open>constructor\<close>.
\<close>

definition inheritedKeyLead :: LeadInput where
  "inheritedKeyLead =
     emptyLead\<lparr> date := ''2024-04-03'', customer := ''Ann'', leadSource := ''constructor'',
                leadCost := ''$50'', booked := Yes \<rparr>"

section \<open>Properties\<close>

subsection \<open>Binary64 rounding\<close>

lemma bitLength_0: "bitLength 0 = 0" by (simp add: bitLength.simps)
lemma bitLength_pos: "0 < n \<Longrightarrow> bitLength n = Suc (bitLength (n div 2))"
  by (subst bitLength.simps) simp

lemma floor_rat_numeral:
  "\<lfloor>(numeral a / numeral b :: rat)\<rfloor> = numeral a div numeral b"
  using floor_divide_of_int_eq [of "numeral a" "numeral b", where ?'a = rat] by simp

lemma floor_rat_unit: "\<lfloor>(1 / numeral b :: rat)\<rfloor> = 1 div numeral b"
  using floor_divide_of_int_eq [of 1 "numeral b", where ?'a = rat] by simp

lemmas double_eval = floor_rat_numeral floor_rat_unit toDouble_def roundMagnitude_def roundHalfEven_def ilog2_def pow2_def
  bitLength_0 bitLength_pos Let_def

lemma bitLength_le: "n < 2 ^ k \<Longrightarrow> bitLength n \<le> k"
proof (induction k arbitrary: n)
  case 0
  then show ?case by (simp add: bitLength_0)
next
  case (Suc k)
  show ?case
  proof (cases "n = 0")
    case True
    then show ?thesis by (simp add: bitLength_0)
  next
    case False
    have "n div 2 < 2 ^ k" using Suc.prems by auto
    from Suc.IH [OF this] show ?thesis using False by (simp add: bitLength_pos)
  qed
qed

lemma bitLength_gt: "n < 2 ^ bitLength n"
proof (induction n rule: bitLength.induct)
  case (1 n)
  show ?case
  proof (cases "n = 0")
    case True
    then show ?thesis by (simp add: bitLength_0)
  next
    case False
    from 1 [OF False] have "n div 2 < 2 ^ bitLength (n div 2)" .
    then have "n < 2 * 2 ^ bitLength (n div 2)" by linarith
    then show ?thesis using False by (simp add: bitLength_pos)
  qed
qed

lemma bitLength_ge: "0 < n \<Longrightarrow> 2 ^ (bitLength n - 1) \<le> n"
proof (induction n rule: bitLength.induct)
  case (1 n)
  then have n: "n \<noteq> 0" by simp
  have b: "bitLength n - 1 = bitLength (n div 2)" using n by (simp add: bitLength_pos)
  show ?case
  proof (cases "n div 2 = 0")
    case True
    then show ?thesis using n b by (simp add: bitLength_0)
  next
    case False
    then have p: "0 < n div 2" by simp
    from 1(1) [OF n p] have ih: "2 ^ (bitLength (n div 2) - 1) \<le> n div 2" .
    have "bitLength (n div 2) = Suc (bitLength (n div 2) - 1)"
      using p by (simp add: bitLength_pos)
    then have "(2::nat) ^ bitLength (n div 2) = 2 * 2 ^ (bitLength (n div 2) - 1)"
      by (metis power_Suc)
    then have "(2::nat) ^ bitLength (n div 2) \<le> n" using ih by linarith
    then show ?thesis using b by simp
  qed
qed

lemma pow2_pos: "0 < pow2 k"
  by (simp add: pow2_def)

lemma pow2_nonpos: "k \<le> 0 \<Longrightarrow> pow2 k = 1 / 2 ^ nat (- k)"
  by (cases "k = 0") (simp_all add: pow2_def)

lemma pow2_mono: "j \<le> k \<Longrightarrow> pow2 j \<le> pow2 k"
proof -
  assume jk: "j \<le> k"
  have m: "\<And>a b :: nat. a \<le> b \<Longrightarrow> (2::rat) ^ a \<le> 2 ^ b" by simp
  show ?thesis
  proof (cases "0 \<le> j")
    case True
    then show ?thesis using jk by (simp add: pow2_def)
  next
    case False
    note j = this
    show ?thesis
    proof (cases "0 \<le> k")
      case True
      have "1 / 2 ^ nat (- j) \<le> (1::rat)" by simp
      also have "\<dots> \<le> 2 ^ nat k" by simp
      finally show ?thesis using j True by (simp add: pow2_def)
    next
      case False
      have "(2::rat) ^ nat (- k) \<le> 2 ^ nat (- j)" using jk by simp
      then have "1 / 2 ^ nat (- j) \<le> 1 / (2::rat) ^ nat (- k)"
        by (simp add: frac_le)
      then show ?thesis using j False by (simp add: pow2_def)
    qed
  qed
qed

text \<open>\<open>ilog2 x\<close> is the binary exponent of a positive \<open>x\<close> (with \<open>ilog2_upper\<close> below).\<close>

lemma ilog2_lower:
  assumes "0 < x"
  shows "pow2 (ilog2 x) \<le> x"
proof (cases "1 \<le> x")
  case True
  define n where "n = nat \<lfloor>x\<rfloor>"
  have n1: "0 < n" using True by (simp add: n_def)
  have e: "ilog2 x = int (bitLength n - 1)"
    using True n1 by (simp add: ilog2_def n_def bitLength_pos)
  have "(2::rat) ^ (bitLength n - 1) = of_nat (2 ^ (bitLength n - 1))" by simp
  also have "\<dots> \<le> of_nat n" using bitLength_ge [OF n1] by (simp only: of_nat_le_iff)
  also have "\<dots> \<le> x" using True by (simp add: n_def)
  finally show ?thesis by (simp add: e pow2_def)
next
  case False
  define y where "y = 1 / x"
  define m where "m = nat (if of_int \<lfloor>y\<rfloor> = y then \<lfloor>y\<rfloor> - 1 else \<lfloor>y\<rfloor>)"
  have y1: "1 < y" using assms False by (simp add: y_def)
  have e: "ilog2 x = - int (bitLength m)"
    using False by (simp add: ilog2_def m_def y_def)
  have ym: "y \<le> of_nat m + 1"
  proof (cases "of_int \<lfloor>y\<rfloor> = y")
    case True
    then have "of_nat m = y - 1" using y1 by (simp add: m_def)
    then show ?thesis by simp
  next
    case False
    then have "of_nat m = (of_int \<lfloor>y\<rfloor> :: rat)" using y1 by (simp add: m_def)
    then show ?thesis by linarith
  qed
  have "of_nat m + 1 = (of_nat (Suc m) :: rat)" by simp
  also have "\<dots> \<le> of_nat (2 ^ bitLength m)"
    using bitLength_gt [of m] by (simp only: of_nat_le_iff Suc_le_eq)
  finally have "y \<le> 2 ^ bitLength m" using ym by simp
  then have "1 / 2 ^ bitLength m \<le> x"
    using assms by (simp add: y_def field_simps)
  then show ?thesis by (simp add: e pow2_nonpos)
qed

lemma roundHalfEven_of_int: "roundHalfEven (of_int z) = z"
  by (simp add: roundHalfEven_def)

lemma roundHalfEven_le: "r \<le> of_int z \<Longrightarrow> roundHalfEven r \<le> z"
proof -
  assume a: "r \<le> of_int z"
  show ?thesis
  proof (cases "r = of_int z")
    case True
    then show ?thesis by (simp add: roundHalfEven_of_int)
  next
    case False
    then have "r < of_int z" using a by simp
    then have "\<lfloor>r\<rfloor> < z" by (simp add: floor_less_iff)
    then show ?thesis by (simp add: roundHalfEven_def Let_def)
  qed
qed

lemma roundHalfEven_ge: "of_int z \<le> r \<Longrightarrow> z \<le> roundHalfEven r"
proof -
  assume a: "of_int z \<le> r"
  then have "z \<le> \<lfloor>r\<rfloor>" by (simp add: le_floor_iff)
  then show ?thesis by (simp add: roundHalfEven_def Let_def)
qed

text \<open>Rounding keeps a value below a bound that is a multiple of every quantum in reach.\<close>

lemma roundMagnitude_bounds:
  assumes x: "0 < x" and b: "x \<le> of_nat b" and small: "b < 2 ^ 53"
  shows "0 \<le> roundMagnitude x \<and> roundMagnitude x \<le> of_nat b"
proof -
  define k where "k = max (ilog2 x) (- 1022) - 52"
  have "pow2 (ilog2 x) \<le> x" by (rule ilog2_lower [OF x])
  also have "x \<le> of_nat b" by (rule b)
  also have "(of_nat b :: rat) < of_nat (2 ^ 53)" using small by (simp only: of_nat_less_iff)
  finally have lt: "pow2 (ilog2 x) < pow2 53" by (simp add: pow2_def)
  have "ilog2 x < 53"
  proof (rule ccontr)
    assume "\<not> ilog2 x < 53"
    then have "pow2 53 \<le> pow2 (ilog2 x)" by (intro pow2_mono) simp
    then show False using lt by simp
  qed
  then have k0: "k \<le> 0" by (simp add: k_def)
  define j where "j = nat (- k)"
  have q: "pow2 k = 1 / 2 ^ j" using k0 by (simp add: pow2_nonpos j_def)
  have r: "roundMagnitude x = of_int (roundHalfEven (x * 2 ^ j)) / 2 ^ j"
    by (simp add: roundMagnitude_def k_def [symmetric] q)
  have "x * 2 ^ j \<le> of_nat b * 2 ^ j" using b by simp
  also have "\<dots> = of_int (int b * 2 ^ j)" by simp
  finally have "roundHalfEven (x * 2 ^ j) \<le> int b * 2 ^ j" by (rule roundHalfEven_le)
  then have "(of_int (roundHalfEven (x * 2 ^ j)) :: rat) \<le> of_int (int b * 2 ^ j)"
    by (simp only: of_int_le_iff)
  then have up: "of_int (roundHalfEven (x * 2 ^ j)) / 2 ^ j \<le> (of_nat b :: rat)"
    by (simp add: field_simps)
  have "of_int 0 \<le> x * 2 ^ j" using x by simp
  then have "0 \<le> roundHalfEven (x * 2 ^ j)" by (rule roundHalfEven_ge)
  then have lo: "0 \<le> (of_int (roundHalfEven (x * 2 ^ j)) :: rat) / 2 ^ j" by simp
  show ?thesis using up lo by (simp add: r)
qed

lemma toDouble_bounds:
  assumes x: "0 \<le> x" and b: "x \<le> of_nat b" and small: "b < 2 ^ 53"
  shows "\<exists>y. toDouble x = Num y \<and> 0 \<le> y \<and> y \<le> of_nat b"
proof (cases "x = 0")
  case True
  then show ?thesis by (simp add: toDouble_def)
next
  case False
  then have p: "0 < x" using x by simp
  from roundMagnitude_bounds [OF p b small]
  have r: "0 \<le> roundMagnitude x" "roundMagnitude x \<le> of_nat b" by simp_all
  have "(of_nat b :: rat) < of_nat (2 ^ 53)" using small by (simp only: of_nat_less_iff)
  also have "\<dots> \<le> 2 ^ 1024" by simp
  finally have "roundMagnitude x < 2 ^ 1024" using r(2) by simp
  then show ?thesis using p r by (simp add: toDouble_def Let_def)
qed

lemma roundMagnitude_of_nat:
  assumes n: "0 < n" and small: "n < 2 ^ 53"
  shows "roundMagnitude (of_nat n) = of_nat n"
proof -
  have lo: "of_int (int n) \<le> (of_nat n :: rat)" by simp
  from roundMagnitude_bounds [of "of_nat n" n] n small
  have up: "roundMagnitude (of_nat n) \<le> of_nat n" by simp
  define k where "k = max (ilog2 (of_nat n)) (- 1022) - 52"
  have "pow2 (ilog2 (of_nat n)) \<le> of_nat n" using n by (intro ilog2_lower) simp
  also have "(of_nat n :: rat) < of_nat (2 ^ 53)" using small by (simp only: of_nat_less_iff)
  finally have lt: "pow2 (ilog2 (of_nat n)) < pow2 53" by (simp add: pow2_def)
  have "ilog2 (of_nat n) < 53"
  proof (rule ccontr)
    assume "\<not> ilog2 (of_nat n) < 53"
    then have "pow2 53 \<le> pow2 (ilog2 (of_nat n))" by (intro pow2_mono) simp
    then show False using lt by simp
  qed
  then have k0: "k \<le> 0" by (simp add: k_def)
  define j where "j = nat (- k)"
  have q: "pow2 k = 1 / 2 ^ j" using k0 by (simp add: pow2_nonpos j_def)
  have "of_nat n * 2 ^ j = (of_int (int n * 2 ^ j) :: rat)" by simp
  then have "roundHalfEven (of_nat n * 2 ^ j) = int n * 2 ^ j"
    by (simp only: roundHalfEven_of_int)
  then show ?thesis by (simp add: roundMagnitude_def k_def [symmetric] q)
qed

lemma toDouble_of_nat: "n < 2 ^ 53 \<Longrightarrow> toDouble (of_nat n) = Num (of_nat n)"
proof (cases "n = 0")
  case True
  then show ?thesis by (simp add: toDouble_def)
next
  case False
  assume small: "n < 2 ^ 53"
  have r: "roundMagnitude (of_nat n) = of_nat n"
    using False small by (intro roundMagnitude_of_nat) simp_all
  have "(of_nat n :: rat) < of_nat (2 ^ 53)" using small by (simp only: of_nat_less_iff)
  also have "\<dots> \<le> 2 ^ 1024" by simp
  finally show ?thesis using False by (simp add: toDouble_def r)
qed

lemma toDouble_numeral: "numeral k < (2::nat) ^ 53 \<Longrightarrow> toDouble (numeral k) = Num (numeral k)"
  using toDouble_of_nat [of "numeral k"] by simp

lemma toDouble_0: "toDouble 0 = Num 0"
  by (simp add: toDouble_def)

lemma toDouble_1: "toDouble 1 = Num 1"
  using toDouble_of_nat [of 1] by simp

lemmas double_whole = toDouble_numeral toDouble_0 toDouble_1

lemma toDouble_minus: "toDouble (- x) = js_neg (toDouble x)"
  by (simp add: toDouble_def js_neg_def Let_def)

lemma ilog2_upper:
  assumes "0 < x"
  shows "x < pow2 (ilog2 x + 1)"
proof (cases "1 \<le> x")
  case True
  define n where "n = nat \<lfloor>x\<rfloor>"
  have n1: "0 < n" using True by (simp add: n_def)
  have e: "ilog2 x + 1 = int (bitLength n)"
    using True by (simp add: ilog2_def n_def)
  have "x < of_int \<lfloor>x\<rfloor> + 1" by linarith
  also have "\<dots> = of_nat (Suc n)" using True by (simp add: n_def)
  also have "\<dots> \<le> of_nat (2 ^ bitLength n)"
    using bitLength_gt [of n] by (simp only: of_nat_le_iff Suc_le_eq)
  finally show ?thesis by (simp add: e pow2_def)
next
  case False
  define y where "y = 1 / x"
  define m where "m = nat (if of_int \<lfloor>y\<rfloor> = y then \<lfloor>y\<rfloor> - 1 else \<lfloor>y\<rfloor>)"
  have y1: "1 < y" using assms False by (simp add: y_def)
  have f1: "1 \<le> \<lfloor>y\<rfloor>" using y1 by (simp add: le_floor_iff)
  have e: "ilog2 x + 1 = 1 - int (bitLength m)"
    using False by (simp add: ilog2_def m_def y_def)
  have my: "of_nat m < y \<and> 0 < m"
  proof (cases "of_int \<lfloor>y\<rfloor> = y")
    case True
    then have "1 < \<lfloor>y\<rfloor>" using y1 by (metis of_int_1_less_iff)
    then have "0 < m" using True by (simp add: m_def)
    moreover have "of_nat m = y - 1" using True f1 by (simp add: m_def)
    ultimately show ?thesis by simp
  next
    case False
    then have "(of_nat m :: rat) = of_int \<lfloor>y\<rfloor>" using f1 by (simp add: m_def)
    moreover have "of_int \<lfloor>y\<rfloor> < y" using False by (metis of_int_floor_le order_less_le)
    moreover have "0 < m" using False f1 by (simp add: m_def)
    ultimately show ?thesis by simp
  qed
  then have m0: "0 < m" and lt: "of_nat m < y" by simp_all
  have "(2::rat) ^ (bitLength m - 1) = of_nat (2 ^ (bitLength m - 1))" by simp
  also have "\<dots> \<le> of_nat m" using bitLength_ge [OF m0] by (simp only: of_nat_le_iff)
  also note lt
  finally have "2 ^ (bitLength m - 1) < y" .
  then have x: "x < 1 / 2 ^ (bitLength m - 1)"
    using assms by (simp add: y_def field_simps)
  have b1: "0 < bitLength m" using m0 by (simp add: bitLength_pos)
  then have "nat (- (1 - int (bitLength m))) = bitLength m - 1" by simp
  moreover have "1 - int (bitLength m) \<le> 0" using b1 by simp
  ultimately show ?thesis using x by (simp add: e pow2_nonpos)
qed

lemma roundHalfEven_nearest: "\<bar>of_int (roundHalfEven r) - r\<bar> \<le> 1 / 2"
proof -
  have "of_int \<lfloor>r\<rfloor> \<le> r" "r < of_int \<lfloor>r\<rfloor> + 1" by linarith+
  then show ?thesis by (auto simp: roundHalfEven_def Let_def abs_le_iff)
qed

text \<open>
  The rounded magnitude is a multiple of the quantum of its binade, at most half a
  quantum away.
\<close>

lemma roundMagnitude_nearest:
  "\<bar>roundMagnitude x - x\<bar> \<le> pow2 (max (ilog2 x) (- 1022) - 52) / 2"
proof -
  define q where "q = pow2 (max (ilog2 x) (- 1022) - 52)"
  define z where "z = (of_int (roundHalfEven (x / q)) :: rat)"
  have q: "0 < q" unfolding q_def by (rule pow2_pos)
  have "roundMagnitude x - x = (z - x / q) * q"
    using q by (simp add: roundMagnitude_def q_def [symmetric] z_def left_diff_distrib)
  then have "\<bar>roundMagnitude x - x\<bar> = \<bar>z - x / q\<bar> * q"
    using q by (simp add: abs_mult)
  also have "\<dots> \<le> 1 / 2 * q"
    using roundHalfEven_nearest [of "x / q"] q unfolding z_def by (intro mult_right_mono) simp_all
  finally show ?thesis by (simp add: q_def)
qed

subsection \<open>Money and reply minutes\<close>

lemmas number_eval = isDigit_def isSpace_def trim_def trimStart_def trimEnd_def
  toNumber_def nonDecimal_def unsignedDecimal_def exponentPart_def digitsValue_def digitVal_def
  double_whole pow10_def isFinite_def js_neg_def Let_def

lemma toDouble_half: "toDouble (2469 / 2) = Num (2469 / 2)"
  by (simp add: double_eval)

text \<open>
  Claim C6. \<open>parseMoney\<close> depends only on the digits, dots and minus signs of its
  argument: it is the number that \<open>Number\<close> reads in what is left of the argument once
  every other character is removed, when that number is finite, and \<open>0\<close> when it is not.
  So its result is always a finite number; it can be negative.
  \<open>parseMoney("$15") = 15\<close>, \<open>parseMoney("$0") = 0\<close>, \<open>parseMoney("abc") = 0\<close>.
\<close>

theorem parseMoney_finite:
  "parseMoney s = parseMoney (filter (\<lambda>c. isDigit c \<or> c = CHR ''.'' \<or> c = CHR ''-'') s)
   \<and> parseMoney s =
       (case toNumber (filter (\<lambda>c. isDigit c \<or> c = CHR ''.'' \<or> c = CHR ''-'') s) of
          Num r \<Rightarrow> Num r | _ \<Rightarrow> Num 0)
   \<and> (\<exists>r. parseMoney s = Num r)
   \<and> parseMoney ''$15'' = Num 15 \<and> parseMoney ''$0'' = Num 0 \<and> parseMoney ''abc'' = Num 0
   \<and> parseMoney ''-$1,234.50'' = Num (- 1234.5) \<and> parseMoney ''1-2'' = Num 0"
proof -
  have strip: "parseMoney s = parseMoney (filter (\<lambda>c. isDigit c \<or> c = CHR ''.'' \<or> c = CHR ''-'') s)"
    by (simp add: parseMoney_def)
  have coerce: "parseMoney s =
       (case toNumber (filter (\<lambda>c. isDigit c \<or> c = CHR ''.'' \<or> c = CHR ''-'') s) of
          Num r \<Rightarrow> Num r | _ \<Rightarrow> Num 0)"
    by (cases "toNumber (filter (\<lambda>c. isDigit c \<or> c = CHR ''.'' \<or> c = CHR ''-'') s)")
       (simp_all add: parseMoney_def isFinite_def)
  have fin: "\<exists>r. parseMoney s = Num r"
    by (cases "toNumber (filter (\<lambda>c. isDigit c \<or> c = CHR ''.'' \<or> c = CHR ''-'') s)")
       (simp_all add: parseMoney_def isFinite_def)
  have e1: "parseMoney ''$15'' = Num 15" by (simp add: parseMoney_def number_eval)
  have e2: "parseMoney ''$0'' = Num 0" by (simp add: parseMoney_def number_eval)
  have e3: "parseMoney ''abc'' = Num 0" by (simp add: parseMoney_def number_eval)
  have e4: "parseMoney ''-$1,234.50'' = Num (- 1234.5)"
    by (simp add: parseMoney_def number_eval toDouble_half)
  have e5: "parseMoney ''1-2'' = Num 0" by (simp add: parseMoney_def number_eval)
  from strip coerce fin e1 e2 e3 e4 e5 show ?thesis by blast
qed

text \<open>
  Claim C1, at the inputs where the code departs from it. A lead whose
  \<open>replyTimeMinutes\<close> is the empty string resolves to \<open>0\<close> minutes, whatever its
  legacy \<open>replyTime\<close> is (absent, empty or \<open>"(Weekend): 214"\<close>): \<open>Number('')\<close> is
  \<open>0\<close>, which is finite and not negative, so the legacy field is never consulted and
  the lead counts as zero in every average.
\<close>

theorem getReplyMinutes_empty_minutes:
  "getReplyMinutes (l\<lparr>replyTimeMinutes := [], replyTime := rt\<rparr>) = Some (Num 0)"
  by (simp add: getReplyMinutes_def number_eval)

text \<open>
  The rest of the resolution is as claim C1 says: a \<open>replyTimeMinutes\<close> that parses to a
  finite number that is not negative wins over any legacy \<open>replyTime\<close>; one that does not
  gives the first run of digits of a non-empty \<open>replyTime\<close>, and no value without one.
\<close>

lemma getReplyMinutes_resolution:
  "getReplyMinutes (l\<lparr>replyTimeMinutes := ''25'', replyTime := rt\<rparr>) = Some (Num 25)"
  "getReplyMinutes (l\<lparr>replyTimeMinutes := ''n/a'', replyTime := Some ''(Weekend): 214''\<rparr>)
     = Some (Num 214)"
  "getReplyMinutes (l\<lparr>replyTimeMinutes := ''-5'', replyTime := Some ''soon''\<rparr>) = None"
  "getReplyMinutes (l\<lparr>replyTimeMinutes := ''n/a'', replyTime := None\<rparr>) = None"
  by (simp_all add: getReplyMinutes_def matchDigits_def number_eval)

subsection \<open>Global KPIs\<close>

lemma winRate_sample:
  "winRate (stats (replicate w (emptyLead\<lparr>jobWon := Yes\<rparr>) @ replicate n emptyLead))
     = (if w + n = 0 then Num 0
        else js_mul (js_div (Num (of_nat w)) (Num (of_nat (w + n)))) (Num 100))"
  by (simp add: stats_def Let_def numOfNat_def emptyLead_def)

text \<open>
  Claim C9. \<open>totalLeads\<close> is the number of leads, \<open>wonLeads\<close> the number of leads
  with \<open>jobWon = "Yes"\<close>, and \<open>winRate\<close> is \<open>0\<close> when there are no leads and
  \<open>wonLeads / totalLeads * 100\<close> otherwise, in binary64 arithmetic: the quotient is
  rounded, and its product with \<open>100\<close> is rounded again. The rate is always a finite
  number from \<open>0\<close> to \<open>100\<close>. One lead won of two gives \<open>50\<close>, three of three
  \<open>100\<close>, none of two \<open>0\<close>; 7 of 25 give \<open>28.000000000000004\<close> (\<open>28 + 2^-48\<close>),
  since the quotient is rounded up to \<open>5044031582654956 / 2^54\<close>.
\<close>

theorem stats_winRate:
  "totalLeads (stats leads) = length leads
   \<and> wonLeads (stats leads) = length (filter (\<lambda>l. jobWon l = Yes) leads)
   \<and> winRate (stats leads) =
       (if totalLeads (stats leads) = 0 then Num 0
        else js_mul (js_div (numOfNat (wonLeads (stats leads))) (numOfNat (totalLeads (stats leads))))
               (Num 100))
   \<and> winRate (stats leads) =
       (if totalLeads (stats leads) = 0 then Num 0
        else toDouble (numVal (toDouble (of_nat (wonLeads (stats leads))
                                          / of_nat (totalLeads (stats leads)))) * 100))
   \<and> (\<exists>r. winRate (stats leads) = Num r \<and> 0 \<le> r \<and> r \<le> 100)
   \<and> winRate (stats (replicate 1 (emptyLead\<lparr>jobWon := Yes\<rparr>) @ replicate 1 emptyLead)) = Num 50
   \<and> winRate (stats (replicate 3 (emptyLead\<lparr>jobWon := Yes\<rparr>) @ replicate 0 emptyLead)) = Num 100
   \<and> winRate (stats (replicate 0 (emptyLead\<lparr>jobWon := Yes\<rparr>) @ replicate 2 emptyLead)) = Num 0
   \<and> js_div (Num 7) (Num 25) = Num (5044031582654956 / 2 ^ 54)
   \<and> winRate (stats (replicate 7 (emptyLead\<lparr>jobWon := Yes\<rparr>) @ replicate 18 emptyLead))
       = Num (28 + 1 / 2 ^ 48)"
proof -
  let ?w = "length (filter (\<lambda>l. jobWon l = Yes) leads)"
  let ?t = "length leads"
  let ?rate = "js_mul (js_div (numOfNat ?w) (numOfNat ?t)) (Num 100)"
  have total: "totalLeads (stats leads) = ?t" by (simp add: stats_def Let_def)
  have won: "wonLeads (stats leads) = ?w" by (simp add: stats_def Let_def)
  have rate: "winRate (stats leads) = (if ?t = 0 then Num 0 else ?rate)"
    by (simp add: stats_def Let_def)
  have le: "?w \<le> ?t" by simp
  have pos: "\<exists>q r. toDouble (of_nat ?w / of_nat ?t) = Num q \<and> ?rate = toDouble (q * 100)
      \<and> ?rate = Num r \<and> 0 \<le> r \<and> r \<le> 100" if t: "0 < ?t"
  proof -
    have q0: "(0::rat) \<le> of_nat ?w / of_nat ?t" by simp
    have q1: "(of_nat ?w :: rat) / of_nat ?t \<le> of_nat 1"
      using le t by (simp add: divide_le_eq_1)
    from toDouble_bounds [OF q0 q1] obtain q
      where q: "toDouble (of_nat ?w / of_nat ?t) = Num q" "0 \<le> q" "q \<le> 1" by auto
    have ne: "(of_nat ?t :: rat) \<noteq> 0" using t by simp
    have d: "js_div (numOfNat ?w) (numOfNat ?t) = Num q"
      unfolding numOfNat_def js_div.simps using ne q(1) by simp
    have m: "?rate = toDouble (q * 100)" unfolding d by simp
    have p0: "0 \<le> q * 100" using q(2) by simp
    have p1: "q * 100 \<le> of_nat 100" using q(3) by simp
    from toDouble_bounds [OF p0 p1] obtain r
      where r: "toDouble (q * 100) = Num r" "0 \<le> r" "r \<le> 100" by auto
    show ?thesis using q(1) m r by auto
  qed
  have two: "winRate (stats leads) =
       (if ?t = 0 then Num 0 else toDouble (numVal (toDouble (of_nat ?w / of_nat ?t)) * 100))"
  proof (cases "?t = 0")
    case True
    then show ?thesis by (simp add: rate del: length_0_conv)
  next
    case False
    then have "0 < ?t" by simp
    from pos [OF this] obtain q where "toDouble (of_nat ?w / of_nat ?t) = Num q"
      "?rate = toDouble (q * 100)" by auto
    then show ?thesis using False by (simp add: rate numVal_def)
  qed
  have bound: "\<exists>r. winRate (stats leads) = Num r \<and> 0 \<le> r \<and> r \<le> 100"
  proof (cases "?t = 0")
    case True
    then show ?thesis by (simp add: rate del: length_0_conv)
  next
    case False
    then have "0 < ?t" by simp
    from pos [OF this] obtain r where "?rate = Num r" "0 \<le> r" "r \<le> 100" by auto
    then show ?thesis using False by (simp add: rate)
  qed
  have e1: "winRate (stats (replicate 1 (emptyLead\<lparr>jobWon := Yes\<rparr>) @ replicate 1 emptyLead))
      = Num 50"
    unfolding winRate_sample by (simp add: double_eval)
  have e2: "winRate (stats (replicate 3 (emptyLead\<lparr>jobWon := Yes\<rparr>) @ replicate 0 emptyLead))
      = Num 100"
    unfolding winRate_sample by (simp add: double_eval)
  have e3: "winRate (stats (replicate 0 (emptyLead\<lparr>jobWon := Yes\<rparr>) @ replicate 2 emptyLead))
      = Num 0"
    unfolding winRate_sample by (simp add: double_eval)
  have e4: "js_div (Num 7) (Num 25) = Num (5044031582654956 / 2 ^ 54)"
    by (simp add: double_eval)
  have e5: "winRate (stats (replicate 7 (emptyLead\<lparr>jobWon := Yes\<rparr>) @ replicate 18 emptyLead))
      = Num (28 + 1 / 2 ^ 48)"
    unfolding winRate_sample using e4 by (simp add: double_eval)
  show ?thesis
    unfolding total won using rate two bound e1 e2 e3 e4 e5 by simp
qed

subsection \<open>The weeks of a month\<close>

lemma weeksLoop_ranges:
  "weeksLoop start lastDay = map (\<lambda>(a, b). weekLabel a b) (weekRanges start lastDay)"
proof (induction start lastDay rule: weeksLoop.induct)
  case (1 start lastDay)
  show ?case
  proof (cases "start \<le> lastDay")
    case True
    with "1" show ?thesis
      by (subst weeksLoop.simps, subst weekRanges.simps) simp
  next
    case False
    then show ?thesis
      by (subst weeksLoop.simps, subst weekRanges.simps) simp
  qed
qed

lemma weekRanges_cover:
  "start \<le> Suc lastDay \<Longrightarrow>
   concat (map (\<lambda>(a, b). [a ..< Suc b]) (weekRanges start lastDay)) = [start ..< Suc lastDay]"
proof (induction start lastDay rule: weekRanges.induct)
  case (1 start lastDay)
  show ?case
  proof (cases "start \<le> lastDay")
    case False
    with "1.prems" show ?thesis
      by (subst weekRanges.simps) simp
  next
    case True
    show ?thesis
    proof (cases "start + 6 < lastDay")
      case True
      then have le: "start + 7 \<le> Suc lastDay" by simp
      have split: "[start ..< Suc lastDay] = [start ..< start + 7] @ [start + 7 ..< Suc lastDay]"
        using le by (metis le_add1 upt_add_eq_append le_Suc_ex)
      have m: "min (start + 6) lastDay = start + 6" using True by simp
      have unf: "weekRanges start lastDay = (start, start + 6) # weekRanges (start + 7) lastDay"
        using \<open>start \<le> lastDay\<close> m by (subst weekRanges.simps) simp
      have s7: "Suc (start + 6) = start + 7" by simp
      have "concat (map (\<lambda>(a, b). [a ..< Suc b]) (weekRanges start lastDay))
            = [start ..< start + 7]
              @ concat (map (\<lambda>(a, b). [a ..< Suc b]) (weekRanges (start + 7) lastDay))"
        by (simp only: unf list.map concat.simps prod.case s7)
      also have "\<dots> = [start ..< start + 7] @ [start + 7 ..< Suc lastDay]"
        by (simp only: "1.IH" [OF \<open>start \<le> lastDay\<close> le])
      finally show ?thesis by (simp only: split)
    next
      case False
      then have m: "min (start + 6) lastDay = lastDay" by simp
      have nxt: "weekRanges (start + 7) lastDay = []"
        using False by (subst weekRanges.simps) simp
      show ?thesis
        using \<open>start \<le> lastDay\<close> m nxt by (subst weekRanges.simps) simp
    qed
  qed
qed

lemma weekRanges_short:
  "(a, b) \<in> set (weekRanges start lastDay) \<Longrightarrow> a \<le> b \<and> b < a + 7 \<and> start \<le> a \<and> b \<le> lastDay"
proof (induction start lastDay rule: weekRanges.induct)
  case (1 start lastDay)
  show ?case
  proof (cases "start \<le> lastDay")
    case False
    with "1.prems" show ?thesis
      by (subst (asm) weekRanges.simps) simp
  next
    case True
    from "1.prems" True have
      "(a, b) = (start, min (start + 6) lastDay) \<or> (a, b) \<in> set (weekRanges (start + 7) lastDay)"
      by (subst (asm) weekRanges.simps) simp
    then show ?thesis
    proof
      assume "(a, b) = (start, min (start + 6) lastDay)"
      with True show ?thesis by auto
    next
      assume "(a, b) \<in> set (weekRanges (start + 7) lastDay)"
      from "1.IH" [OF True this] show ?thesis by simp
    qed
  qed
qed

lemma isLeapYear_1900: "1 \<le> y \<Longrightarrow> y \<le> 99 \<Longrightarrow> isLeapYear (1900 + y) = isLeapYear y"
proof -
  assume a: "1 \<le> y" "y \<le> 99"
  have "(4 * 475 + y) mod 4 = y mod 4" by (rule mod_mult_self4)
  then have m4: "(1900 + y) mod 4 = y mod 4" by simp
  have "(100 * 19 + y) mod 100 = y mod 100" by (rule mod_mult_self4)
  then have m100: "(1900 + y) mod 100 = y" using a by simp
  have y100: "y mod 100 = y" using a by simp
  show ?thesis using a by (simp only: isLeapYear_def m4 m100 y100) simp
qed

lemma lastDayOfMonth_valid:
  assumes "1 \<le> y" "y \<le> 275759" "1 \<le> m" "m \<le> 12"
  shows "lastDayOfMonth (Num (of_nat y)) (Num (of_nat m)) = Some (daysInMonth y m)"
proof -
  define yr where "yr = (if y \<le> 99 then 1900 + y else y)"
  define k where "k = yr * 12 + m - 1"
  have k: "k = yr * 12 + (m - 1)" using assms by (simp add: k_def)
  have small: "m - 1 < 12" using assms by simp
  have "(yr * 12 + (m - 1)) div 12 = yr + (m - 1) div 12" by (rule div_mult_self3) simp
  then have kd: "k div 12 = yr" using small by (simp only: k div_less add_0_right)
  have "(yr * 12 + (m - 1)) mod 12 = (m - 1) mod 12" by (rule mod_mult_self3)
  then have "k mod 12 = m - 1" using small by (simp only: k mod_less)
  then have km: "k mod 12 + 1 = m" using assms by simp
  have yb: "yr \<le> 275759" using assms by (simp add: yr_def)
  have kb: "k \<le> 275760 * 12 + 7" using yb assms by (simp add: k)
  have dm: "daysInMonth yr m = daysInMonth y m"
    using assms isLeapYear_1900 [of y] by (simp add: yr_def daysInMonth_def)
  have "lastDayOfMonth (Num (of_nat y)) (Num (of_nat m))
        = (if k \<le> 275760 * 12 + 7 then Some (daysInMonth (k div 12) (k mod 12 + 1)) else None)"
    by (simp add: lastDayOfMonth_def Let_def yr_def k_def)
  then show ?thesis using kb kd km dm by simp
qed

lemma showNat_digit: "n < 10 \<Longrightarrow> showNat n = [digitChar n]"
  by (subst showNat.simps) simp

lemma showNat_more: "10 \<le> n \<Longrightarrow> showNat n = showNat (n div 10) @ [digitChar (n mod 10)]"
  by (subst showNat.simps) simp

lemmas showNat_eval = showNat_digit showNat_more digitChar_def

lemma weeksLoop_30:
  "weeksLoop 1 30 = [''1-7'', ''8-14'', ''15-21'', ''22-28'', ''29-30'']"
  by (simp add: weeksLoop.simps weekLabel_def showNat_eval)

text \<open>The month value is read back as the year and the month it was made of.\<close>

lemma below_ten: "k < 10 \<Longrightarrow> k \<in> {0, 1, 2, 3, 4, 5, 6, 7, 8, 9 :: nat}"
  by auto

lemma digitChar_digit: "k < 10 \<Longrightarrow> isDigit (digitChar k) \<and> digitVal (digitChar k) = k"
  using below_ten [of k] by (auto simp: digitChar_def isDigit_def digitVal_def)

lemma showNat_digits: "list_all isDigit (showNat n) \<and> showNat n \<noteq> []"
proof (induction n rule: showNat.induct)
  case (1 n)
  show ?case
  proof (cases "n < 10")
    case True
    then show ?thesis by (simp add: showNat_digit digitChar_digit)
  next
    case False
    with "1" show ?thesis by (simp add: showNat_more digitChar_digit)
  qed
qed

lemma digitsValue_snoc: "digitsValue b (ds @ [c]) = b * digitsValue b ds + digitVal c"
  by (simp add: digitsValue_def)

lemma digitsValue_showNat: "digitsValue 10 (showNat n) = n"
proof (induction n rule: showNat.induct)
  case (1 n)
  show ?case
  proof (cases "n < 10")
    case True
    then show ?thesis by (simp add: showNat_digit digitsValue_def digitChar_digit)
  next
    case False
    with "1" show ?thesis by (simp add: showNat_more digitsValue_snoc digitChar_digit)
  qed
qed

lemma digitsValue_zeros: "digitsValue 10 (replicate k (CHR ''0'') @ ds) = digitsValue 10 ds"
  by (induction k) (simp_all add: digitsValue_def digitVal_def)

lemma digit_plain:
  assumes "isDigit c"
  shows "\<not> isSpace c" "c \<noteq> CHR ''-''" "c \<noteq> CHR ''+''" "c \<noteq> CHR ''.''" "c \<noteq> CHR ''I''"
    "c \<noteq> CHR ''x''" "c \<noteq> CHR ''X''" "c \<noteq> CHR ''o''" "c \<noteq> CHR ''O''"
    "c \<noteq> CHR ''b''" "c \<noteq> CHR ''B''"
  using assms by (auto simp: isDigit_def isSpace_def)

lemma trim_digits:
  assumes "ds \<noteq> []" and "list_all isDigit ds"
  shows "trim ds = ds"
proof -
  have h: "\<not> isSpace (hd ds)" using assms by (cases ds) (auto dest: digit_plain(1))
  have l: "\<not> isSpace (hd (rev ds))"
    using assms by (cases ds rule: rev_cases) (auto dest: digit_plain(1))
  have "dropWhile isSpace ds = ds" using h assms(1) by (cases ds) auto
  moreover have "dropWhile isSpace (rev ds) = rev ds"
    using l assms(1) by (cases "rev ds") auto
  ultimately show ?thesis by (simp add: trim_def trimStart_def trimEnd_def)
qed

lemma nonDecimal_digits:
  assumes "list_all isDigit ds"
  shows "nonDecimal ds = None"
proof (cases ds)
  case Nil
  then show ?thesis by (simp add: nonDecimal_def)
next
  case (Cons z r)
  show ?thesis
  proof (cases r)
    case Nil
    with Cons show ?thesis by (simp add: nonDecimal_def)
  next
    case (Cons p rest)
    with assms \<open>ds = z # r\<close> have "isDigit p" by simp
    from digit_plain(6-11) [OF this] Cons \<open>ds = z # r\<close>
    show ?thesis by (simp add: nonDecimal_def)
  qed
qed

text \<open>\<open>Number\<close> reads a string of digits as the number they write in base ten.\<close>

lemma toNumber_digits:
  assumes ne: "ds \<noteq> []" and dig: "list_all isDigit ds"
  shows "toNumber ds = toDouble (of_nat (digitsValue 10 ds))"
proof -
  have c: "isDigit (hd ds)" using ne dig by (cases ds) auto
  have notInf: "ds \<noteq> ''Infinity''" using c by (auto dest: digit_plain(5))
  have tw: "takeWhile isDigit ds = ds" "dropWhile isDigit ds = []"
    using dig by (simp_all add: list_all_iff)
  have u: "unsignedDecimal ds = toDouble (of_nat (digitsValue 10 ds))"
    using notInf ne by (simp add: unsignedDecimal_def tw Let_def exponentPart_def pow10_def
        digitsValue_def)
  have "toNumber ds = unsignedDecimal ds"
    using ne digit_plain(2,3) [OF c]
    by (simp add: toNumber_def trim_digits [OF ne dig] nonDecimal_digits [OF dig] Let_def)
  then show ?thesis by (simp only: u)
qed

lemma splitOn_none: "d \<notin> set b \<Longrightarrow> splitOn d b = [b]"
  by (induction b) auto

lemma splitOn_once: "d \<notin> set a \<Longrightarrow> d \<notin> set b \<Longrightarrow> splitOn d (a @ d # b) = [a, b]"
  by (induction a) (auto simp: splitOn_none)

lemma digits_no_minus: "list_all isDigit ds \<Longrightarrow> CHR ''-'' \<notin> set ds"
  by (auto simp: list_all_iff dest: digit_plain(2))

lemma toMonthValue_numbers:
  assumes "y \<le> 275759" and "m \<le> 12"
  shows "numberAt (splitOn (CHR ''-'') (toMonthValue y m)) 0 = Num (of_nat y)"
    and "numberAt (splitOn (CHR ''-'') (toMonthValue y m)) 1 = Num (of_nat m)"
proof -
  let ?ms = "padStart2 (showNat m)"
  have z: "isDigit (CHR ''0'')"
    by (simp add: isDigit_def)
  have md: "list_all isDigit ?ms" "?ms \<noteq> []"
    using showNat_digits [of m] z by (auto simp: padStart2_def list_all_iff)
  have mv: "digitsValue 10 ?ms = m"
    by (simp add: padStart2_def digitsValue_zeros digitsValue_showNat)
  have parts: "splitOn (CHR ''-'') (toMonthValue y m) = [showNat y, ?ms]"
    using splitOn_once [of "CHR ''-''" "showNat y" ?ms] showNat_digits [of y] md
    by (simp add: toMonthValue_def digits_no_minus)
  have ys: "y < 2 ^ 53" using assms(1) by simp
  have ms: "m < 2 ^ 53" using assms(2) by simp
  have yn: "toNumber (showNat y) = Num (of_nat y)"
    using toNumber_digits [of "showNat y"] showNat_digits [of y]
    by (simp add: digitsValue_showNat toDouble_of_nat [OF ys])
  have mn: "toNumber ?ms = Num (of_nat m)"
    using toNumber_digits [OF md(2) md(1)] by (simp add: mv toDouble_of_nat [OF ms])
  show "numberAt (splitOn (CHR ''-'') (toMonthValue y m)) 0 = Num (of_nat y)"
    by (simp add: parts numberAt_def yn)
  show "numberAt (splitOn (CHR ''-'') (toMonthValue y m)) 1 = Num (of_nat m)"
    by (simp add: parts numberAt_def mn)
qed

lemma monthWeeks_toMonthValue:
  assumes "y \<le> 275759" and "m \<le> 12"
  shows "monthWeeks (toMonthValue y m) = monthWeeksOf (Num (of_nat y)) (Num (of_nat m))"
  by (simp only: monthWeeks_def Let_def toMonthValue_numbers [OF assms])

text \<open>
  Claim C7. For a year from 1 to 275759 and a month from 1 to 12, \<open>monthWeeks\<close> on the
  month value of that year and month labels day ranges that, put end to end, are exactly
  the days \<open>1, ..., n\<close> of the month (\<open>n\<close> its number of days), each range holding at
  least one and at most seven days; for a month of 30 days the labels are \<open>1-7\<close>,
  \<open>8-14\<close>, \<open>15-21\<close>, \<open>22-28\<close>, \<open>29-30\<close>.
\<close>

theorem monthWeeks_partition:
  assumes "1 \<le> y" "y \<le> 275759" "1 \<le> m" "m \<le> 12"
  shows "monthWeeks (toMonthValue y m)
           = map (\<lambda>(a, b). weekLabel a b) (weekRanges 1 (daysInMonth y m))
         \<and> concat (map (\<lambda>(a, b). [a ..< Suc b]) (weekRanges 1 (daysInMonth y m)))
             = [1 ..< Suc (daysInMonth y m)]
         \<and> (\<forall>(a, b) \<in> set (weekRanges 1 (daysInMonth y m)). a \<le> b \<and> b < a + 7)
         \<and> (daysInMonth y m = 30 \<longrightarrow>
              monthWeeks (toMonthValue y m) = [''1-7'', ''8-14'', ''15-21'', ''22-28'', ''29-30''])"
proof -
  have truthy: "\<not> falsy (Num (of_nat y))" "\<not> falsy (Num (of_nat m))"
    using assms by (simp_all add: falsy_def)
  have loop: "monthWeeks (toMonthValue y m) = weeksLoop 1 (daysInMonth y m)"
    using truthy lastDayOfMonth_valid [OF assms]
    by (simp add: monthWeeks_toMonthValue [OF assms(2,4)] monthWeeksOf_def)
  have p1: "monthWeeks (toMonthValue y m)
           = map (\<lambda>(a, b). weekLabel a b) (weekRanges 1 (daysInMonth y m))"
    by (simp only: loop weeksLoop_ranges)
  have p2: "concat (map (\<lambda>(a, b). [a ..< Suc b]) (weekRanges 1 (daysInMonth y m)))
             = [1 ..< Suc (daysInMonth y m)]"
    by (rule weekRanges_cover) simp
  have p3: "\<forall>(a, b) \<in> set (weekRanges 1 (daysInMonth y m)). a \<le> b \<and> b < a + 7"
    using weekRanges_short by blast
  have p4: "daysInMonth y m = 30 \<longrightarrow>
              monthWeeks (toMonthValue y m) = [''1-7'', ''8-14'', ''15-21'', ''22-28'', ''29-30'']"
  proof
    assume d: "daysInMonth y m = 30"
    show "monthWeeks (toMonthValue y m) = [''1-7'', ''8-14'', ''15-21'', ''22-28'', ''29-30'']"
      by (simp only: loop d weeksLoop_30)
  qed
  from p1 p2 p3 p4 show ?thesis by blast
qed

theorem monthWeeks_partition_witness:
  "(1::nat) \<le> 2024 \<and> (2024::nat) \<le> 275759 \<and> (1::nat) \<le> 4 \<and> (4::nat) \<le> 12
   \<and> daysInMonth 2024 4 = 30
   \<and> toMonthValue 2024 4 = ''2024-04''
   \<and> monthWeeks ''2024-04'' = [''1-7'', ''8-14'', ''15-21'', ''22-28'', ''29-30'']"
proof -
  have h: "(1::nat) \<le> 2024" "(2024::nat) \<le> 275759" "(1::nat) \<le> 4" "(4::nat) \<le> 12"
    by simp_all
  have d: "daysInMonth 2024 4 = 30"
    by (simp add: daysInMonth_def)
  have v: "toMonthValue 2024 4 = ''2024-04''"
    by (simp add: toMonthValue_def padStart2_def showNat_eval)
  from monthWeeks_partition [OF h] d
  have "monthWeeks (toMonthValue 2024 4) = [''1-7'', ''8-14'', ''15-21'', ''22-28'', ''29-30'']"
    by blast
  then have c: "monthWeeks ''2024-04'' = [''1-7'', ''8-14'', ''15-21'', ''22-28'', ''29-30'']"
    by (simp only: v)
  from h d v c show ?thesis by blast
qed

subsection \<open>Scorecard transformer\<close>

lemma scorecard_matrix:
  "csvToMatrix scorecardText =
     [[''Channel'', ''JAN: 6'', ''JAN: 13''], [''Channel Performance''], [''Yelp'', ''3'', ''0''],
      [''Brand & Reputation'']]"
  by (simp add: scorecardText_def csvToMatrix_def csvLines_def consHead_def parseLine_def
      trimEnd_def trim_def trimStart_def isSpace_def Let_def)

lemma scorecard_date: "scorecardDate year ''JAN: 6'' = showNat year @ ''-01-06''"
  by (simp add: scorecardDate_def weekGroups_def isLetter_def isSpace_def isDigit_def
      monthMap_def toUpperCase_def upperChar_def digitsValue_def digitVal_def padStart2_def
      showNat_eval Let_def)

lemmas class_eval = isLetter_def isSpace_def isDigit_def

lemma yelp_row:
  "rowLeads year [(1, ''JAN: 6''), (2, ''JAN: 13'')] [''Yelp'', ''3'', ''0'']
     = map (scorecardLead (showNat year @ ''-01-06'') ''Yelp'' ''JAN: 6'') [1, 2, 3]"
proof -
  have src: "trim (cellAt [''Yelp'', ''3'', ''0''] 0) = ''Yelp''"
    by (simp add: cellAt_def trim_def trimStart_def trimEnd_def class_eval)
  have meta: "\<not> isMetaRow ''Yelp''"
    by (simp add: isMetaRow_def toLowerCase_def lowerChar_def)
  have c1: "cellCount (cellAt [''Yelp'', ''3'', ''0''] 1) = 3"
    by (simp add: cellCount_def cellAt_def matchDigits_def digitsValue_def digitVal_def class_eval)
  have c2: "cellCount (cellAt [''Yelp'', ''3'', ''0''] 2) = 0"
    by (simp add: cellCount_def cellAt_def matchDigits_def digitsValue_def digitVal_def class_eval)
  have up: "[1 ..< Suc 3] = [1, 2, 3]"
    by (simp add: upt_rec)
  have w1: "weekLeads year ''Yelp'' [''Yelp'', ''3'', ''0''] (1, ''JAN: 6'')
            = map (scorecardLead (showNat year @ ''-01-06'') ''Yelp'' ''JAN: 6'') [1, 2, 3]"
    by (simp only: weekLeads_def Let_def fst_conv snd_conv c1 up scorecard_date) simp
  have w2: "weekLeads year ''Yelp'' [''Yelp'', ''3'', ''0''] (2, ''JAN: 13'') = []"
    by (simp only: weekLeads_def Let_def fst_conv snd_conv c2) simp
  have ne: "(''Yelp'' = []) = False"
    by simp
  show ?thesis
    by (simp only: rowLeads_def Let_def src ne meta w1 w2 list.map concat.simps append_Nil2
          if_False simp_thms)
qed

lemma scorecard_leads:
  "parseScorecardToLeads year scorecardText =
     map (scorecardLead (showNat year @ ''-01-06'') ''Yelp'' ''JAN: 6'') [1, 2, 3]"
proof -
  let ?m = "[[''Channel'', ''JAN: 6'', ''JAN: 13''], [''Channel Performance''],
             [''Yelp'', ''3'', ''0''], [''Brand & Reputation'']]"
  have hdr: "find (\<lambda>row. list_ex testWeek row) ?m = Some [''Channel'', ''JAN: 6'', ''JAN: 13'']"
    by (simp add: weekPrefix_def class_eval)
  have low: "toLowerCase ''Channel'' = ''channel''"
    "toLowerCase ''Channel Performance'' = ''channel performance''"
    "toLowerCase ''Yelp'' = ''yelp''"
    "toLowerCase ''Brand & Reputation'' = ''brand & reputation''"
    by (simp_all add: toLowerCase_def lowerChar_def)
  have start: "findIndex (\<lambda>idx row. firstCellHas ''channel performance'' row) ?m = Some 1"
    by (simp add: findIndex_def firstCellHas_def low)
  have fin: "findIndex (\<lambda>idx row. 1 < idx \<and> firstCellHas ''brand & reputation'' row) ?m = Some 3"
    by (simp add: findIndex_def firstCellHas_def low)
  have cols: "filter (\<lambda>x. testWeek (snd x)) (enumerate 0 (map trim [''Channel'', ''JAN: 6'', ''JAN: 13'']))
              = [(1, ''JAN: 6''), (2, ''JAN: 13'')]"
    by (simp add: trim_def trimStart_def trimEnd_def weekPrefix_def class_eval)
  have rows: "slice ?m (1 + 1) 3 = [[''Yelp'', ''3'', ''0'']]"
    by (simp add: slice_def)
  show ?thesis
    using yelp_row [of year]
    by (simp only: parseScorecardToLeads_def scorecard_matrix Let_def hdr start prod.case
          option.case cols fin rows)
       simp
qed

text \<open>
  Claim C4. The scorecard file above reads as the matrix with the header row
  \<open>["Channel", "JAN: 6", "JAN: 13"]\<close>, the \<open>"Channel Performance"\<close> row, the data row
  \<open>["Yelp", "3", "0"]\<close> and the \<open>"Brand & Reputation"\<close> row, and
  \<open>parseScorecardToLeads\<close> makes exactly three lead inputs of it, in any current year:
  all with \<open>leadSource = "Yelp"\<close>, \<open>jobType = "Imported"\<close> and the date of 6 January of
  that year, and with the customers \<open>"Imported Yelp Lead 1"\<close>, \<open>2\<close> and \<open>3\<close>.
\<close>

theorem parseScorecardToLeads_yelp:
  "csvToMatrix scorecardText =
     [[''Channel'', ''JAN: 6'', ''JAN: 13''], [''Channel Performance''], [''Yelp'', ''3'', ''0''],
      [''Brand & Reputation'']]
   \<and> parseScorecardToLeads year scorecardText =
     map (\<lambda>n. \<lparr> date = showNat year @ ''-01-06'',
                customer = ''Imported Yelp Lead '' @ n,
                leadSource = ''Yelp'',
                jobType = ''Imported'',
                leadCost = ''$0'',
                jobWon = No,
                comments = ''Imported from marketing scorecard (JAN: 6)'',
                replyTimeCategory = Cat_7_00_3_30,
                replyTimeMinutes = [],
                booked = No,
                sold = No,
                cancelled = No,
                soldAmount = ''$0'',
                revenue = ''$0'',
                replyTime = None \<rparr>)
       [''1'', ''2'', ''3'']"
  by (simp add: scorecard_matrix scorecard_leads scorecardLead_def defaultReplyCategory_def
      showNat_eval)

subsection \<open>Import\<close>

lemma startsWith_hd: "startsWith s (p # ps) \<Longrightarrow> s \<noteq> [] \<and> hd s = p"
  by (cases s) auto

lemma csv_not_other:
  assumes "endsWith n ''.csv'' \<or> endsWith n ''.tsv''"
  shows "\<not> endsWith n ''.json''" "\<not> endsWith n ''.xlsx''" "\<not> endsWith n ''.xls''"
proof -
  from assms have v: "hd (rev n) = CHR ''v''"
    by (auto simp: endsWith_def dest: startsWith_hd)
  show "\<not> endsWith n ''.json''" using v by (auto simp: endsWith_def dest: startsWith_hd)
  show "\<not> endsWith n ''.xlsx''" using v by (auto simp: endsWith_def dest: startsWith_hd)
  show "\<not> endsWith n ''.xls''" using v by (auto simp: endsWith_def dest: startsWith_hd)
qed

lemma fileRows_csv:
  "endsWith n ''.csv'' \<or> endsWith n ''.tsv'' \<Longrightarrow> fileRows external n text = Some (csvToRows text)"
  using csv_not_other [of n] by (simp add: fileRows_def)

lemmas string_eval = trim_def trimStart_def trimEnd_def isSpace_def toLowerCase_def lowerChar_def

lemma normalize_keys:
  "normalizeHeader ''date'' = ''date''"
  "normalizeHeader ''customer'' = ''customer''"
  "normalizeHeader ''name'' = ''name''"
  "normalizeHeader ''lead source'' = ''lead source''"
  "normalizeHeader ''source'' = ''source''"
  "normalizeHeader ''job type'' = ''job type''"
  "normalizeHeader ''lead cost'' = ''lead cost''"
  "normalizeHeader ''cost'' = ''cost''"
  "normalizeHeader ''job won'' = ''job won''"
  "normalizeHeader ''sold'' = ''sold''"
  "normalizeHeader ''comments'' = ''comments''"
  "normalizeHeader ''reply time category'' = ''reply time category''"
  "normalizeHeader ''reply time minutes'' = ''reply time minutes''"
  "normalizeHeader ''booked'' = ''booked''"
  "normalizeHeader ''cancelled'' = ''cancelled''"
  "normalizeHeader ''canceled'' = ''canceled''"
  "normalizeHeader ''sold amount'' = ''sold amount''"
  "normalizeHeader ''revenue'' = ''revenue''"
  by (simp_all add: normalizeHeader_def isGap_def string_eval)

text \<open>
  The loop writes the accepted leads of the rows before the first row whose mapping
  throws, and it returns a count exactly when no mapping throws.
\<close>

lemma importLoop_prefix:
  "importLoop rs docs n =
     (docs @ map written (filter accepted (mappedLeads (takeWhile returns rs))),
      if list_all returns rs
      then Some (n + length (filter accepted (mappedLeads rs))) else None)"
proof (induction rs arbitrary: docs n)
  case Nil
  show ?case by (simp add: mappedLeads_def List.map_filter_simps)
next
  case (Cons r rs)
  show ?case
  proof (cases "normalizeImportedLead r")
    case None
    then show ?thesis by (simp add: returns_def mappedLeads_def List.map_filter_simps)
  next
    case (Some lead)
    then show ?thesis
      by (simp add: Cons.IH returns_def mappedLeads_def List.map_filter_simps accepted_def)
  qed
qed

lemma takeWhile_all: "list_all P xs \<Longrightarrow> takeWhile P xs = xs"
  by (induction xs) simp_all

lemma importLoop_filter:
  "list_all returns rs \<Longrightarrow>
   importLoop rs docs n =
     (docs @ map written (filter accepted (mappedLeads rs)),
      Some (n + length (filter accepted (mappedLeads rs))))"
  by (simp add: importLoop_prefix takeWhile_all)

lemma written_mirror: "jobWon (written l) = sold (written l)" "sold (written l) = sold l"
  by (simp_all add: written_def)

text \<open>The import of a file that has rows, none of which makes the mapping throw.\<close>

lemma handleFileImport_rows:
  assumes "fileRows external (toLowerCase name) text = Some rs" and "rs \<noteq> []"
    and "list_all returns rs"
  shows "handleFileImport year external name text =
     (let docs = map written (filter accepted (mappedLeads rs));
          fallback = (docs = []
                      \<and> (endsWith (toLowerCase name) ''.csv'' \<or> endsWith (toLowerCase name) ''.tsv''));
          scorecardLeads = (if fallback then parseScorecardToLeads year text else [])
      in \<lparr> writes = docs @ map written (map document scorecardLeads),
           importStatus = (if length docs + length scorecardLeads = 0 then ImportedNothing
                           else Imported (length docs + length scorecardLeads) name),
           scorecardAttempted = fallback \<rparr>)"
  using assms by (simp add: handleFileImport_def importLoop_filter Let_def)

text \<open>The import of a file one of whose rows makes the mapping throw.\<close>

lemma handleFileImport_throws:
  assumes "fileRows external (toLowerCase name) text = Some rs" and "\<not> list_all returns rs"
  shows "handleFileImport year external name text =
     \<lparr> writes = map written (filter accepted (mappedLeads (takeWhile returns rs))),
       importStatus = ImportFailed, scorecardAttempted = False \<rparr>"
proof -
  have "rs \<noteq> []" using assms(2) by auto
  then show ?thesis using assms by (simp add: handleFileImport_def importLoop_prefix)
qed

lemma handleFileImport_no_rows:
  "fileRows external (toLowerCase name) text = None \<or> fileRows external (toLowerCase name) text = Some []
   \<Longrightarrow> writes (handleFileImport year external name text) = []
       \<and> \<not> scorecardAttempted (handleFileImport year external name text)"
  by (auto simp: handleFileImport_def)

subsubsection \<open>Rows with string values\<close>

lemma stringValued_property:
  assumes "stringValued r" and "property r k = Some v"
  shows "\<exists>s. v = JString s"
proof -
  from assms(1) obtain es where r: "r = JObject es"
    and all: "list_all (\<lambda>(k, v). case v of JString s \<Rightarrow> True | _ \<Rightarrow> False) es"
    by (cases r) (simp_all add: stringValued_def)
  from assms(2) have "(k, v) \<in> set es"
    using map_of_SomeD [of "rev es" k v] by (simp add: r property_def)
  with all show ?thesis by (cases v) (auto simp: list_all_iff)
qed

lemma stringValued_pick: "stringValued r \<Longrightarrow> \<exists>s. pick r keys = Some (JString s)"
proof (induction keys)
  case Nil
  show ?case by simp
next
  case (Cons key keys)
  have n: "r \<noteq> JNull" using Cons.prems by (auto simp: stringValued_def)
  show ?case
  proof (cases "property r (normalizeHeader key)")
    case None
    then show ?thesis using Cons n by simp
  next
    case (Some v)
    from stringValued_property [OF Cons.prems Some] obtain s where "v = JString s" ..
    then show ?thesis using Cons n Some by simp
  qed
qed

lemma yesNo_string: "\<exists>y. yesNo (orValue (JString s) (JString d)) = Some y"
  by (simp add: yesNo_def orValue_def)

text \<open>The mapping of a row with string values returns.\<close>

lemma stringValued_returns: "stringValued r \<Longrightarrow> returns r"
proof -
  assume sv: "stringValued r"
  have p: "\<exists>s. pick r keys = Some (JString s)" for keys
    by (rule stringValued_pick [OF sv])
  obtain a where a: "pick r [''job won'', ''sold''] = Some (JString a)" using p by blast
  obtain b where b: "pick r [''booked''] = Some (JString b)" using p by blast
  obtain c where c: "pick r [''sold'', ''job won''] = Some (JString c)" using p by blast
  obtain d where d: "pick r [''cancelled'', ''canceled''] = Some (JString d)" using p by blast
  obtain k1 where k1: "pick r [''reply time category''] = Some (JString k1)" using p by blast
  obtain k2 where k2: "pick r [''date''] = Some (JString k2)" using p by blast
  obtain k3 where k3: "pick r [''customer'', ''name''] = Some (JString k3)" using p by blast
  obtain k4 where k4: "pick r [''lead source'', ''source''] = Some (JString k4)" using p by blast
  obtain k5 where k5: "pick r [''job type''] = Some (JString k5)" using p by blast
  obtain k6 where k6: "pick r [''lead cost'', ''cost''] = Some (JString k6)" using p by blast
  obtain k7 where k7: "pick r [''comments''] = Some (JString k7)" using p by blast
  obtain k8 where k8: "pick r [''reply time minutes''] = Some (JString k8)" using p by blast
  obtain k9 where k9: "pick r [''sold amount''] = Some (JString k9)" using p by blast
  obtain k10 where k10: "pick r [''revenue''] = Some (JString k10)" using p by blast
  obtain y1 where y1: "yesNo (orValue (JString a) (JString ''No'')) = Some y1"
    using yesNo_string by blast
  obtain y2 where y2: "yesNo (orValue (JString b) (JString ''No'')) = Some y2"
    using yesNo_string by blast
  obtain y3 where y3: "yesNo (orValue (JString c) (JString ''No'')) = Some y3"
    using yesNo_string by blast
  obtain y4 where y4: "yesNo (orValue (JString d) (JString ''No'')) = Some y4"
    using yesNo_string by blast
  show "returns r"
    unfolding returns_def normalizeImportedLead_def
    by (simp only: a b c d k1 k2 k3 k4 k5 k6 k7 k8 k9 k10 y1 y2 y3 y4 bind.simps) simp
qed

lemma rowOf_stringValued: "stringValued (rowOf headers cols)"
proof -
  have "list_all (\<lambda>(k, v). case v of JString s \<Rightarrow> True | _ \<Rightarrow> False)
          (foldl (\<lambda>acc (idx, h). acc @ [(h, JString (trim (cellAt cols idx)))]) acc hs)"
    if "list_all (\<lambda>(k, v). case v of JString s \<Rightarrow> True | _ \<Rightarrow> False) acc"
    for acc :: "(string \<times> json) list" and hs
    using that by (induction hs arbitrary: acc) (simp_all split: prod.split)
  from this [of "[]"] show ?thesis by (simp add: rowOf_def stringValued_def)
qed

lemma sheetRow_stringValued: "stringValued (sheetRow es)"
proof -
  have "list_all (\<lambda>(k, v). case v of JString s \<Rightarrow> True | _ \<Rightarrow> False)
          (foldl (\<lambda>normalized (key, v). normalized @ [(normalizeHeader key, JString (trim v))])
             acc xs)"
    if "list_all (\<lambda>(k, v). case v of JString s \<Rightarrow> True | _ \<Rightarrow> False) acc"
    for acc :: "(string \<times> json) list" and xs
    using that by (induction xs arbitrary: acc) (simp_all split: prod.split)
  from this [of "[]"] show ?thesis by (simp add: sheetRow_def stringValued_def)
qed

text \<open>
  No row of a delimited file or of a spreadsheet makes the mapping throw: only a row of
  a JSON file can.
\<close>

lemma csvToRows_returns: "list_all returns (csvToRows text)"
  by (simp add: csvToRows_def Let_def list_all_iff stringValued_returns rowOf_stringValued)

lemma sheet_returns: "list_all returns (map sheetRow rs)"
  by (simp add: list_all_iff stringValued_returns sheetRow_stringValued)

lemma mappedLeads_length: "list_all returns rs \<Longrightarrow> length (mappedLeads rs) = length rs"
  by (induction rs) (auto simp: mappedLeads_def List.map_filter_simps returns_def)

lemma throws_json_only:
  assumes "fileRows external (toLowerCase name) text = Some rs" and "\<not> list_all returns rs"
  shows "endsWith (toLowerCase name) ''.json''"
proof (rule ccontr)
  assume n: "\<not> endsWith (toLowerCase name) ''.json''"
  show False
  proof (cases "endsWith (toLowerCase name) ''.xlsx'' \<or> endsWith (toLowerCase name) ''.xls''")
    case True
    with n assms(1) obtain ss where "rs = map sheetRow ss"
      by (auto simp: fileRows_def split: parsed.splits)
    with assms(2) show False by (simp add: sheet_returns)
  next
    case False
    with n assms(1) have "rs = csvToRows text" by (simp add: fileRows_def)
    with assms(2) show False by (simp add: csvToRows_returns)
  qed
qed

subsubsection \<open>The example files\<close>

lemma leads_matrix:
  "csvToMatrix leadsText =
     [[''Date'', ''Name'', ''Sold'', ''Job Won''], [''2024-01-02'', ''Bob'', ''no'', ''YES''],
      [[], ''Al'', ''yes'', ''yes''], [''2024-01-03'', [], ''yes'', ''yes'']]"
  by (simp add: leadsText_def csvToMatrix_def csvLines_def consHead_def parseLine_def
      string_eval Let_def)

lemma leads_headers:
  "normalizeHeader ''Date'' = ''date''" "normalizeHeader ''Name'' = ''name''"
  "normalizeHeader ''Sold'' = ''sold''" "normalizeHeader ''Job Won'' = ''job won''"
  "normalizeHeader ''Customer'' = ''customer''"
  by (simp_all add: normalizeHeader_def isGap_def string_eval)

lemma leads_rowOf:
  "rowOf [''date'', ''name'', ''sold'', ''job won''] [a, b, c, d]
     = JObject [(''date'', JString (trim a)), (''name'', JString (trim b)),
                (''sold'', JString (trim c)), (''job won'', JString (trim d))]"
  by (simp add: rowOf_def cellAt_def)

lemma leads_csvToRows:
  "csvToRows leadsText =
     [JObject [(''date'', JString ''2024-01-02''), (''name'', JString ''Bob''),
               (''sold'', JString ''no''), (''job won'', JString ''YES'')],
      JObject [(''date'', JString []), (''name'', JString ''Al''),
               (''sold'', JString ''yes''), (''job won'', JString ''yes'')],
      JObject [(''date'', JString ''2024-01-03''), (''name'', JString []),
               (''sold'', JString ''yes''), (''job won'', JString ''yes'')]]"
proof -
  have t: "trim ''2024-01-02'' = ''2024-01-02''" "trim ''Bob'' = ''Bob''" "trim ''no'' = ''no''"
    "trim ''YES'' = ''YES''" "trim [] = []" "trim ''Al'' = ''Al''" "trim ''yes'' = ''yes''"
    "trim ''2024-01-03'' = ''2024-01-03''"
    by (simp_all add: string_eval)
  have "csvToRows leadsText =
     map (rowOf [''date'', ''name'', ''sold'', ''job won''])
       [[''2024-01-02'', ''Bob'', ''no'', ''YES''], [[], ''Al'', ''yes'', ''yes''],
        [''2024-01-03'', [], ''yes'', ''yes'']]"
    by (simp add: csvToRows_def leads_matrix Let_def leads_headers)
  then show ?thesis
    by (simp only: list.map leads_rowOf t)
qed

lemma leads_normalized:
  "normalizeImportedLead
     (JObject [(''date'', JString d), (''name'', JString n), (''sold'', JString s),
               (''job won'', JString w)])
     = Some \<lparr> date = JString d, customer = JString n, leadSource = JString [],
              jobType = JString [], leadCost = JString ''$0'',
              jobWon = (if toLowerCase (orElse (orElse w s) ''No'') = ''yes'' then Yes else No),
              comments = JString [], replyTimeCategory = Cat_7_00_3_30,
              replyTimeMinutes = JString [], booked = No,
              sold = (if toLowerCase (orElse (orElse s w) ''No'') = ''yes'' then Yes else No),
              cancelled = No, soldAmount = JString ''$0'', revenue = JString ''$0'',
              replyTime = None \<rparr>"
  by (simp add: normalizeImportedLead_def property_def normalize_keys orElse_def orValue_def
      truthy_def yesNo_def categoryOf_def defaultReplyCategory_def toLowerCase_def lowerChar_def)

lemma leads_accepted:
  "filter accepted (mappedLeads (csvToRows leadsText)) =
     [\<lparr> date = JString ''2024-01-02'', customer = JString ''Bob'', leadSource = JString [],
        jobType = JString [], leadCost = JString ''$0'', jobWon = Yes, comments = JString [],
        replyTimeCategory = Cat_7_00_3_30, replyTimeMinutes = JString [], booked = No,
        sold = No, cancelled = No, soldAmount = JString ''$0'', revenue = JString ''$0'',
        replyTime = None \<rparr>]"
  by (simp add: mappedLeads_def List.map_filter_simps leads_csvToRows leads_normalized
      accepted_def truthy_def orElse_def toLowerCase_def lowerChar_def)

lemma a_csv: "fileRows external (toLowerCase ''a.csv'') text = Some (csvToRows text)"
  by (rule fileRows_csv) (simp add: endsWith_def toLowerCase_def lowerChar_def)

lemma leads_nonempty: "csvToRows leadsText \<noteq> []"
  by (simp add: leads_csvToRows)

text \<open>
  For the rows of an imported file, none of which makes the mapping throw (so for every
  delimited file and every spreadsheet), the import writes exactly the mapped rows whose
  date and customer are both non-empty, in order, followed by the leads of the scorecard
  transformer when that is attempted; no written row has an empty date or customer; and,
  the transformer apart, the count in the status is the number of those rows, with the
  status \<open>Imported 0 rows\<close> when every row is skipped.
\<close>

lemma import_writes_accepted_rows:
  assumes "fileRows external (toLowerCase name) text = Some rs" and "rs \<noteq> []"
    and "list_all returns rs"
  shows "writes (handleFileImport year external name text) =
           map written (filter accepted (mappedLeads rs))
           @ (if scorecardAttempted (handleFileImport year external name text)
              then map written (map document (parseScorecardToLeads year text)) else [])"
    and "\<not> scorecardAttempted (handleFileImport year external name text) \<Longrightarrow>
         importStatus (handleFileImport year external name text) =
           (if filter accepted (mappedLeads rs) = [] then ImportedNothing
            else Imported (length (filter accepted (mappedLeads rs))) name)"
    and "\<forall>d \<in> set (map written (filter accepted (mappedLeads rs))).
           truthy (date d) \<and> truthy (customer d)"
    and "importLoop rs [] 0 =
           (map written (filter accepted (mappedLeads rs)),
            Some (length (filter accepted (mappedLeads rs))))"
proof -
  show "writes (handleFileImport year external name text) =
           map written (filter accepted (mappedLeads rs))
           @ (if scorecardAttempted (handleFileImport year external name text)
              then map written (map document (parseScorecardToLeads year text)) else [])"
    by (auto simp: handleFileImport_rows [OF assms] Let_def)
  show "\<not> scorecardAttempted (handleFileImport year external name text) \<Longrightarrow>
         importStatus (handleFileImport year external name text) =
           (if filter accepted (mappedLeads rs) = [] then ImportedNothing
            else Imported (length (filter accepted (mappedLeads rs))) name)"
    by (auto simp: handleFileImport_rows [OF assms] Let_def)
  show "\<forall>d \<in> set (map written (filter accepted (mappedLeads rs))).
           truthy (date d) \<and> truthy (customer d)"
    by (auto simp: accepted_def written_def)
  show "importLoop rs [] 0 =
           (map written (filter accepted (mappedLeads rs)),
            Some (length (filter accepted (mappedLeads rs))))"
    using assms(3) by (simp add: importLoop_filter)
qed

text \<open>
  The file of three rows under the name \<open>a.csv\<close>: the row without a date and the row
  without a customer are skipped, the complete row is written, and the status is
  \<open>Imported 1 leads from a.csv\<close>.
\<close>

lemma import_three_rows:
  "length (csvToRows leadsText) = 3"
  "handleFileImport year external ''a.csv'' leadsText =
     \<lparr> writes =
         [\<lparr> date = JString ''2024-01-02'', customer = JString ''Bob'', leadSource = JString [],
            jobType = JString [], leadCost = JString ''$0'', jobWon = No, comments = JString [],
            replyTimeCategory = Cat_7_00_3_30, replyTimeMinutes = JString [], booked = No,
            sold = No, cancelled = No, soldAmount = JString ''$0'', revenue = JString ''$0'',
            replyTime = None \<rparr>],
       importStatus = Imported 1 ''a.csv'', scorecardAttempted = False \<rparr>"
proof -
  show "length (csvToRows leadsText) = 3"
    by (simp add: leads_csvToRows)
  show "handleFileImport year external ''a.csv'' leadsText =
     \<lparr> writes =
         [\<lparr> date = JString ''2024-01-02'', customer = JString ''Bob'', leadSource = JString [],
            jobType = JString [], leadCost = JString ''$0'', jobWon = No, comments = JString [],
            replyTimeCategory = Cat_7_00_3_30, replyTimeMinutes = JString [], booked = No,
            sold = No, cancelled = No, soldAmount = JString ''$0'', revenue = JString ''$0'',
            replyTime = None \<rparr>],
       importStatus = Imported 1 ''a.csv'', scorecardAttempted = False \<rparr>"
    by (simp add: handleFileImport_rows [OF a_csv leads_nonempty csvToRows_returns] Let_def
        leads_accepted written_def)
qed

lemma json_name:
  "endsWith (toLowerCase ''leads.json'') ''.json''"
  "\<not> endsWith (toLowerCase ''leads.xlsx'') ''.json''"
  "endsWith (toLowerCase ''leads.xlsx'') ''.xlsx''"
  by (simp_all add: endsWith_def toLowerCase_def lowerChar_def)

lemma jsonLead_string:
  "normalizeImportedLead (jsonLead d c (JString s)) =
     Some (importedDocument d c (if toLowerCase (orElse s ''No'') = ''yes'' then Yes else No))"
  by (simp add: jsonLead_def importedDocument_def normalizeImportedLead_def property_def
      normalize_keys orElse_def orValue_def truthy_def yesNo_def categoryOf_def
      defaultReplyCategory_def toLowerCase_def lowerChar_def)

lemma jsonLead_true: "normalizeImportedLead (jsonLead d c (JBool True)) = None"
  by (simp add: jsonLead_def normalizeImportedLead_def property_def normalize_keys orValue_def
      truthy_def yesNo_def)

lemma jsonLead_eval:
  "toLowerCase (orElse ''yes'' ''No'') = ''yes''"
  "toLowerCase (orElse ''true'' ''No'') \<noteq> ''yes''"
  "toLowerCase (orElse [] ''No'') \<noteq> ''yes''"
  by (simp_all add: orElse_def toLowerCase_def lowerChar_def)

lemma jsonLead_plain:
  "normalizeImportedLead (jsonLead d c (JString ''yes'')) = Some (importedDocument d c Yes)"
  "normalizeImportedLead (jsonLead d c (JString ''true'')) = Some (importedDocument d c No)"
  "normalizeImportedLead (jsonLead d c (JString [])) = Some (importedDocument d c No)"
  using jsonLead_eval by (simp_all add: jsonLead_string)

lemma sheet_bob:
  "sheetRow [(''Date'', ''2024-01-02''), (''Customer'', ''Bob''), (''Sold'', ''true'')]
     = JObject [(''date'', JString ''2024-01-02''), (''customer'', JString ''Bob''),
                (''sold'', JString ''true'')]"
proof -
  have t: "trim ''2024-01-02'' = ''2024-01-02''" "trim ''Bob'' = ''Bob''"
    "trim ''true'' = ''true''"
    by (simp_all add: string_eval)
  show ?thesis by (simp add: sheetRow_def leads_headers t)
qed

text \<open>
  Claim C3, at the input where the code departs from it. A JSON file whose one row has
  a date, a customer and \<open>"sold": true\<close>: the row's mapped date and customer are not
  empty, but the row is neither written nor counted, and the import reports
  \<open>Import failed\<close>, because \<open>yesNo\<close> calls \<open>toLowerCase\<close> on the boolean. With a
  complete row before it and a complete row after it, the first is written and the
  third, which has a date and a customer too, is not. The same row with \<open>"sold":
  "true"\<close> is written and counted, and so is the row of a spreadsheet whose \<open>Sold\<close> cell
  is the boolean \<open>true\<close>, which that branch turns into the string \<open>"true"\<close>.
\<close>

theorem import_fails_on_boolean_cell:
  "normalizeImportedLead (jsonLead ''2024-01-02'' ''Bob'' (JBool True)) = None
   \<and> handleFileImport year (Json (JArray [jsonLead ''2024-01-02'' ''Bob'' (JBool True)]))
        ''leads.json'' text
       = \<lparr> writes = [], importStatus = ImportFailed, scorecardAttempted = False \<rparr>
   \<and> handleFileImport year
        (Json (JArray [jsonLead ''2024-01-01'' ''Ann'' (JString ''yes''),
                       jsonLead ''2024-01-02'' ''Bob'' (JBool True),
                       jsonLead ''2024-01-03'' ''Cy'' (JString [])]))
        ''leads.json'' text
       = \<lparr> writes = [importedDocument ''2024-01-01'' ''Ann'' Yes],
           importStatus = ImportFailed, scorecardAttempted = False \<rparr>
   \<and> handleFileImport year (Json (JArray [jsonLead ''2024-01-02'' ''Bob'' (JString ''true'')]))
        ''leads.json'' text
       = \<lparr> writes = [importedDocument ''2024-01-02'' ''Bob'' No],
           importStatus = Imported 1 ''leads.json'', scorecardAttempted = False \<rparr>
   \<and> handleFileImport year
        (Sheet [[(''Date'', ''2024-01-02''), (''Customer'', ''Bob''), (''Sold'', ''true'')]])
        ''leads.xlsx'' text
       = \<lparr> writes = [importedDocument ''2024-01-02'' ''Bob'' No],
           importStatus = Imported 1 ''leads.xlsx'', scorecardAttempted = False \<rparr>"
proof -
  have acc: "accepted (importedDocument d c s) = (d \<noteq> [] \<and> c \<noteq> [])" for d c s
    by (simp add: accepted_def importedDocument_def truthy_def)
  have wr: "written (importedDocument d c s) = importedDocument d c s" for d c s
    by (simp add: written_def importedDocument_def)
  have csv: "\<not> endsWith (toLowerCase ''leads.json'') ''.csv''"
    "\<not> endsWith (toLowerCase ''leads.json'') ''.tsv''"
    "\<not> endsWith (toLowerCase ''leads.xlsx'') ''.csv''"
    "\<not> endsWith (toLowerCase ''leads.xlsx'') ''.tsv''"
    by (simp_all add: endsWith_def toLowerCase_def lowerChar_def)
  have e1: "handleFileImport year (Json (JArray [jsonLead ''2024-01-02'' ''Bob'' (JBool True)]))
        ''leads.json'' text
       = \<lparr> writes = [], importStatus = ImportFailed, scorecardAttempted = False \<rparr>"
    by (simp add: handleFileImport_def fileRows_def json_name jsonLead_true)
  have e2: "handleFileImport year
        (Json (JArray [jsonLead ''2024-01-01'' ''Ann'' (JString ''yes''),
                       jsonLead ''2024-01-02'' ''Bob'' (JBool True),
                       jsonLead ''2024-01-03'' ''Cy'' (JString [])]))
        ''leads.json'' text
       = \<lparr> writes = [importedDocument ''2024-01-01'' ''Ann'' Yes],
           importStatus = ImportFailed, scorecardAttempted = False \<rparr>"
    using acc [of "''2024-01-01''" "''Ann''" Yes]
    by (simp add: handleFileImport_def fileRows_def json_name jsonLead_true jsonLead_plain wr
        accepted_def)
  have e3: "handleFileImport year (Json (JArray [jsonLead ''2024-01-02'' ''Bob'' (JString ''true'')]))
        ''leads.json'' text
       = \<lparr> writes = [importedDocument ''2024-01-02'' ''Bob'' No],
           importStatus = Imported 1 ''leads.json'', scorecardAttempted = False \<rparr>"
    using acc [of "''2024-01-02''" "''Bob''" No]
    by (simp add: handleFileImport_def fileRows_def json_name jsonLead_plain wr csv accepted_def)
  have e4: "handleFileImport year
        (Sheet [[(''Date'', ''2024-01-02''), (''Customer'', ''Bob''), (''Sold'', ''true'')]])
        ''leads.xlsx'' text
       = \<lparr> writes = [importedDocument ''2024-01-02'' ''Bob'' No],
           importStatus = Imported 1 ''leads.xlsx'', scorecardAttempted = False \<rparr>"
    using acc [of "''2024-01-02''" "''Bob''" No]
      jsonLead_plain(2) [of "''2024-01-02''" "''Bob''"]
    by (simp add: handleFileImport_def fileRows_def json_name sheet_bob jsonLead_def wr csv
        accepted_def)
  from jsonLead_true e1 e2 e3 e4 show ?thesis by blast
qed

text \<open>
  Claim C5. Every document that an import writes (from a row or from the scorecard) has
  \<open>jobWon\<close> equal to \<open>sold\<close>; the document written for a mapped row takes its
  \<open>jobWon\<close> from the row's \<open>sold\<close>, whatever the aliasing of the \<open>sold\<close> and
  \<open>job won\<close> columns gave for \<open>jobWon\<close>; and the document of a manual save has
  \<open>jobWon\<close> equal to \<open>sold\<close>, which is the form's \<open>sold\<close>.
\<close>

theorem jobWon_mirrors_sold:
  "(\<forall>d \<in> set (writes (handleFileImport year external name text)). jobWon d = sold d)
   \<and> (\<forall>lead. normalizeImportedLead r = Some lead \<longrightarrow>
          jobWon (written lead) = sold lead \<and> sold (written lead) = sold lead)
   \<and> (\<forall>w. saveLead signedIn form editingId = Some w \<longrightarrow>
          jobWon (payload w) = sold (payload w) \<and> sold (payload w) = sold form)"
proof -
  have p1: "\<forall>d \<in> set (writes (handleFileImport year external name text)). jobWon d = sold d"
  proof (cases "fileRows external (toLowerCase name) text")
    case None
    then show ?thesis using handleFileImport_no_rows [of external name "text" year] by simp
  next
    case (Some rs)
    show ?thesis
    proof (cases "rs = []")
      case True
      with Some show ?thesis using handleFileImport_no_rows [of external name "text" year] by simp
    next
      case False
      show ?thesis
      proof (cases "list_all returns rs")
        case True
        show ?thesis
          by (auto simp: handleFileImport_rows [OF Some False True] Let_def written_mirror)
      next
        case False
        show ?thesis
          by (auto simp: handleFileImport_throws [OF Some False] written_mirror)
      qed
    qed
  qed
  have p2: "\<forall>lead. normalizeImportedLead r = Some lead \<longrightarrow>
          jobWon (written lead) = sold lead \<and> sold (written lead) = sold lead"
    by (simp add: written_def)
  have p3: "\<forall>w. saveLead signedIn form editingId = Some w \<longrightarrow>
          jobWon (payload w) = sold (payload w) \<and> sold (payload w) = sold form"
    by (auto simp: saveLead_def Let_def split: if_splits option.splits)
  from p1 p2 p3 show ?thesis by blast
qed

theorem jobWon_mirrors_sold_witness:
  "(\<exists>lead. normalizeImportedLead
       (JObject [(''date'', JString ''2024-01-02''), (''name'', JString ''Bob''),
                 (''sold'', JString ''no''), (''job won'', JString ''YES'')]) = Some lead
      \<and> jobWon lead = Yes \<and> sold lead = No \<and> jobWon (written lead) = No)
   \<and> writes (handleFileImport 2026 ParseFails ''a.csv'' leadsText) \<noteq> []
   \<and> list_all (\<lambda>d. jobWon d = No \<and> sold d = No)
        (writes (handleFileImport 2026 ParseFails ''a.csv'' leadsText))
   \<and> saveLead True (emptyLead\<lparr>jobWon := No, sold := Yes\<rparr>) None
       = Some (AddDoc (emptyLead\<lparr>jobWon := Yes, sold := Yes\<rparr>))
   \<and> jobWon (payload (AddDoc (emptyLead\<lparr>jobWon := Yes, sold := Yes\<rparr>))) = Yes"
proof -
  let ?r = "JObject [(''date'', JString ''2024-01-02''), (''name'', JString ''Bob''),
                     (''sold'', JString ''no''), (''job won'', JString ''YES'')]"
  obtain lead where l: "normalizeImportedLead ?r = Some lead"
    and e: "jobWon lead = Yes" "sold lead = No"
    by (simp add: leads_normalized orElse_def toLowerCase_def lowerChar_def)
  have s: "saveLead True (emptyLead\<lparr>jobWon := No, sold := Yes\<rparr>) None
       = Some (AddDoc (emptyLead\<lparr>jobWon := Yes, sold := Yes\<rparr>))"
    by (simp add: saveLead_def emptyLead_def)
  have w: "writes (handleFileImport 2026 ParseFails ''a.csv'' leadsText) \<noteq> []"
    by (simp add: import_three_rows(2))
  note inst = jobWon_mirrors_sold [of 2026 ParseFails "''a.csv''" leadsText ?r True
      "emptyLead\<lparr>jobWon := No, sold := Yes\<rparr>" None]
  from inst l have m: "jobWon (written lead) = sold lead" by blast
  from inst s have sv: "jobWon (payload (AddDoc (emptyLead\<lparr>jobWon := Yes, sold := Yes\<rparr>)))
              = sold (payload (AddDoc (emptyLead\<lparr>jobWon := Yes, sold := Yes\<rparr>)))"
    by blast
  from inst have all: "\<forall>d \<in> set (writes (handleFileImport 2026 ParseFails ''a.csv'' leadsText)).
      jobWon d = sold d" by blast
  have ws: "list_all (\<lambda>d. jobWon d = No \<and> sold d = No)
        (writes (handleFileImport 2026 ParseFails ''a.csv'' leadsText))"
    using all by (simp add: import_three_rows(2))
  have "\<exists>lead. normalizeImportedLead ?r = Some lead
      \<and> jobWon lead = Yes \<and> sold lead = No \<and> jobWon (written lead) = No"
    using l e m by simp
  with w ws s sv show ?thesis by (simp add: emptyLead_def)
qed

lemma mapped_date:
  "normalizeImportedLead r = Some lead \<Longrightarrow> pick r [''date''] = Some (date lead)"
  by (auto simp: normalizeImportedLead_def bind_eq_Some_conv)

lemma no_date_rejected:
  "property r ''date'' = None \<Longrightarrow> normalizeImportedLead r = Some lead \<Longrightarrow> \<not> accepted lead"
proof -
  assume n: "property r ''date'' = None" and l: "normalizeImportedLead r = Some lead"
  from mapped_date [OF l] have "date lead = JString []"
    using n by (simp add: normalize_keys split: if_splits)
  then show ?thesis by (simp add: accepted_def truthy_def)
qed

lemma scorecard_rows:
  "length (csvToRows scorecardText) = 3"
  "map (\<lambda>r. property r ''date'') (csvToRows scorecardText) = [None, None, None]"
  by (simp_all add: csvToRows_def scorecard_matrix Let_def rowOf_def cellAt_def property_def
      normalizeHeader_def isGap_def string_eval)

lemma scorecard_rows_rejected:
  "filter accepted (mappedLeads (csvToRows scorecardText)) = []"
proof -
  have "\<forall>r \<in> set (csvToRows scorecardText). property r ''date'' = None"
    using scorecard_rows(2) by (metis (no_types, lifting) empty_iff empty_set imageI list.set_map
        set_ConsD)
  then show ?thesis
    using no_date_rejected
    by (fastforce simp: filter_empty_conv mappedLeads_def List.map_filter_def)
qed

text \<open>
  Claim C2, as amended. The scorecard transformer is attempted exactly when the
  lower-cased file name ends in \<open>.csv\<close> or \<open>.tsv\<close>, the file has at least one data
  row, and no row is accepted; what the import then writes is the transformer's leads.
  It is not attempted for any other name, nor for a file without data rows. (Every row
  of the tabular reader is mapped: the mapped leads are as many as the rows.)
\<close>

theorem scorecard_fallback_gate:
  "scorecardAttempted (handleFileImport year external name text) =
     ((endsWith (toLowerCase name) ''.csv'' \<or> endsWith (toLowerCase name) ''.tsv'')
      \<and> csvToRows text \<noteq> []
      \<and> filter accepted (mappedLeads (csvToRows text)) = [])
   \<and> (scorecardAttempted (handleFileImport year external name text) \<longrightarrow>
        writes (handleFileImport year external name text)
          = map written (map document (parseScorecardToLeads year text)))
   \<and> length (mappedLeads (csvToRows text)) = length (csvToRows text)"
proof (cases "endsWith (toLowerCase name) ''.csv'' \<or> endsWith (toLowerCase name) ''.tsv''")
  case True
  note rs = fileRows_csv [OF True, of external "text"]
  show ?thesis
  proof (cases "csvToRows text = []")
    case True
    with rs show ?thesis
      using handleFileImport_no_rows [of external name "text" year]
      by (simp add: mappedLeads_def List.map_filter_simps)
  next
    case False
    show ?thesis
      using True mappedLeads_length [OF csvToRows_returns, of "text"]
      by (simp add: handleFileImport_rows [OF rs False csvToRows_returns] Let_def False)
  qed
next
  case False
  have "\<not> scorecardAttempted (handleFileImport year external name text)"
  proof (cases "fileRows external (toLowerCase name) text")
    case None
    then show ?thesis using handleFileImport_no_rows [of external name "text" year] by simp
  next
    case (Some rs)
    show ?thesis
    proof (cases "rs = []")
      case True
      with Some show ?thesis using handleFileImport_no_rows [of external name "text" year] by simp
    next
      case nonempty: False
      show ?thesis
      proof (cases "list_all returns rs")
        case True
        show ?thesis
          using False by (simp add: handleFileImport_rows [OF Some nonempty True] Let_def)
      next
        case throws: False
        show ?thesis
          by (simp add: handleFileImport_throws [OF Some throws])
      qed
    qed
  qed
  with False show ?thesis
    using mappedLeads_length [OF csvToRows_returns, of "text"] by simp
qed

theorem scorecard_fallback_gate_witness:
  "scorecardAttempted (handleFileImport 2026 ParseFails ''Scorecard.CSV'' scorecardText)
   \<and> writes (handleFileImport 2026 ParseFails ''Scorecard.CSV'' scorecardText)
       = map written (map document (parseScorecardToLeads 2026 scorecardText))
   \<and> length (writes (handleFileImport 2026 ParseFails ''Scorecard.CSV'' scorecardText)) = 3"
proof -
  have n: "endsWith (toLowerCase ''Scorecard.CSV'') ''.csv''"
    by (simp add: endsWith_def toLowerCase_def lowerChar_def)
  have ne: "csvToRows scorecardText \<noteq> []"
    using scorecard_rows(1) by auto
  from scorecard_fallback_gate [of 2026 ParseFails "''Scorecard.CSV''" scorecardText]
    n ne scorecard_rows_rejected
  have a: "scorecardAttempted (handleFileImport 2026 ParseFails ''Scorecard.CSV'' scorecardText)"
    and w: "writes (handleFileImport 2026 ParseFails ''Scorecard.CSV'' scorecardText)
       = map written (map document (parseScorecardToLeads 2026 scorecardText))"
    by simp_all
  from a w show ?thesis by (simp add: scorecard_leads)
qed

text \<open>
  Claim C2 as stated fails for an unrecognized extension: the scorecard file under the
  name \<open>scorecard.txt\<close> goes through the tabular reader and the row mapper, which
  accepts none of its three rows, and the transformer, which would make leads of it, is
  not attempted: nothing is written.
\<close>

theorem scorecard_not_attempted_counterexample:
  "\<not> endsWith (toLowerCase ''scorecard.txt'') ''.json''
   \<and> \<not> endsWith (toLowerCase ''scorecard.txt'') ''.xlsx''
   \<and> \<not> endsWith (toLowerCase ''scorecard.txt'') ''.xls''
   \<and> length (csvToRows scorecardText) = 3
   \<and> filter accepted (mappedLeads (csvToRows scorecardText)) = []
   \<and> \<not> scorecardAttempted (handleFileImport 2026 ParseFails ''scorecard.txt'' scorecardText)
   \<and> writes (handleFileImport 2026 ParseFails ''scorecard.txt'' scorecardText) = []
   \<and> parseScorecardToLeads 2026 scorecardText \<noteq> []"
proof -
  have ext: "\<not> endsWith (toLowerCase ''scorecard.txt'') ''.json''"
    "\<not> endsWith (toLowerCase ''scorecard.txt'') ''.xlsx''"
    "\<not> endsWith (toLowerCase ''scorecard.txt'') ''.xls''"
    "\<not> endsWith (toLowerCase ''scorecard.txt'') ''.csv''"
    "\<not> endsWith (toLowerCase ''scorecard.txt'') ''.tsv''"
    by (simp_all add: endsWith_def toLowerCase_def lowerChar_def)
  have rs: "fileRows ParseFails (toLowerCase ''scorecard.txt'') scorecardText
              = Some (csvToRows scorecardText)"
    using ext by (simp add: fileRows_def)
  have ne: "csvToRows scorecardText \<noteq> []"
    using scorecard_rows(1) by auto
  have r: "handleFileImport 2026 ParseFails ''scorecard.txt'' scorecardText
      = \<lparr> writes = [], importStatus = ImportedNothing, scorecardAttempted = False \<rparr>"
    using ext
    by (simp add: handleFileImport_rows [OF rs ne csvToRows_returns] Let_def scorecard_rows_rejected)
  show ?thesis
    using ext scorecard_rows(1) scorecard_rows_rejected by (simp add: r scorecard_leads)
qed

subsection \<open>Tabular reader\<close>

lemma commaLoop_quote:
  "commaLoop vals cur inq (DQUOTE # rest) =
     (if inq \<and> rest \<noteq> [] \<and> hd rest = DQUOTE then commaLoop vals (cur @ [DQUOTE]) inq (tl rest)
      else commaLoop vals cur (\<not> inq) rest)"
  by (cases rest) simp_all

lemma commaLoop_other:
  "ch \<noteq> DQUOTE \<Longrightarrow>
   commaLoop vals cur inq (ch # rest) =
     (if ch = CHR '','' \<and> \<not> inq then commaLoop (vals @ [trim cur]) [] inq rest
      else commaLoop vals (cur @ [ch]) inq rest)"
  by (cases rest) simp_all

lemma commaLoop_inside:
  "DQUOTE \<notin> set q \<Longrightarrow> commaLoop vals cur True (q @ rest) = commaLoop vals (cur @ q) True rest"
proof (induction q arbitrary: cur)
  case Nil
  then show ?case by simp
next
  case (Cons c q)
  then have "c \<noteq> DQUOTE" and q: "DQUOTE \<notin> set q" by auto
  then have "commaLoop vals cur True ((c # q) @ rest) = commaLoop vals (cur @ [c]) True (q @ rest)"
    by (simp add: commaLoop_other)
  also have "\<dots> = commaLoop vals ((cur @ [c]) @ q) True rest"
    by (rule Cons.IH [OF q])
  finally show ?case by simp
qed

lemma quoted_field:
  assumes "DQUOTE \<notin> set q"
  shows "commaLoop [] [] False (DQUOTE # q @ [DQUOTE]) = [trim q]"
proof -
  have "commaLoop [] [] False (DQUOTE # q @ [DQUOTE]) = commaLoop [] [] True (q @ [DQUOTE])"
    by (simp add: commaLoop_quote)
  also have "\<dots> = commaLoop [] q True [DQUOTE]"
    using commaLoop_inside [OF assms, of "[]" "[]" "[DQUOTE]"] by simp
  also have "\<dots> = [trim q]"
    by simp
  finally show ?thesis .
qed

lemma escaped_quote:
  assumes "DQUOTE \<notin> set a" and "DQUOTE \<notin> set b"
  shows "commaLoop [] [] False (DQUOTE # a @ [DQUOTE, DQUOTE] @ b @ [DQUOTE])
           = [trim (a @ [DQUOTE] @ b)]"
proof -
  have "commaLoop [] [] False (DQUOTE # a @ [DQUOTE, DQUOTE] @ b @ [DQUOTE])
          = commaLoop [] [] True (a @ (DQUOTE # DQUOTE # b @ [DQUOTE]))"
    by (simp add: commaLoop_quote)
  also have "\<dots> = commaLoop [] a True (DQUOTE # DQUOTE # b @ [DQUOTE])"
    using commaLoop_inside [OF assms(1), of "[]" "[]"] by simp
  also have "\<dots> = commaLoop [] (a @ [DQUOTE]) True (b @ [DQUOTE])"
    by (simp add: commaLoop_quote)
  also have "\<dots> = commaLoop [] ((a @ [DQUOTE]) @ b) True [DQUOTE]"
    by (rule commaLoop_inside [OF assms(2)])
  also have "\<dots> = [trim (a @ [DQUOTE] @ b)]"
    by simp
  finally show ?thesis .
qed

text \<open>
  Claim C8, as amended. \<open>csvToMatrix\<close> keeps the lines that are not empty once their
  trailing white space is removed, and chooses the delimiter once, from the first kept
  line: if it contains a tab, every kept line is split on tabs and the cells trimmed,
  with no treatment of quotes; otherwise every kept line goes through the comma loop. In
  the comma loop a cell in double quotes is one cell, whatever commas it holds, and two
  double quotes in a row inside quotes give one quote character in the cell.
\<close>

theorem csvToMatrix_delimiter:
  "csvToMatrix text =
     (if csvLines text = [] then []
      else if TAB \<in> set (hd (csvLines text))
        then map (\<lambda>l. map trim (splitOn TAB l)) (csvLines text)
        else map (commaLoop [] [] False) (csvLines text))
   \<and> (DQUOTE \<notin> set q \<longrightarrow> commaLoop [] [] False (DQUOTE # q @ [DQUOTE]) = [trim q])
   \<and> (DQUOTE \<notin> set a \<and> DQUOTE \<notin> set b \<longrightarrow>
        commaLoop [] [] False (DQUOTE # a @ [DQUOTE, DQUOTE] @ b @ [DQUOTE])
          = [trim (a @ [DQUOTE] @ b)])"
proof -
  have d: "csvToMatrix text =
     (if csvLines text = [] then []
      else if TAB \<in> set (hd (csvLines text))
        then map (\<lambda>l. map trim (splitOn TAB l)) (csvLines text)
        else map (commaLoop [] [] False) (csvLines text))"
    by (cases "csvLines text") (simp_all add: csvToMatrix_def Let_def parseLine_def)
  from d quoted_field escaped_quote show ?thesis by blast
qed

lemmas matrix_eval = csvToMatrix_def csvLines_def consHead_def parseLine_def string_eval Let_def

theorem csvToMatrix_delimiter_witness:
  "DQUOTE \<notin> set ''a, b'' \<and> DQUOTE \<notin> set ''c'' \<and> DQUOTE \<notin> set ''1,2''
   \<and> commaLoop [] [] False (DQUOTE # ''a, b'' @ [DQUOTE, DQUOTE] @ ''c'' @ [DQUOTE])
       = [''a, b'' @ [DQUOTE] @ ''c'']
   \<and> commaLoop [] [] False (DQUOTE # ''1,2'' @ [DQUOTE]) = [''1,2'']
   \<and> csvToMatrix quotedText = [[''x'', ''a, b'' @ [DQUOTE] @ ''c''], [''1,2'']]
   \<and> csvToMatrix tabbedText = [[''x'', [DQUOTE, CHR ''a''], [CHR ''b'', DQUOTE]], [''1,2'']]"
proof -
  have h: "DQUOTE \<notin> set ''a, b''" "DQUOTE \<notin> set ''c''" "DQUOTE \<notin> set ''1,2''"
    by simp_all
  have t: "trim (''a, b'' @ [DQUOTE] @ ''c'') = ''a, b'' @ [DQUOTE] @ ''c''" "trim ''1,2'' = ''1,2''"
    by (simp_all add: string_eval)
  note inst = csvToMatrix_delimiter [of quotedText "''1,2''" "''a, b''" "''c''"]
  from inst h have "commaLoop [] [] False (DQUOTE # ''a, b'' @ [DQUOTE, DQUOTE] @ ''c'' @ [DQUOTE])
       = [trim (''a, b'' @ [DQUOTE] @ ''c'')]"
    by blast
  then have c1: "commaLoop [] [] False (DQUOTE # ''a, b'' @ [DQUOTE, DQUOTE] @ ''c'' @ [DQUOTE])
       = [''a, b'' @ [DQUOTE] @ ''c'']"
    by (simp only: t)
  from inst h have "commaLoop [] [] False (DQUOTE # ''1,2'' @ [DQUOTE]) = [trim ''1,2'']"
    by blast
  then have c2: "commaLoop [] [] False (DQUOTE # ''1,2'' @ [DQUOTE]) = [''1,2'']"
    by (simp only: t)
  have m1: "csvToMatrix quotedText = [[''x'', ''a, b'' @ [DQUOTE] @ ''c''], [''1,2'']]"
    by (simp add: quotedText_def matrix_eval)
  have m2: "csvToMatrix tabbedText = [[''x'', [DQUOTE, CHR ''a''], [CHR ''b'', DQUOTE]], [''1,2'']]"
    by (simp add: tabbedText_def matrix_eval)
  from h c1 c2 m1 m2 show ?thesis by blast
qed

text \<open>
  Claim C8 as stated fails when the tabs of the first non-empty line are at its end: the
  first line of the file below is \<open>a\<close> and a tab, and the file is still read as
  comma-separated, so the second line stays one cell with a tab in it; split on tabs it
  would be the matrix on the last line.
\<close>

theorem csvToMatrix_trailing_tab_counterexample:
  "TAB \<in> set (hd (filter (\<lambda>l. l \<noteq> []) (splitLines trailingTabText)))
   \<and> csvToMatrix trailingTabText = [[''a''], [[CHR ''b'', TAB, CHR ''c'']]]
   \<and> map (\<lambda>l. map trim (splitOn TAB l)) (filter (\<lambda>l. l \<noteq> []) (splitLines trailingTabText))
       = [[''a'', []], [''b'', ''c'']]"
  by (simp add: trailingTabText_def matrix_eval)

subsection \<open>Weekly source performance\<close>

lemma april_window:
  "numberAt (splitOn (CHR ''-'') ''2024-04'') 0 = Num 2024"
  "numberAt (splitOn (CHR ''-'') ''2024-04'') 1 = Num 4"
  "numberAt (splitOn (CHR ''-'') ''1-7'') 0 = Num 1"
  "numberAt (splitOn (CHR ''-'') ''1-7'') 1 = Num 7"
  by (simp_all add: numberAt_def number_eval)

lemma iso_april_3: "isoDate ''2024-04-03'' = Some (2024, 4, 3)"
  by (simp add: isoDate_def isDigit_def digitsValue_def digitVal_def daysInMonth_def)

lemma in_april_week:
  "date l = ''2024-04-03'' \<Longrightarrow> inWindow isoDate (Num 2024) (Num 4) (Num 1) (Num 7) l"
  by (simp add: inWindow_def iso_april_3 numOfNat_def)

lemma money_50: "parseMoney ''$50'' = Num 50"
  by (simp add: parseMoney_def number_eval)

lemma reply_empty: "replyTimeMinutes l = [] \<Longrightarrow> averageOf (replyTimesOf [l]) = Num 0"
  by (simp add: averageOf_def replyTimesOf_def List.map_filter_def getReplyMinutes_def
      sumNumbers_def numOfNat_def number_eval)

text \<open>
  Claim C10, at an input where the code departs from it. The lead above lies in the
  window 1-7 of April 2024 and cost \<open>$50\<close>, but its source \<open>constructor\<close> is found on
  the prototype of the accumulator object, so no group is made for it: the view has no
  row and its totals are all \<open>0\<close>, where direct aggregation over the one filtered lead
  gives one lead, one booked and a spend of 50, as the totals do once the same lead has
  the source \<open>Yelp\<close>.
\<close>

theorem weekly_drops_inherited_key:
  "inWindow isoDate (Num 2024) (Num 4) (Num 1) (Num 7) inheritedKeyLead
   \<and> parseMoney (leadCost inheritedKeyLead) = Num 50
   \<and> booked inheritedKeyLead = Yes
   \<and> weekly isoDate [inheritedKeyLead] ''2024-04'' ''1-7''
       = \<lparr> rows = [],
           totals = \<lparr> spend = Num 0, leads_n = 0, booked_n = 0, sold_n = 0, cancelled_n = 0,
                      soldAmount_n = Num 0, revenue_n = Num 0, avgReplyMins = Num 0 \<rparr> \<rparr>
   \<and> totals (weekly isoDate [inheritedKeyLead\<lparr>leadSource := ''Yelp''\<rparr>] ''2024-04'' ''1-7'')
       = \<lparr> spend = Num 50, leads_n = 1, booked_n = 1, sold_n = 0, cancelled_n = 0,
           soldAmount_n = Num 0, revenue_n = Num 0, avgReplyMins = Num 0 \<rparr>"
proof -
  have w: "inWindow isoDate (Num 2024) (Num 4) (Num 1) (Num 7) inheritedKeyLead"
    by (rule in_april_week) (simp add: inheritedKeyLead_def emptyLead_def)
  have w2: "inWindow isoDate (Num 2024) (Num 4) (Num 1) (Num 7) (inheritedKeyLead\<lparr>leadSource := ''Yelp''\<rparr>)"
    by (rule in_april_week) (simp add: inheritedKeyLead_def emptyLead_def)
  have m: "parseMoney (leadCost inheritedKeyLead) = Num 50"
    by (simp add: inheritedKeyLead_def emptyLead_def money_50)
  have b: "booked inheritedKeyLead = Yes"
    by (simp add: inheritedKeyLead_def emptyLead_def)
  have r: "averageOf (replyTimesOf [inheritedKeyLead]) = Num 0"
    "averageOf (replyTimesOf [inheritedKeyLead\<lparr>leadSource := ''Yelp''\<rparr>]) = Num 0"
    by (rule reply_empty, simp add: inheritedKeyLead_def emptyLead_def)+
  have g: "groupStep [] inheritedKeyLead = []"
    by (simp add: groupStep_def orElse_def objectPrototypeKeys_def inheritedKeyLead_def emptyLead_def)
  have m0: "parseMoney [] = Num 0"
    by (simp add: parseMoney_def number_eval)
  have g2: "groupStep [] (inheritedKeyLead\<lparr>leadSource := ''Yelp''\<rparr>)
      = [(''Yelp'', \<lparr> spend = Num 50, leads_n = 1, booked_n = 1, sold_n = 0, cancelled_n = 0,
           soldAmount_n = Num 0, revenue_n = Num 0 \<rparr>)]"
    by (simp add: groupStep_def orElse_def objectPrototypeKeys_def inheritedKeyLead_def emptyLead_def
        addLead_def zeroSums_def money_50 m0 double_whole)
  have e: "entries [(''Yelp'', v)] = [(''Yelp'', v)]" for v :: Sums
    by (simp add: entries_def isArrayIndex_def isDigit_def)
  have t1: "weekly isoDate [inheritedKeyLead] ''2024-04'' ''1-7''
       = \<lparr> rows = [],
           totals = \<lparr> spend = Num 0, leads_n = 0, booked_n = 0, sold_n = 0, cancelled_n = 0,
                      soldAmount_n = Num 0, revenue_n = Num 0, avgReplyMins = Num 0 \<rparr> \<rparr>"
    by (simp only: weekly_def Let_def april_window)
       (simp add: falsy_def w g r entries_def sortBySpend_def zeroTotals_def)
  have t2: "totals (weekly isoDate [inheritedKeyLead\<lparr>leadSource := ''Yelp''\<rparr>] ''2024-04'' ''1-7'')
       = \<lparr> spend = Num 50, leads_n = 1, booked_n = 1, sold_n = 0, cancelled_n = 0,
           soldAmount_n = Num 0, revenue_n = Num 0, avgReplyMins = Num 0 \<rparr>"
    by (simp only: weekly_def Let_def april_window)
       (simp add: falsy_def w2 g2 r e sortBySpend_def sourceRow_def addRow_def zeroTotals_def
          double_whole)
  from w m b t1 t2 show ?thesis by blast
qed

lemma map_of_None_fst: "map_of acc k = None \<Longrightarrow> k \<notin> fst ` set acc"
  by (simp add: map_of_eq_None_iff)

lemma groupStep_keys:
  "map fst (groupStep acc l) =
     (let key = orElse (leadSource l) ''Unknown''
      in if key \<in> set (map fst acc) \<or> key \<in> set objectPrototypeKeys then map fst acc
         else map fst acc @ [key])"
proof (cases "map_of acc (orElse (leadSource l) ''Unknown'')")
  case None
  then show ?thesis
    using map_of_None_fst [OF None] by (simp add: groupStep_def Let_def)
next
  case (Some g)
  then have "orElse (leadSource l) ''Unknown'' \<in> fst ` set acc"
    by (metis domI dom_map_of_conv_image_fst)
  moreover have "map fst (map (\<lambda>(k, v). if k = key then (k, addLead v l) else (k, v)) acc) = map fst acc"
    for key
    by (induction acc) auto
  ultimately show ?thesis
    using Some by (simp add: groupStep_def Let_def)
qed

lemma groupStep_distinct: "distinct (map fst acc) \<Longrightarrow> distinct (map fst (groupStep acc l))"
  by (simp add: groupStep_keys Let_def)

lemma grouped_distinct: "distinct (map fst acc) \<Longrightarrow> distinct (map fst (foldl groupStep acc fs))"
  by (induction fs arbitrary: acc) (simp_all add: groupStep_distinct)

text \<open>Updating the one entry of a key changes a sum over the entries by the change of that entry.\<close>

lemma update_sum:
  fixes f :: "Sums \<Rightarrow> 'b :: comm_monoid_add"
  assumes "distinct (map fst acc)" and "map_of acc key = Some g"
  shows "sum_list (map (\<lambda>e. f (snd e)) (map (\<lambda>(k, v). if k = key then (k, h v) else (k, v)) acc)) + f g
         = sum_list (map (\<lambda>e. f (snd e)) acc) + f (h g)"
  using assms
proof (induction acc)
  case Nil
  then show ?case by simp
next
  case (Cons e acc)
  obtain k v where e: "e = (k, v)" by (cases e)
  show ?case
  proof (cases "k = key")
    case True
    with Cons.prems e have g: "v = g" and notin: "key \<notin> fst ` set acc" by auto
    have same: "map (\<lambda>(k, v). if k = key then (k, h v) else (k, v)) acc = acc"
      using notin by (induction acc) auto
    show ?thesis using True e g same by (simp add: ac_simps)
  next
    case False
    with Cons.prems e have "distinct (map fst acc)" and "map_of acc key = Some g" by auto
    note ih = Cons.IH [OF this]
    let ?u = "map (\<lambda>(k, v). if k = key then (k, h v) else (k, v)) acc"
    have "f v + sum_list (map (\<lambda>e. f (snd e)) ?u) + f g
          = f v + (sum_list (map (\<lambda>e. f (snd e)) ?u) + f g)"
      by (simp only: add.assoc)
    also have "\<dots> = f v + (sum_list (map (\<lambda>e. f (snd e)) acc) + f (h g))"
      by (simp only: ih)
    also have "\<dots> = f v + sum_list (map (\<lambda>e. f (snd e)) acc) + f (h g)"
      by (simp only: add.assoc)
    finally show ?thesis using False e by simp
  qed
qed

lemma groupStep_sum:
  fixes f :: "Sums \<Rightarrow> nat"
  assumes step: "\<And>g. f (addLead g l) = f g + c" and zero: "f zeroSums = 0"
    and dist: "distinct (map fst acc)"
    and safe: "orElse (leadSource l) ''Unknown'' \<notin> set objectPrototypeKeys"
  shows "sum_list (map (\<lambda>e. f (snd e)) (groupStep acc l)) = sum_list (map (\<lambda>e. f (snd e)) acc) + c"
proof (cases "map_of acc (orElse (leadSource l) ''Unknown'')")
  case None
  then show ?thesis using safe step zero by (simp add: groupStep_def Let_def)
next
  case (Some g)
  from update_sum [OF dist Some, of f "\<lambda>v. addLead v l"] step
  show ?thesis using Some by (simp add: groupStep_def Let_def)
qed

lemma grouped_sum:
  fixes f :: "Sums \<Rightarrow> nat"
  assumes step: "\<And>g l. f (addLead g l) = f g + c l" and zero: "f zeroSums = 0"
    and dist: "distinct (map fst acc)"
    and safe: "\<forall>l \<in> set fs. orElse (leadSource l) ''Unknown'' \<notin> set objectPrototypeKeys"
  shows "sum_list (map (\<lambda>e. f (snd e)) (foldl groupStep acc fs))
         = sum_list (map (\<lambda>e. f (snd e)) acc) + sum_list (map c fs)"
  using dist safe
proof (induction fs arbitrary: acc)
  case Nil
  then show ?case by simp
next
  case (Cons l fs)
  have s: "sum_list (map (\<lambda>e. f (snd e)) (groupStep acc l)) = sum_list (map (\<lambda>e. f (snd e)) acc) + c l"
    using Cons.prems by (intro groupStep_sum step zero) auto
  have "sum_list (map (\<lambda>e. f (snd e)) (foldl groupStep (groupStep acc l) fs))
        = sum_list (map (\<lambda>e. f (snd e)) (groupStep acc l)) + sum_list (map c fs)"
    using Cons.prems by (intro Cons.IH groupStep_distinct) auto
  then show ?case using s by simp
qed

lemma insort_sum:
  fixes F :: "'a \<Rightarrow> 'b :: comm_monoid_add"
  shows "sum_list (map F (insort_key k x xs)) = F x + sum_list (map F xs)"
  by (induction xs) (simp_all add: ac_simps)

lemma sort_sum:
  fixes F :: "'a \<Rightarrow> 'b :: comm_monoid_add"
  shows "sum_list (map F (sort_key k xs)) = sum_list (map F xs)"
  by (induction xs) (simp_all add: insort_sum)

lemma partition_sum:
  fixes F :: "'a \<Rightarrow> 'b :: comm_monoid_add"
  shows "sum_list (map F (filter P xs)) + sum_list (map F (filter (\<lambda>x. \<not> P x) xs))
         = sum_list (map F xs)"
  by (induction xs) (simp_all add: ac_simps)

lemma entries_sum:
  fixes F :: "string \<times> 'v \<Rightarrow> 'b :: comm_monoid_add"
  shows "sum_list (map F (entries acc)) = sum_list (map F acc)"
proof -
  have "sum_list (map F (entries acc))
        = sum_list (map F (filter (\<lambda>(k, v). isArrayIndex k) acc))
          + sum_list (map F (filter (\<lambda>(k, v). \<not> isArrayIndex k) acc))"
    by (simp add: entries_def sort_sum)
  also have "\<dots> = sum_list (map F acc)"
  proof -
    have eq: "(\<lambda>(k, v). \<not> isArrayIndex k) = (\<lambda>x :: string \<times> 'v. \<not> (case x of (k, v) \<Rightarrow> isArrayIndex k))"
      by auto
    show ?thesis
      by (simp only: eq partition_sum)
  qed
  finally show ?thesis .
qed

lemma insertRow_sum:
  fixes F :: "SourceRow \<Rightarrow> 'b :: comm_monoid_add"
  shows "sum_list (map F (insertRow r xs)) = F r + sum_list (map F xs)"
  by (induction xs) (simp_all add: ac_simps)

lemma sortBySpend_sum:
  fixes F :: "SourceRow \<Rightarrow> 'b :: comm_monoid_add"
  shows "sum_list (map F (sortBySpend xs)) = sum_list (map F xs)"
proof -
  have "sum_list (map F (foldl (\<lambda>sorted r. insertRow r sorted) ys xs))
        = sum_list (map F ys) + sum_list (map F xs)" for ys
    by (induction xs arbitrary: ys) (simp_all add: insertRow_sum ac_simps)
  then show ?thesis by (simp add: sortBySpend_def)
qed

lemma addRow_counts:
  "leads_n (foldl addRow t rs) = leads_n t + sum_list (map leads_n rs)"
  "booked_n (foldl addRow t rs) = booked_n t + sum_list (map booked_n rs)"
  "sold_n (foldl addRow t rs) = sold_n t + sum_list (map sold_n rs)"
  "cancelled_n (foldl addRow t rs) = cancelled_n t + sum_list (map cancelled_n rs)"
  by (induction rs arbitrary: t) (simp_all add: addRow_def)

lemma count_all: "sum_list (map (\<lambda>l. 1 :: nat) fs) = length fs"
  by (induction fs) simp_all

lemma count_filter: "sum_list (map (\<lambda>l. if P l then 1 else 0) fs) = length (filter P fs)"
  by (induction fs) simp_all

text \<open>
  Apart from the inherited keys, the counts of the totals row are those of the filtered
  leads: when the window is valid and no filtered lead has a source that names a
  property of \<open>Object.prototype\<close>, \<open>totals.leads\<close> is the number of filtered leads and
  \<open>totals.booked\<close>, \<open>totals.sold\<close> and \<open>totals.cancelled\<close> are the numbers of
  filtered leads that are booked, sold and cancelled.
\<close>

lemma weekly_counts:
  fixes allLeads :: "'a LeadInput_scheme list" and selectedMonth selectedWeek :: string
    and parseDate :: "string \<Rightarrow> (nat \<times> nat \<times> nat) option"
  defines "year \<equiv> numberAt (splitOn (CHR ''-'') selectedMonth) 0"
    and "month \<equiv> numberAt (splitOn (CHR ''-'') selectedMonth) 1"
    and "startDay \<equiv> numberAt (splitOn (CHR ''-'') selectedWeek) 0"
    and "endDay \<equiv> numberAt (splitOn (CHR ''-'') selectedWeek) 1"
  defines "filtered \<equiv> filter (inWindow parseDate year month startDay endDay) allLeads"
  assumes valid: "\<not> falsy year" "\<not> falsy month" "\<not> falsy startDay" "\<not> falsy endDay"
    and safe: "\<forall>l \<in> set filtered. orElse (leadSource l) ''Unknown'' \<notin> set objectPrototypeKeys"
  shows "leads_n (totals (weekly parseDate allLeads selectedMonth selectedWeek)) = length filtered"
    and "booked_n (totals (weekly parseDate allLeads selectedMonth selectedWeek))
           = length (filter (\<lambda>l. booked l = Yes) filtered)"
    and "sold_n (totals (weekly parseDate allLeads selectedMonth selectedWeek))
           = length (filter (\<lambda>l. sold l = Yes) filtered)"
    and "cancelled_n (totals (weekly parseDate allLeads selectedMonth selectedWeek))
           = length (filter (\<lambda>l. cancelled l = Yes) filtered)"
proof -
  let ?rows = "sortBySpend (map sourceRow (entries (foldl groupStep [] filtered)))"
  have w: "totals (weekly parseDate allLeads selectedMonth selectedWeek)
             = (foldl addRow zeroTotals ?rows)\<lparr> avgReplyMins := averageOf (replyTimesOf filtered) \<rparr>"
    using valid
    by (simp add: weekly_def Let_def year_def month_def startDay_def endDay_def filtered_def)
  have rows: "sum_list (map F ?rows) = sum_list (map (\<lambda>e. F (sourceRow e)) (foldl groupStep [] filtered))"
    for F :: "SourceRow \<Rightarrow> nat"
    by (simp add: sortBySpend_sum entries_sum comp_def)
  have field: "leads_n (sourceRow e) = leads_n (snd e)" "booked_n (sourceRow e) = booked_n (snd e)"
    "sold_n (sourceRow e) = sold_n (snd e)" "cancelled_n (sourceRow e) = cancelled_n (snd e)"
    for e
    by (simp_all add: sourceRow_def split: prod.splits)
  have g1: "sum_list (map (\<lambda>e. leads_n (snd e)) (foldl groupStep [] filtered))
              = sum_list (map (\<lambda>l. 1) filtered)"
    using grouped_sum [of leads_n "\<lambda>l. 1" "[]" filtered] safe
    by (simp add: addLead_def zeroSums_def)
  have g2: "sum_list (map (\<lambda>e. booked_n (snd e)) (foldl groupStep [] filtered))
              = sum_list (map (\<lambda>l. if booked l = Yes then 1 else 0) filtered)"
    using grouped_sum [of booked_n "\<lambda>l. if booked l = Yes then 1 else 0" "[]" filtered] safe
    by (simp add: addLead_def zeroSums_def)
  have g3: "sum_list (map (\<lambda>e. sold_n (snd e)) (foldl groupStep [] filtered))
              = sum_list (map (\<lambda>l. if sold l = Yes then 1 else 0) filtered)"
    using grouped_sum [of sold_n "\<lambda>l. if sold l = Yes then 1 else 0" "[]" filtered] safe
    by (simp add: addLead_def zeroSums_def)
  have g4: "sum_list (map (\<lambda>e. cancelled_n (snd e)) (foldl groupStep [] filtered))
              = sum_list (map (\<lambda>l. if cancelled l = Yes then 1 else 0) filtered)"
    using grouped_sum [of cancelled_n "\<lambda>l. if cancelled l = Yes then 1 else 0" "[]" filtered] safe
    by (simp add: addLead_def zeroSums_def)
  have g1': "sum_list (map (\<lambda>e. leads_n (snd e)) (foldl groupStep [] filtered)) = length filtered"
    by (simp only: g1 count_all)
  show "leads_n (totals (weekly parseDate allLeads selectedMonth selectedWeek)) = length filtered"
    by (simp add: w addRow_counts rows field g1' zeroTotals_def)
  show "booked_n (totals (weekly parseDate allLeads selectedMonth selectedWeek))
           = length (filter (\<lambda>l. booked l = Yes) filtered)"
    by (simp add: w addRow_counts rows field g2 count_filter zeroTotals_def)
  show "sold_n (totals (weekly parseDate allLeads selectedMonth selectedWeek))
           = length (filter (\<lambda>l. sold l = Yes) filtered)"
    by (simp add: w addRow_counts rows field g3 count_filter zeroTotals_def)
  show "cancelled_n (totals (weekly parseDate allLeads selectedMonth selectedWeek))
           = length (filter (\<lambda>l. cancelled l = Yes) filtered)"
    by (simp add: w addRow_counts rows field g4 count_filter zeroTotals_def)
qed

lemma parseMoney_Num: "parseMoney s = Num (numVal (parseMoney s))"
proof -
  obtain r where "parseMoney s = Num r"
    by (cases "toNumber (filter (\<lambda>c. isDigit c \<or> c = CHR ''.'' \<or> c = CHR ''-'') s)")
       (simp_all add: parseMoney_def isFinite_def)
  then show ?thesis by (simp add: numVal_def)
qed

lemma whole_nonneg: "(r::rat) \<in> \<nat> \<Longrightarrow> 0 \<le> r"
  by (auto elim: Nats_cases)

text \<open>The sum of two whole numbers is exact while it stays below \<open>2^53\<close>.\<close>

lemma js_add_exact:
  assumes "a \<in> \<nat>" and "b \<in> \<nat>" and "a + b < 2 ^ 53"
  shows "js_add (Num a) (Num b) = Num (a + b)"
proof -
  from assms(1,2) obtain i j :: nat where ij: "a = of_nat i" "b = of_nat j"
    by (auto elim!: Nats_cases)
  have "(of_nat (i + j) :: rat) < of_nat (2 ^ 53)" using assms(3) ij by simp
  then have "i + j < 2 ^ 53" by (simp only: of_nat_less_iff)
  from toDouble_of_nat [OF this] show ?thesis by (simp add: ij)
qed

lemma nonneg_sum:
  fixes xs :: "rat list"
  shows "\<forall>x \<in> set xs. 0 \<le> x \<Longrightarrow> 0 \<le> sum_list xs"
  by (induction xs) simp_all

lemma member_le_sum:
  fixes xs :: "rat list"
  shows "\<forall>x \<in> set xs. 0 \<le> x \<Longrightarrow> y \<in> set xs \<Longrightarrow> y \<le> sum_list xs"
proof (induction xs)
  case Nil
  then show ?case by simp
next
  case (Cons x xs)
  have rest: "0 \<le> sum_list xs" using Cons.prems by (intro nonneg_sum) simp
  show ?case
  proof (cases "y = x")
    case True
    with rest show ?thesis by simp
  next
    case False
    with Cons have "y \<le> sum_list xs" by simp
    moreover have "0 \<le> x" using Cons.prems by simp
    ultimately show ?thesis by simp
  qed
qed

text \<open>
  One step of the grouping on a money field \<open>f\<close>: while the amounts are whole numbers
  and the sums stay below \<open>2^53\<close>, no addition rounds, every group holds a whole sum and
  the sums of the groups add up to the money of the leads taken so far.
\<close>

lemma groupStep_money:
  fixes f :: "Sums \<Rightarrow> jsnum"
  assumes step: "\<And>g. f (addLead g l) = js_add (f g) (Num c)" and c: "c \<in> \<nat>"
    and zero: "f zeroSums = Num 0"
    and ok: "\<forall>e \<in> set acc. \<exists>r\<in>\<nat>. f (snd e) = Num r"
    and dist: "distinct (map fst acc)"
    and safe: "orElse (leadSource l) ''Unknown'' \<notin> set objectPrototypeKeys"
    and bound: "sum_list (map (\<lambda>e. numVal (f (snd e))) acc) + c < 2 ^ 53"
  shows "(\<forall>e \<in> set (groupStep acc l). \<exists>r\<in>\<nat>. f (snd e) = Num r)
         \<and> sum_list (map (\<lambda>e. numVal (f (snd e))) (groupStep acc l))
             = sum_list (map (\<lambda>e. numVal (f (snd e))) acc) + c"
proof -
  let ?key = "orElse (leadSource l) ''Unknown''"
  let ?S = "sum_list (map (\<lambda>e. numVal (f (snd e))) acc)"
  have vals: "\<forall>x \<in> set (map (\<lambda>e. numVal (f (snd e))) acc). 0 \<le> x"
    using ok by (fastforce simp: numVal_def dest: whole_nonneg)
  have c0: "0 \<le> c" using c by (rule whole_nonneg)
  have S0: "0 \<le> ?S" using vals by (rule nonneg_sum)
  show ?thesis
  proof (cases "map_of acc ?key")
    case None
    have "0 + c < 2 ^ 53" using S0 bound by linarith
    then have new: "f (addLead zeroSums l) = Num c"
      using js_add_exact [of 0 c] c by (simp add: step zero)
    have g: "groupStep acc l = acc @ [(?key, addLead zeroSums l)]"
      using None safe by (simp add: groupStep_def Let_def)
    show ?thesis using ok new c by (auto simp: g numVal_def)
  next
    case (Some g)
    then have mem: "(?key, g) \<in> set acc" by (rule map_of_SomeD)
    with ok obtain r where r: "r \<in> \<nat>" "f g = Num r" by fastforce
    have "numVal (f g) \<in> set (map (\<lambda>e. numVal (f (snd e))) acc)"
      using mem by force
    then have "r \<le> ?S" using member_le_sum [OF vals] r by (simp add: numVal_def)
    then have "r + c < 2 ^ 53" using bound by linarith
    then have upd: "f (addLead g l) = Num (r + c)"
      using js_add_exact [of r c] r c by (simp add: step)
    let ?u = "map (\<lambda>(k, v). if k = ?key then (k, addLead v l) else (k, v)) acc"
    have gs: "groupStep acc l = ?u"
      using Some by (simp add: groupStep_def Let_def)
    have only: "v = g" if "(?key, v) \<in> set acc" for v
      using dist mem that by (meson eq_key_imp_eq_value)
    have okU: "\<forall>e \<in> set ?u. \<exists>r\<in>\<nat>. f (snd e) = Num r"
    proof
      fix e assume "e \<in> set ?u"
      then obtain k v where kv: "(k, v) \<in> set acc"
        and e: "e = (if k = ?key then (k, addLead v l) else (k, v))"
        by auto
      show "\<exists>r\<in>\<nat>. f (snd e) = Num r"
      proof (cases "k = ?key")
        case True
        with kv only have "v = g" by simp
        with True e upd r c show ?thesis by auto
      next
        case False
        with e kv ok show ?thesis by fastforce
      qed
    qed
    from update_sum [OF dist Some, of "\<lambda>s. numVal (f s)" "\<lambda>v. addLead v l"]
    have "sum_list (map (\<lambda>e. numVal (f (snd e))) ?u) + r = ?S + (r + c)"
      using r upd by (simp add: numVal_def)
    then have "sum_list (map (\<lambda>e. numVal (f (snd e))) ?u) = ?S + c" by simp
    with okU show ?thesis by (simp only: gs)
  qed
qed

lemma grouped_money:
  fixes f :: "Sums \<Rightarrow> jsnum"
  assumes step: "\<And>g l. f (addLead g l) = js_add (f g) (Num (c l))"
    and zero: "f zeroSums = Num 0"
    and ok: "\<forall>e \<in> set acc. \<exists>r\<in>\<nat>. f (snd e) = Num r"
    and dist: "distinct (map fst acc)"
    and safe: "\<forall>l \<in> set fs. orElse (leadSource l) ''Unknown'' \<notin> set objectPrototypeKeys"
    and c: "\<forall>l \<in> set fs. c l \<in> \<nat>"
    and bound: "sum_list (map (\<lambda>e. numVal (f (snd e))) acc) + sum_list (map c fs) < 2 ^ 53"
  shows "(\<forall>e \<in> set (foldl groupStep acc fs). \<exists>r\<in>\<nat>. f (snd e) = Num r)
         \<and> sum_list (map (\<lambda>e. numVal (f (snd e))) (foldl groupStep acc fs))
             = sum_list (map (\<lambda>e. numVal (f (snd e))) acc) + sum_list (map c fs)"
  using ok dist safe c bound
proof (induction fs arbitrary: acc)
  case Nil
  then show ?case by simp
next
  case (Cons l fs)
  have rest: "0 \<le> sum_list (map c fs)"
    using Cons.prems(4) by (intro nonneg_sum) (simp add: whole_nonneg)
  have b1: "sum_list (map (\<lambda>e. numVal (f (snd e))) acc) + c l < 2 ^ 53"
    using Cons.prems(5) rest by simp
  have s: "(\<forall>e \<in> set (groupStep acc l). \<exists>r\<in>\<nat>. f (snd e) = Num r)
           \<and> sum_list (map (\<lambda>e. numVal (f (snd e))) (groupStep acc l))
               = sum_list (map (\<lambda>e. numVal (f (snd e))) acc) + c l"
    using Cons.prems b1 by (intro groupStep_money step zero) auto
  have b2: "sum_list (map (\<lambda>e. numVal (f (snd e))) (groupStep acc l)) + sum_list (map c fs)
              < 2 ^ 53"
    using s Cons.prems(5) by (simp add: add.assoc)
  have "(\<forall>e \<in> set (foldl groupStep (groupStep acc l) fs). \<exists>r\<in>\<nat>. f (snd e) = Num r)
        \<and> sum_list (map (\<lambda>e. numVal (f (snd e))) (foldl groupStep (groupStep acc l) fs))
            = sum_list (map (\<lambda>e. numVal (f (snd e))) (groupStep acc l)) + sum_list (map c fs)"
    using s Cons.prems b2 by (intro Cons.IH groupStep_distinct) auto
  then show ?case using s by (simp add: add.assoc)
qed

lemma entries_set: "set (entries acc) = set acc"
  by (auto simp: entries_def)

lemma insertRow_set: "set (insertRow r xs) = insert r (set xs)"
  by (induction xs) auto

lemma sortBySpend_set: "set (sortBySpend xs) = set xs"
proof -
  have "set (foldl (\<lambda>sorted r. insertRow r sorted) ys xs) = set ys \<union> set xs" for ys
    by (induction xs arbitrary: ys) (auto simp: insertRow_set)
  then show ?thesis by (simp add: sortBySpend_def)
qed

lemma addRow_money:
  fixes fT :: "Totals \<Rightarrow> jsnum" and fR :: "SourceRow \<Rightarrow> jsnum"
  assumes step: "\<And>t r. fT (addRow t r) = js_add (fT t) (fR r)"
    and t: "fT t = Num a" "a \<in> \<nat>"
    and ok: "\<forall>r \<in> set rs. \<exists>x\<in>\<nat>. fR r = Num x"
    and bound: "a + sum_list (map (\<lambda>r. numVal (fR r)) rs) < 2 ^ 53"
  shows "fT (foldl addRow t rs) = Num (a + sum_list (map (\<lambda>r. numVal (fR r)) rs))"
  using t ok bound
proof (induction rs arbitrary: t a)
  case Nil
  then show ?case by simp
next
  case (Cons r rs)
  from Cons.prems(3) obtain x where x: "x \<in> \<nat>" "fR r = Num x" by auto
  have rest: "0 \<le> sum_list (map (\<lambda>r. numVal (fR r)) rs)"
    using Cons.prems(3) by (intro nonneg_sum) (fastforce simp: numVal_def dest: whole_nonneg)
  have lt: "a + x < 2 ^ 53"
    using Cons.prems(4) rest x by (simp add: numVal_def)
  have one: "fT (addRow t r) = Num (a + x)"
    using js_add_exact [of a x] Cons.prems(1,2) x lt by (simp add: step)
  have "fT (foldl addRow (addRow t r) rs) = Num ((a + x) + sum_list (map (\<lambda>r. numVal (fR r)) rs))"
    using one Cons.prems x by (intro Cons.IH) (auto simp: numVal_def add.assoc)
  then show ?case using x by (simp add: numVal_def add.assoc)
qed

lemma weekly_money_field:
  fixes allLeads :: "'a LeadInput_scheme list" and selectedMonth selectedWeek :: string
    and parseDate :: "string \<Rightarrow> (nat \<times> nat \<times> nat) option"
    and fS :: "Sums \<Rightarrow> jsnum" and fR :: "SourceRow \<Rightarrow> jsnum" and fT :: "Totals \<Rightarrow> jsnum"
    and c :: "'a LeadInput_scheme \<Rightarrow> rat"
  defines "year \<equiv> numberAt (splitOn (CHR ''-'') selectedMonth) 0"
    and "month \<equiv> numberAt (splitOn (CHR ''-'') selectedMonth) 1"
    and "startDay \<equiv> numberAt (splitOn (CHR ''-'') selectedWeek) 0"
    and "endDay \<equiv> numberAt (splitOn (CHR ''-'') selectedWeek) 1"
  defines "filtered \<equiv> filter (inWindow parseDate year month startDay endDay) allLeads"
  assumes stepS: "\<And>g l. fS (addLead g l) = js_add (fS g) (Num (c l))"
    and zeroS: "fS zeroSums = Num 0"
    and row: "\<And>e. fR (sourceRow e) = fS (snd e)"
    and stepT: "\<And>t r. fT (addRow t r) = js_add (fT t) (fR r)"
    and zeroT: "fT zeroTotals = Num 0"
    and avg: "\<And>t x. fT (t\<lparr> avgReplyMins := x \<rparr>) = fT t"
    and valid: "\<not> falsy year" "\<not> falsy month" "\<not> falsy startDay" "\<not> falsy endDay"
    and safe: "\<forall>l \<in> set filtered. orElse (leadSource l) ''Unknown'' \<notin> set objectPrototypeKeys"
    and nonneg: "\<forall>l \<in> set filtered. c l \<in> \<nat>"
    and bound: "sum_list (map c filtered) < 2 ^ 53"
  shows "fT (totals (weekly parseDate allLeads selectedMonth selectedWeek))
           = Num (sum_list (map c filtered))"
proof -
  let ?grouped = "foldl groupStep [] filtered"
  let ?rows = "sortBySpend (map sourceRow (entries ?grouped))"
  have w: "totals (weekly parseDate allLeads selectedMonth selectedWeek)
             = (foldl addRow zeroTotals ?rows)\<lparr> avgReplyMins := averageOf (replyTimesOf filtered) \<rparr>"
    using valid
    by (simp add: weekly_def Let_def year_def month_def startDay_def endDay_def filtered_def)
  from grouped_money [of fS c "[]" filtered, OF stepS zeroS] safe nonneg bound
  have g: "\<forall>e \<in> set ?grouped. \<exists>r\<in>\<nat>. fS (snd e) = Num r"
    and gsum: "sum_list (map (\<lambda>e. numVal (fS (snd e))) ?grouped) = sum_list (map c filtered)"
    by simp_all
  have okR: "\<forall>r \<in> set ?rows. \<exists>x\<in>\<nat>. fR r = Num x"
    using g by (auto simp: sortBySpend_set entries_set row)
  have rsum: "sum_list (map (\<lambda>r. numVal (fR r)) ?rows) = sum_list (map c filtered)"
    by (simp add: sortBySpend_sum entries_sum comp_def row gsum)
  have "fT (foldl addRow zeroTotals ?rows) = Num (0 + sum_list (map (\<lambda>r. numVal (fR r)) ?rows))"
    using okR bound by (intro addRow_money stepT zeroT) (simp_all add: rsum)
  then show ?thesis by (simp add: w avg rsum)
qed

text \<open>
  Apart from the inherited keys and from rounding, the money of the totals row is that of
  the filtered leads: when the window is valid, no filtered lead has a source that names
  a property of \<open>Object.prototype\<close>, the parsed lead costs are whole numbers and their
  sum is below \<open>2^53\<close> (so that no addition rounds), \<open>totals.spend\<close> is the sum of
  the parsed lead costs of the filtered leads; and likewise \<open>totals.soldAmount\<close> and
  \<open>totals.revenue\<close>.
\<close>

lemma weekly_money:
  fixes allLeads :: "'a LeadInput_scheme list" and selectedMonth selectedWeek :: string
    and parseDate :: "string \<Rightarrow> (nat \<times> nat \<times> nat) option"
  defines "year \<equiv> numberAt (splitOn (CHR ''-'') selectedMonth) 0"
    and "month \<equiv> numberAt (splitOn (CHR ''-'') selectedMonth) 1"
    and "startDay \<equiv> numberAt (splitOn (CHR ''-'') selectedWeek) 0"
    and "endDay \<equiv> numberAt (splitOn (CHR ''-'') selectedWeek) 1"
  defines "filtered \<equiv> filter (inWindow parseDate year month startDay endDay) allLeads"
  assumes valid: "\<not> falsy year" "\<not> falsy month" "\<not> falsy startDay" "\<not> falsy endDay"
    and safe: "\<forall>l \<in> set filtered. orElse (leadSource l) ''Unknown'' \<notin> set objectPrototypeKeys"
  shows "(\<forall>l \<in> set filtered. numVal (parseMoney (leadCost l)) \<in> \<nat>) \<Longrightarrow>
         sum_list (map (\<lambda>l. numVal (parseMoney (leadCost l))) filtered) < 2 ^ 53 \<Longrightarrow>
         spend (totals (weekly parseDate allLeads selectedMonth selectedWeek))
           = Num (sum_list (map (\<lambda>l. numVal (parseMoney (leadCost l))) filtered))"
    and "(\<forall>l \<in> set filtered. numVal (parseMoney (soldAmount l)) \<in> \<nat>) \<Longrightarrow>
         sum_list (map (\<lambda>l. numVal (parseMoney (soldAmount l))) filtered) < 2 ^ 53 \<Longrightarrow>
         soldAmount_n (totals (weekly parseDate allLeads selectedMonth selectedWeek))
           = Num (sum_list (map (\<lambda>l. numVal (parseMoney (soldAmount l))) filtered))"
    and "(\<forall>l \<in> set filtered. numVal (parseMoney (revenue l)) \<in> \<nat>) \<Longrightarrow>
         sum_list (map (\<lambda>l. numVal (parseMoney (revenue l))) filtered) < 2 ^ 53 \<Longrightarrow>
         revenue_n (totals (weekly parseDate allLeads selectedMonth selectedWeek))
           = Num (sum_list (map (\<lambda>l. numVal (parseMoney (revenue l))) filtered))"
proof -
  note v = valid [unfolded year_def month_def startDay_def endDay_def]
  note s = safe [unfolded filtered_def year_def month_def startDay_def endDay_def]
  show "(\<forall>l \<in> set filtered. numVal (parseMoney (leadCost l)) \<in> \<nat>) \<Longrightarrow>
         sum_list (map (\<lambda>l. numVal (parseMoney (leadCost l))) filtered) < 2 ^ 53 \<Longrightarrow>
         spend (totals (weekly parseDate allLeads selectedMonth selectedWeek))
           = Num (sum_list (map (\<lambda>l. numVal (parseMoney (leadCost l))) filtered))"
    unfolding filtered_def year_def month_def startDay_def endDay_def
    by (rule weekly_money_field [where fS = spend and fR = spend and fT = spend, OF _ _ _ _ _ _ v s])
       (simp_all add: addLead_def parseMoney_Num [symmetric] zeroSums_def sourceRow_def addRow_def
          zeroTotals_def split: prod.splits)
  show "(\<forall>l \<in> set filtered. numVal (parseMoney (soldAmount l)) \<in> \<nat>) \<Longrightarrow>
         sum_list (map (\<lambda>l. numVal (parseMoney (soldAmount l))) filtered) < 2 ^ 53 \<Longrightarrow>
         soldAmount_n (totals (weekly parseDate allLeads selectedMonth selectedWeek))
           = Num (sum_list (map (\<lambda>l. numVal (parseMoney (soldAmount l))) filtered))"
    unfolding filtered_def year_def month_def startDay_def endDay_def
    by (rule weekly_money_field [where fS = soldAmount_n and fR = soldAmount_n and fT = soldAmount_n,
          OF _ _ _ _ _ _ v s])
       (simp_all add: addLead_def parseMoney_Num [symmetric] zeroSums_def sourceRow_def addRow_def
          zeroTotals_def split: prod.splits)
  show "(\<forall>l \<in> set filtered. numVal (parseMoney (revenue l)) \<in> \<nat>) \<Longrightarrow>
         sum_list (map (\<lambda>l. numVal (parseMoney (revenue l))) filtered) < 2 ^ 53 \<Longrightarrow>
         revenue_n (totals (weekly parseDate allLeads selectedMonth selectedWeek))
           = Num (sum_list (map (\<lambda>l. numVal (parseMoney (revenue l))) filtered))"
    unfolding filtered_def year_def month_def startDay_def endDay_def
    by (rule weekly_money_field [where fS = revenue_n and fR = revenue_n and fT = revenue_n,
          OF _ _ _ _ _ _ v s])
       (simp_all add: addLead_def parseMoney_Num [symmetric] zeroSums_def sourceRow_def addRow_def
          zeroTotals_def split: prod.splits)
qed

end
